(* ===== verification/Prelude.thy ===== *)
theory Prelude
  imports Main "HOL-Library.Word" "HOL-Library.Sublist"
begin

text \<open>
  Shared vocabulary of the development: the Rust primitive integer types as
  words of their width, a panic as the left value of a sum, the arithmetic of
  a debug build (which panics on signed overflow instead of wrapping), the
  decimal rendering that \<open>Display\<close> uses for integers in \<open>println!\<close> and
  \<open>format!\<close>, and \<open>str::contains\<close>.  Every component theory imports it.
\<close>

named_theorems rust_simps "evaluation rules of the Rust runtime model"

section \<open>Primitive types\<close>

type_synonym i8 = "8 word"
type_synonym i32 = "32 word"
type_synonym u8 = "8 word"
type_synonym u32 = "32 word"
type_synonym u64 = "64 word"

section \<open>Panics\<close>

text \<open>
  A panic unwinds the thread; the model returns it as \<open>Inl\<close>.  The
  constructors are the panics the sources can raise: the overflow checks a
  debug build inserts, an out-of-range index, a string slice that ends
  inside a character or past the end, an explicit \<open>panic!\<close> with its
  formatted message, and a failed \<open>assert_eq!\<close> with its two sides.
\<close>

datatype panic =
    AddOverflow
  | SubOverflow
  | IndexOutOfBounds nat nat
  | StrNotCharBoundary nat
  | StrIndexOutOfBounds nat
  | PanicMsg string
  | AssertEqFailed string string

type_synonym 'a outcome = "panic + 'a"

section \<open>Decimal rendering\<close>

definition digit_char :: "nat \<Rightarrow> char" where
  "digit_char d = ''0123456789'' ! d"

fun show_nat :: "nat \<Rightarrow> string" where
  "show_nat n =
     (if n < 10 then [digit_char n] else show_nat (n div 10) @ [digit_char (n mod 10)])"

declare show_nat.simps [simp del]

definition show_int :: "int \<Rightarrow> string" where
  "show_int i = (if i < 0 then CHR ''-'' # show_nat (nat (- i)) else show_nat (nat i))"

text \<open>\<open>Display\<close> of a signed and of an unsigned word.\<close>

definition show_signed :: "'a::len word \<Rightarrow> string" where
  "show_signed w = show_int (sint w)"

definition show_unsigned :: "'a::len word \<Rightarrow> string" where
  "show_unsigned w = show_nat (unat w)"

text \<open>The messages the runtime prints for a panic.\<close>

fun panic_message :: "panic \<Rightarrow> string" where
  "panic_message AddOverflow = ''attempt to add with overflow''"
| "panic_message SubOverflow = ''attempt to subtract with overflow''"
| "panic_message (IndexOutOfBounds i n) =
     ''index out of bounds: the len is '' @ show_nat n @ '' but the index is '' @ show_nat i"
| "panic_message (StrNotCharBoundary i) =
     ''byte index '' @ show_nat i @ '' is not a char boundary''"
| "panic_message (StrIndexOutOfBounds i) =
     ''byte index '' @ show_nat i @ '' is out of bounds''"
| "panic_message (PanicMsg s) = s"
| "panic_message (AssertEqFailed l r) =
     ''assertion `left == right` failed: left: '' @ l @ '', right: '' @ r"

section \<open>Debug-build integer arithmetic\<close>

text \<open>
  \<open>a + b\<close> and \<open>a - b\<close> on a signed integer type of width \<open>LENGTH('a)\<close>: the
  mathematical result when it is representable, a panic otherwise.  In a
  release build the same operations wrap; \<open>checked_add_eq\<close> says the two
  agree wherever the debug build does not panic.
\<close>

definition signed_fits :: "'a::len itself \<Rightarrow> int \<Rightarrow> bool" where
  "signed_fits T k \<longleftrightarrow> - (2 ^ (LENGTH('a) - 1)) \<le> k \<and> k < 2 ^ (LENGTH('a) - 1)"

definition checked_add :: "'a::len word \<Rightarrow> 'a word \<Rightarrow> 'a word outcome" where
  "checked_add a b =
     (if signed_fits TYPE('a) (sint a + sint b) then Inr (a + b) else Inl AddOverflow)"

definition checked_sub :: "'a::len word \<Rightarrow> 'a word \<Rightarrow> 'a word outcome" where
  "checked_sub a b =
     (if signed_fits TYPE('a) (sint a - sint b) then Inr (a - b) else Inl SubOverflow)"

section \<open>Assertions and sequencing\<close>

text \<open>
  \<open>assert_eq!(left, right)\<close> with the \<open>Debug\<close> rendering \<open>fmt\<close> of the
  operands, \<open>assert!(cond, msg)\<close>, and \<open>;\<close> between statements that may
  panic: the first panic ends the function.
\<close>

definition assert_eq :: "('a \<Rightarrow> string) \<Rightarrow> 'a \<Rightarrow> 'a \<Rightarrow> unit outcome" where
  "assert_eq fmt l r = (if l = r then Inr () else Inl (AssertEqFailed (fmt l) (fmt r)))"

definition assert_true :: "bool \<Rightarrow> string \<Rightarrow> unit outcome" where
  "assert_true b msg = (if b then Inr () else Inl (PanicMsg msg))"

definition then_run :: "'a outcome \<Rightarrow> ('a \<Rightarrow> 'b outcome) \<Rightarrow> 'b outcome" where
  "then_run r k = (case r of Inl e \<Rightarrow> Inl e | Inr u \<Rightarrow> k u)"

section \<open>Strings\<close>

text \<open>\<open>haystack.contains(needle)\<close> for a string needle.\<close>

fun str_contains :: "string \<Rightarrow> string \<Rightarrow> bool" where
  "str_contains [] needle = (needle = [])"
| "str_contains (c # cs) needle = (prefix needle (c # cs) \<or> str_contains cs needle)"

text \<open>
  The \<open>Debug\<close> rendering of a string (\<open>str::escape_debug\<close> inside
  double quotes), as \<open>assert_eq!\<close> and \<open>{:?}\<close> print it: the
  escapes of \<open>char::escape_debug\<close> for the ASCII characters, with the
  other control characters as \<open>\\u{..}\<close> in lower-case hexadecimal.
  The bytes of a non-ASCII scalar are kept as they are (Rust escapes the
  non-printable and grapheme-extending ones by the Unicode tables, which
  the model does not hold).
\<close>

definition hex_digit :: "nat \<Rightarrow> char" where
  "hex_digit d = ''0123456789abcdef'' ! d"

fun show_hex :: "nat \<Rightarrow> string" where
  "show_hex n =
     (if n < 16 then [hex_digit n] else show_hex (n div 16) @ [hex_digit (n mod 16)])"

declare show_hex.simps [simp del]

fun escape_debug_char :: "char \<Rightarrow> string" where
  "escape_debug_char c =
     (if c = CHR 0x00 then [CHR 0x5C, CHR ''0'']
      else if c = CHR 0x09 then [CHR 0x5C, CHR ''t'']
      else if c = CHR 0x0A then [CHR 0x5C, CHR ''n'']
      else if c = CHR 0x0D then [CHR 0x5C, CHR ''r'']
      else if c = CHR 0x22 then [CHR 0x5C, CHR 0x22]
      else if c = CHR 0x5C then [CHR 0x5C, CHR 0x5C]
      else if of_char c < (0x20 :: nat) \<or> c = CHR 0x7F
      then CHR 0x5C # CHR ''u'' # CHR 0x7B # show_hex (of_char c) @ [CHR 0x7D]
      else [c])"

definition debug_str :: "string \<Rightarrow> string" where
  "debug_str s = CHR 0x22 # concat (map escape_debug_char s) @ [CHR 0x22]"

section \<open>Lemmas\<close>

lemma sint_fits: "signed_fits TYPE('a::len) (sint (w :: 'a word))"
  using sint_ge [of w] sint_lt [of w] by (simp add: signed_fits_def)

lemma sint_add_fits [rust_simps]:
  "signed_fits TYPE('a::len) (sint a + sint b) \<Longrightarrow> sint ((a :: 'a word) + b) = sint a + sint b"
  by (simp add: signed_fits_def sint_word_add signed_take_bit_int_eq_self)

lemma sint_sub_fits [rust_simps]:
  "signed_fits TYPE('a::len) (sint a - sint b) \<Longrightarrow> sint ((a :: 'a word) - b) = sint a - sint b"
  by (simp add: signed_fits_def sint_word_diff signed_take_bit_int_eq_self)

lemma checked_add_eq:
  "checked_add a b = Inr c \<longleftrightarrow> signed_fits TYPE('a::len) (sint a + sint b) \<and> c = (a :: 'a word) + b"
  by (auto simp: checked_add_def)

lemma checked_add_Inr_sint:
  "checked_add (a :: 'a::len word) b = Inr c \<Longrightarrow> sint c = sint a + sint b"
  by (auto simp: checked_add_eq sint_add_fits)

lemma checked_add_Inl:
  "checked_add a b = Inl e \<longleftrightarrow> \<not> signed_fits TYPE('a::len) (sint (a :: 'a word) + sint b) \<and> e = AddOverflow"
  by (auto simp: checked_add_def)

lemma checked_sub_eq:
  "checked_sub a b = Inr c \<longleftrightarrow> signed_fits TYPE('a::len) (sint a - sint b) \<and> c = (a :: 'a word) - b"
  by (auto simp: checked_sub_def)

lemma checked_sub_Inl:
  "checked_sub a b = Inl e \<longleftrightarrow> \<not> signed_fits TYPE('a::len) (sint (a :: 'a word) - sint b) \<and> e = SubOverflow"
  by (auto simp: checked_sub_def)

lemmas assert_defs [rust_simps] = assert_eq_def assert_true_def then_run_def

lemmas display_defs [rust_simps] = show_signed_def show_int_def show_nat.simps digit_char_def

text \<open>
  The congruence rule lets a recursive function call itself under
  \<open>then_run\<close>: its termination proof knows the value the first statement
  returned.
\<close>

lemma then_run_cong [fundef_cong]:
  "r = r' \<Longrightarrow> (\<And>x. r' = Inr x \<Longrightarrow> k x = k' x) \<Longrightarrow> then_run r k = then_run r' k'"
  by (cases r') (simp_all add: then_run_def)

lemma then_run_Inl [simp]: "then_run (Inl e) k = Inl e"
  by (simp add: then_run_def)

lemma then_run_Inr [simp]: "then_run (Inr x) k = k x"
  by (simp add: then_run_def)

lemma show_nat_ne [simp]: "show_nat n \<noteq> []"
  by (subst show_nat.simps) simp

lemma str_contains_sublist: "str_contains hay needle \<longleftrightarrow> sublist needle hay"
  by (induction hay) (auto simp: sublist_Cons_right)

lemma str_contains_append_left [intro]: "str_contains (xs @ needle @ ys) needle"
  by (simp add: str_contains_sublist)

end
