(* ===== verification/Post.thy ===== *)
theory Post
  imports Prelude
begin

text \<open>
  The blog-post workflow of \<open>src/chapters/chapter-17/example03.rs\<close>.  A
  \<open>Post\<close> holds an \<open>Option<Box<dyn State>>\<close> and a \<open>String\<close>; the three
  implementors of the trait \<open>State\<close> form the closed datatype \<open>state\<close>, and
  a trait method is a function on it, one equation per \<open>impl\<close>.  The methods
  of \<open>Post\<close> are functions on the record \<open>post\<close>; \<open>self.state.take()\<close> is
  written out (the slot is emptied, then refilled).  The client's calls are
  the datatype \<open>post_op\<close>, run one after another by \<open>post_run\<close>; the posts
  a client can produce are the inductive set \<open>post_reachable\<close>.

  The abstract workflow of the specification (draft, then pending review,
  then published; the text visible only once published) is
  \<open>spec_request_review\<close>, \<open>spec_approve\<close> and \<open>spec_content\<close>.  The
  lemmas show where the code implements it and where it does not: the
  \<open>Draft\<close> state's \<open>request_review\<close> returns \<open>self\<close>, so no post leaves
  \<open>Draft\<close>, and \<open>content\<close> returns the text in every state.
\<close>

section \<open>The trait \<open>State\<close> and its three implementors\<close>

datatype state = Draft | PendingReview | Published

primrec request_review :: "state \<Rightarrow> state" where
  "request_review Draft = Draft"
| "request_review PendingReview = PendingReview"
| "request_review Published = Published"

primrec approve :: "state \<Rightarrow> state" where
  "approve Draft = Draft"
| "approve PendingReview = Published"
| "approve Published = Published"

section \<open>The struct \<open>Post\<close>\<close>

record post =
  state :: "state option"
  content :: string

definition post_new :: post where
  "post_new = \<lparr>state = Some Draft, content = ''''\<rparr>"

definition post_add_text :: "string \<Rightarrow> post \<Rightarrow> post" where
  "post_add_text text p = p\<lparr>content := content p @ text\<rparr>"

definition post_approve :: "post \<Rightarrow> post" where
  "post_approve p =
     (let taken = p\<lparr>state := None\<rparr> in
      case state p of
        Some s \<Rightarrow> taken\<lparr>state := Some (approve s)\<rparr>
      | None \<Rightarrow> taken)"

definition post_content :: "post \<Rightarrow> string" where
  "post_content p = content p"

definition post_request_review :: "post \<Rightarrow> post" where
  "post_request_review p =
     (let taken = p\<lparr>state := None\<rparr> in
      case state p of
        Some s \<Rightarrow> taken\<lparr>state := Some (request_review s)\<rparr>
      | None \<Rightarrow> taken)"

section \<open>Clients: sequences of method calls\<close>

datatype post_op = AddText string | RequestReview | Approve

fun post_step :: "post \<Rightarrow> post_op \<Rightarrow> post" where
  "post_step p (AddText t) = post_add_text t p"
| "post_step p RequestReview = post_request_review p"
| "post_step p Approve = post_approve p"

fun post_run :: "post \<Rightarrow> post_op list \<Rightarrow> post" where
  "post_run p [] = p"
| "post_run p (op # ops) = post_run (post_step p op) ops"

inductive post_reachable :: "post \<Rightarrow> bool" where
  new: "post_reachable post_new"
| step: "post_reachable p \<Longrightarrow> post_reachable (post_step p op)"

inductive_cases post_reachable_stepE: "post_reachable (post_step p op)"

text \<open>The text a sequence of calls appends, in call order.\<close>

fun added_text :: "post_op list \<Rightarrow> string" where
  "added_text [] = ''''"
| "added_text (AddText t # ops) = t @ added_text ops"
| "added_text (_ # ops) = added_text ops"

section \<open>\<open>main\<close>\<close>

definition post_main :: "unit outcome" where
  "post_main =
     (let post = post_add_text ''I ate a salad for lunch today'' post_new in
      then_run (assert_eq debug_str '''' (post_content post)) (\<lambda>_.
      let post = post_request_review post in
      then_run (assert_eq debug_str '''' (post_content post)) (\<lambda>_.
      let post = post_approve post in
      assert_eq debug_str ''I ate a salad for lunch today'' (post_content post))))"

section \<open>The workflow of the specification\<close>

fun spec_request_review :: "state \<Rightarrow> state" where
  "spec_request_review Draft = PendingReview"
| "spec_request_review s = s"

fun spec_approve :: "state \<Rightarrow> state" where
  "spec_approve PendingReview = Published"
| "spec_approve s = s"

definition spec_content :: "post \<Rightarrow> string" where
  "spec_content p = (if state p = Some Published then content p else '''')"

fun spec_state_step :: "state \<Rightarrow> post_op \<Rightarrow> state" where
  "spec_state_step s (AddText t) = s"
| "spec_state_step s RequestReview = spec_request_review s"
| "spec_state_step s Approve = spec_approve s"

fun spec_state_run :: "state \<Rightarrow> post_op list \<Rightarrow> state" where
  "spec_state_run s [] = s"
| "spec_state_run s (op # ops) = spec_state_run (spec_state_step s op) ops"

section \<open>Lemmas on single calls\<close>

lemmas post_defs [rust_simps] =
  post_new_def post_add_text_def post_approve_def post_content_def post_request_review_def
  Let_def

lemma request_review_id [simp]: "request_review s = s"
  by (cases s) simp_all

lemma approve_idem [simp]: "approve (approve s) = approve s"
  by (cases s) simp_all

lemma post_step_content:
  "content (post_step p op) = content p @ added_text [op]"
  by (cases op) (simp_all add: post_defs split: option.split)

lemma post_step_state:
  "state (post_step p op) =
     (case op of AddText _ \<Rightarrow> state p | RequestReview \<Rightarrow> state p
      | Approve \<Rightarrow> map_option approve (state p))"
  by (cases op) (simp_all add: post_defs split: option.split)

lemma post_step_Draft:
  "state p = Some Draft \<Longrightarrow> state (post_step p op) = Some Draft"
  by (simp add: post_step_state split: post_op.split)

lemma added_text_Cons: "added_text (op # ops) = added_text [op] @ added_text ops"
  by (cases op) simp_all

lemma post_run_append: "post_run p (xs @ ys) = post_run (post_run p xs) ys"
  by (induction xs arbitrary: p) simp_all

lemma spec_state_step_non_draft:
  "s \<noteq> Draft \<Longrightarrow> spec_state_step s op \<noteq> Draft"
  by (cases op; cases s) simp_all

lemma post_step_refines:
  "s \<noteq> Draft \<Longrightarrow> state p = Some s \<Longrightarrow> state (post_step p op) = Some (spec_state_step s op)"
  by (cases op; cases s) (simp_all add: post_defs)

lemma post_reachable_Draft: "post_reachable p \<Longrightarrow> state p = Some Draft"
  by (induction rule: post_reachable.induct) (simp_all add: post_new_def post_step_Draft)

lemma post_run_content: "content (post_run p ops) = content p @ added_text ops"
proof (induction ops arbitrary: p)
  case Nil
  then show ?case by simp
next
  case (Cons op ops)
  then show ?case by (simp add: post_step_content added_text_Cons [of op ops])
qed

section \<open>Properties of the workflow\<close>

text \<open>
  C1.  The posts a client can produce are exactly the posts whose state is
  \<open>Draft\<close>: whatever sequence of \<open>add_text\<close>, \<open>request_review\<close> and
  \<open>approve\<close> calls is made, the state slot is never empty and never holds
  \<open>PendingReview\<close> or \<open>Published\<close>, because \<open>Draft::request_review\<close>
  returns \<open>self\<close>.
\<close>

theorem post_reachable_iff_draft: "post_reachable p \<longleftrightarrow> state p = Some Draft"
proof
  assume "post_reachable p"
  then show "state p = Some Draft" by (rule post_reachable_Draft)
next
  assume st: "state p = Some Draft"
  have "post_step post_new (AddText (content p)) = p"
    using st by (cases p) (simp add: post_defs)
  then show "post_reachable p"
    by (metis post_reachable.new post_reachable.step)
qed

theorem post_reachable_iff_draft_witness:
  "state (post_add_text ''hi'' post_new) = Some Draft \<and> post_reachable (post_add_text ''hi'' post_new)"
  using post_reachable_iff_draft [of "post_add_text ''hi'' post_new"]
  by (simp add: post_defs)

text \<open>
  C2.  \<open>content()\<close> returns the post's text followed by the arguments of all
  \<open>add_text\<close> calls in call order, whatever transitions are interleaved with
  them: the buffer is append-only.
\<close>

theorem post_content_run: "post_content (post_run p ops) = content p @ added_text ops"
  by (simp add: post_content_def post_run_content)

text \<open>
  C3.  The read is not gated: for every post a client can produce that holds
  some text, \<open>content()\<close> differs from what the specified workflow shows
  (the empty string for a post that is not published).
\<close>

theorem post_content_leaks:
  "post_reachable p \<Longrightarrow> content p \<noteq> [] \<Longrightarrow> post_content p \<noteq> spec_content p"
  by (simp add: post_content_def spec_content_def post_reachable_Draft)

theorem post_content_leaks_witness:
  "post_reachable (post_add_text ''hi'' post_new) \<and> content (post_add_text ''hi'' post_new) \<noteq> []
   \<and> post_content (post_add_text ''hi'' post_new) \<noteq> spec_content (post_add_text ''hi'' post_new)"
proof -
  have r: "post_reachable (post_add_text ''hi'' post_new)"
    using post_reachable.step [OF post_reachable.new, of "AddText ''hi''"] by simp
  have c: "content (post_add_text ''hi'' post_new) \<noteq> []"
    by (simp add: post_defs)
  show ?thesis using r c post_content_leaks [OF r c] by simp
qed

text \<open>
  \<open>main\<close> panics at its first assertion (line 81): after \<open>add_text\<close> the
  draft's \<open>content()\<close> is the whole text, not the empty string.
\<close>

lemma post_main_panics:
  "post_main = Inl (AssertEqFailed (debug_str '''') (debug_str ''I ate a salad for lunch today''))"
  by (simp add: post_main_def post_defs assert_defs)

text \<open>
  C4.  From a post that is pending review or published, every sequence of
  calls moves the state exactly as the specified workflow does: outside
  \<open>Draft\<close> the transition table of the code refines the specification's.
\<close>

theorem post_run_refines_spec:
  "s \<noteq> Draft \<Longrightarrow> state p = Some s \<Longrightarrow> state (post_run p ops) = Some (spec_state_run s ops)"
proof (induction ops arbitrary: p s)
  case Nil
  then show ?case by simp
next
  case (Cons op ops)
  have "state (post_step p op) = Some (spec_state_step s op)"
    using Cons.prems by (rule post_step_refines)
  moreover have "spec_state_step s op \<noteq> Draft"
    using Cons.prems(1) by (rule spec_state_step_non_draft)
  ultimately show ?case using Cons.IH by simp
qed

theorem post_run_refines_spec_witness:
  "state (post_run \<lparr>state = Some PendingReview, content = ''x''\<rparr> [RequestReview, Approve])
     = Some Published"
proof -
  have "state (post_run \<lparr>state = Some PendingReview, content = ''x''\<rparr> [RequestReview, Approve])
          = Some (spec_state_run PendingReview [RequestReview, Approve])"
    by (rule post_run_refines_spec) simp_all
  then show ?thesis by simp
qed

text \<open>
  C5.  \<open>Post::request_review\<close> changes nothing, in any post: every
  implementor's \<open>request_review\<close> returns \<open>self\<close>, and an empty slot stays
  empty.
\<close>

theorem post_request_review_noop: "post_request_review p = p"
  by (simp add: post_defs split: option.split)

text \<open>
  C6.  \<open>Post::approve\<close> is idempotent: a second call changes nothing, in
  particular on a fresh post (still a draft) and on a published one.
\<close>

theorem post_approve_idem: "post_approve (post_approve p) = post_approve p"
  by (simp add: post_defs split: option.split)

end
