(* ===== verification/Adder.thy ===== *)
theory Adder
  imports Prelude
begin

text \<open>
  The library crate \<open>src/chapters/chapter-11/adder/src/lib.rs\<close> and its
  unit tests.  \<open>Rectangle\<close> is a record of two \<open>u32\<close> words (its fields are
  \<open>rect_length\<close> and \<open>rect_width\<close>, since \<open>length\<close> is taken by lists),
  \<open>add_two\<close> is \<open>i32\<close> addition as a debug build runs it, \<open>greeting\<close> is
  the \<open>format!\<close>, and \<open>Guess::new\<close> returns a guess or the panic with its
  formatted message.  Each \<open>#[test]\<close> function is a \<open>unit outcome\<close>;
  \<open>run_test\<close> is the verdict of the test harness for the function's
  attributes (\<open>#[should_panic(expected = ...)]\<close>, \<open>#[ignore]\<close>), and
  \<open>adder_tests\<close> is the report of \<open>cargo test\<close>.
\<close>

section \<open>The library\<close>

record rectangle =
  rect_length :: u32
  rect_width :: u32

definition can_hold :: "rectangle \<Rightarrow> rectangle \<Rightarrow> bool" where
  "can_hold self other \<longleftrightarrow>
     rect_length other < rect_length self \<and> rect_width other < rect_width self"

definition add_two :: "i32 \<Rightarrow> i32 outcome" where
  "add_two a = checked_add a 2"

definition greeting :: "string \<Rightarrow> string" where
  "greeting name = ''Hello '' @ name @ ''!''"

record guess =
  guess_value :: i32

definition guess_new :: "i32 \<Rightarrow> guess outcome" where
  "guess_new value =
     (if sint value < 1 \<or> sint value > 100
      then Inl (PanicMsg (''Guess value must be between 1 and 100, got '' @ show_signed value @ ''.''))
      else Inr \<lparr>guess_value = value\<rparr>)"

section \<open>The test harness\<close>

text \<open>
  The attributes of a test function and the harness's verdict.  A plain test
  passes when its body returns (for a test returning \<open>Result\<close>, returns
  \<open>Ok\<close>); \<open>should_panic\<close> passes when the body panics and, with
  \<open>expected\<close>, when the panic message contains the expected string; an
  ignored test is not run.
\<close>

datatype test_attr = Plain | ShouldPanic "string option" | Ignore

datatype test_result = Passed | Failed string | Ignored

fun run_test :: "test_attr \<Rightarrow> unit outcome \<Rightarrow> test_result" where
  "run_test Ignore _ = Ignored"
| "run_test Plain (Inr _) = Passed"
| "run_test Plain (Inl p) = Failed (panic_message p)"
| "run_test (ShouldPanic _) (Inr _) = Failed ''test did not panic as expected''"
| "run_test (ShouldPanic None) (Inl _) = Passed"
| "run_test (ShouldPanic (Some e)) (Inl p) =
     (if str_contains (panic_message p) e then Passed
      else Failed (''panic did not contain expected string: '' @ e))"

section \<open>The tests\<close>

definition larger :: rectangle where
  "larger = \<lparr>rect_length = 8, rect_width = 7\<rparr>"

definition smaller :: rectangle where
  "smaller = \<lparr>rect_length = 5, rect_width = 1\<rparr>"

definition test_it_works :: "unit outcome" where
  "test_it_works = assert_eq show_signed (2 + 2 :: i32) 4"

definition test_another :: "unit outcome" where
  "test_another = Inl (PanicMsg ''Make this test fail'')"

definition test_larger_can_hold_smaller :: "unit outcome" where
  "test_larger_can_hold_smaller =
     assert_true (can_hold larger smaller) ''assertion failed: larger.can_hold(&smaller)''"

definition test_smaller_cannot_hold_larger :: "unit outcome" where
  "test_smaller_cannot_hold_larger =
     assert_true (\<not> can_hold smaller larger) ''assertion failed: !smaller.can_hold(&larger)''"

definition test_it_adds_two :: "unit outcome" where
  "test_it_adds_two = then_run (add_two 2) (\<lambda>r. assert_eq show_signed 4 r)"

definition test_result_not_equal :: "unit outcome" where
  "test_result_not_equal = Inr ()"

definition test_greeting_contains_name :: "unit outcome" where
  "test_greeting_contains_name =
     (let result = greeting ''Carol'' in
      assert_true (str_contains result ''Carol'')
        (''Greeting did not contain name, value was `'' @ result @ ''`''))"

definition test_greater_than_100 :: "unit outcome" where
  "test_greater_than_100 = then_run (guess_new 200) (\<lambda>_. Inr ())"

definition test_it_works_result_error :: "unit outcome" where
  "test_it_works_result_error =
     (if (2 + 2 :: i32) = 4 then Inr () else Inl (PanicMsg ''two plus two does not equal four''))"

definition test_it_is_ignored :: "unit outcome" where
  "test_it_is_ignored = Inl (PanicMsg ''Should not run'')"

definition adder_tests :: "(string \<times> test_result) list" where
  "adder_tests =
     [(''it_works'', run_test Plain test_it_works),
      (''another'', run_test Plain test_another),
      (''larger_can_hold_smaller'', run_test Plain test_larger_can_hold_smaller),
      (''smaller_cannot_hold_larger'', run_test Plain test_smaller_cannot_hold_larger),
      (''it_adds_two'', run_test Plain test_it_adds_two),
      (''result_not_equal'', run_test Plain test_result_not_equal),
      (''greeting_contains_name'', run_test Plain test_greeting_contains_name),
      (''greater_than_100'', run_test (ShouldPanic (Some ''foo'')) test_greater_than_100),
      (''it_works_result_error'', run_test Plain test_it_works_result_error),
      (''it_is_ignored'', run_test Ignore test_it_is_ignored)]"

section \<open>Lemmas\<close>

lemma add_two_eq:
  "add_two a = (if 2147483646 \<le> sint a then Inl AddOverflow else Inr (a + 2))"
  using sint_ge [of a] by (simp add: add_two_def checked_add_def signed_fits_def)

lemmas adder_test_defs =
  test_it_works_def test_another_def test_larger_can_hold_smaller_def
  test_smaller_cannot_hold_larger_def test_it_adds_two_def test_result_not_equal_def
  test_greeting_contains_name_def test_greater_than_100_def test_it_works_result_error_def
  test_it_is_ignored_def larger_def smaller_def

section \<open>Properties\<close>

text \<open>
  \<open>cargo test\<close> on the crate reports seven passing tests, one ignored
  test, and two failures: \<open>another\<close>, which panics on purpose, and
  \<open>greater_than_100\<close>, whose \<open>Guess::new(200)\<close> does panic but with a
  message that does not contain the expected \<open>"foo"\<close>.
\<close>

lemma adder_tests_report:
  "adder_tests =
     [(''it_works'', Passed), (''another'', Failed ''Make this test fail''),
      (''larger_can_hold_smaller'', Passed), (''smaller_cannot_hold_larger'', Passed),
      (''it_adds_two'', Passed), (''result_not_equal'', Passed),
      (''greeting_contains_name'', Passed),
      (''greater_than_100'', Failed ''panic did not contain expected string: foo''),
      (''it_works_result_error'', Passed), (''it_is_ignored'', Ignored)]"
  by (simp add: adder_tests_def adder_test_defs can_hold_def add_two_eq greeting_def
      guess_new_def assert_defs display_defs)

text \<open>
  C7.  \<open>add_two\<close> panics exactly when \<open>a + 2\<close> exceeds \<open>i32::MAX\<close>, that is
  for \<open>a \<ge> 2147483646\<close>, and the panic is the addition overflow.
\<close>

theorem add_two_panics_iff:
  "add_two a = Inl e \<longleftrightarrow> e = AddOverflow \<and> 2147483646 \<le> sint a"
  by (auto simp: add_two_eq)

text \<open>When \<open>add_two\<close> returns, its result is the argument plus two as integers.\<close>

lemma add_two_sint: "add_two a = Inr b \<Longrightarrow> sint b = sint a + 2"
  by (simp add: add_two_def checked_add_Inr_sint)

lemma add_two_sint_witness: "add_two 40 = Inr 42 \<and> sint (42::i32) = sint (40::i32) + 2"
  using add_two_sint [of 40 42] by (simp add: add_two_eq)

text \<open>
  C8.  \<open>Guess::new(v)\<close> returns a guess holding \<open>v\<close> exactly when
  \<open>1 \<le> v \<le> 100\<close>.
\<close>

theorem guess_new_Inr:
  "guess_new v = Inr g \<longleftrightarrow> 1 \<le> sint v \<and> sint v \<le> 100 \<and> g = \<lparr>guess_value = v\<rparr>"
  by (auto simp: guess_new_def)

text \<open>
  C9.  When \<open>Guess::new(v)\<close> panics, the panic message contains the decimal
  rendering of \<open>v\<close>.
\<close>

theorem guess_new_Inl:
  "guess_new v = Inl p \<Longrightarrow> str_contains (panic_message p) (show_int (sint v))"
  using str_contains_append_left [of "''Guess value must be between 1 and 100, got ''"
      "show_int (sint v)" "''.''"]
  by (auto simp: guess_new_def show_signed_def split: if_splits)

theorem guess_new_Inl_witness:
  "guess_new 200 = Inl (PanicMsg ''Guess value must be between 1 and 100, got 200.'')
   \<and> str_contains ''Guess value must be between 1 and 100, got 200.'' ''200''"
proof -
  have g: "guess_new 200 = Inl (PanicMsg ''Guess value must be between 1 and 100, got 200.'')"
    by (simp add: guess_new_def display_defs)
  show ?thesis using g guess_new_Inl [OF g] by (simp add: display_defs)
qed

text \<open>
  \<open>Rectangle::can_hold\<close> is a strict order: no rectangle can hold
  itself, and holding is transitive.
\<close>

lemma can_hold_order:
  "\<not> can_hold r r \<and> (can_hold a b \<and> can_hold b c \<longrightarrow> can_hold a c)"
  by (auto simp: can_hold_def)

lemma can_hold_order_witness:
  "\<not> can_hold larger larger \<and> can_hold larger smaller
   \<and> can_hold smaller \<lparr>rect_length = 1, rect_width = 0\<rparr>
   \<and> can_hold larger \<lparr>rect_length = 1, rect_width = 0\<rparr>"
proof -
  have ls: "can_hold larger smaller" and st: "can_hold smaller \<lparr>rect_length = 1, rect_width = 0\<rparr>"
    by (simp_all add: can_hold_def larger_def smaller_def)
  then show ?thesis
    using can_hold_order [of larger larger smaller "\<lparr>rect_length = 1, rect_width = 0\<rparr>"] by simp
qed

text \<open>\<open>greeting(name)\<close> contains \<open>name\<close>, for every name.\<close>

theorem greeting_contains_name: "str_contains (greeting name) name"
  using str_contains_append_left [of "''Hello ''" name "''!''"] by (simp add: greeting_def)

end
