(* ===== verification/Rust_Str.thy ===== *)
theory Rust_Str
  imports Prelude
begin

text \<open>
  The parts of the standard library's text handling that the programs call:
  \<open>str::trim\<close> and \<open>str::parse\<close> into a signed (\<open>parse_int\<close>) or
  unsigned (\<open>parse_uint\<close>) integer type: an optional sign, at least one
  decimal digit, and a value within the type's range, \<open>None\<close> for an
  \<open>Err\<close>.  A HOL \<open>char\<close> is a byte, so a \<open>String\<close> is its UTF-8 bytes;
  \<open>ws_codes\<close> lists the encodings of the scalars with the Unicode
  \<open>White_Space\<close> property (what \<open>char::is_whitespace\<close> accepts), and
  \<open>trim\<close> strips whole encodings from the front (\<open>trim_start\<close>) and from
  the back (\<open>trim_end\<close>), which on valid UTF-8 removes exactly the
  white-space scalars, since no encoding is a proper prefix or suffix of
  another scalar's.  \<open>parse_int_show\<close> is the round trip of \<open>Display\<close>
  and \<open>parse\<close>.
\<close>

section \<open>Definitions\<close>

definition ws_codes :: "string list" where
  "ws_codes =
     [[CHR 0x09], [CHR 0x0A], [CHR 0x0B], [CHR 0x0C], [CHR 0x0D], [CHR 0x20],
      [CHR 0xC2, CHR 0x85], [CHR 0xC2, CHR 0xA0], [CHR 0xE1, CHR 0x9A, CHR 0x80],
      [CHR 0xE2, CHR 0x80, CHR 0x80], [CHR 0xE2, CHR 0x80, CHR 0x81],
      [CHR 0xE2, CHR 0x80, CHR 0x82], [CHR 0xE2, CHR 0x80, CHR 0x83],
      [CHR 0xE2, CHR 0x80, CHR 0x84], [CHR 0xE2, CHR 0x80, CHR 0x85],
      [CHR 0xE2, CHR 0x80, CHR 0x86], [CHR 0xE2, CHR 0x80, CHR 0x87],
      [CHR 0xE2, CHR 0x80, CHR 0x88], [CHR 0xE2, CHR 0x80, CHR 0x89],
      [CHR 0xE2, CHR 0x80, CHR 0x8A], [CHR 0xE2, CHR 0x80, CHR 0xA8],
      [CHR 0xE2, CHR 0x80, CHR 0xA9], [CHR 0xE2, CHR 0x80, CHR 0xAF],
      [CHR 0xE2, CHR 0x81, CHR 0x9F], [CHR 0xE3, CHR 0x80, CHR 0x80]]"

definition ws_match :: "string \<Rightarrow> string \<Rightarrow> bool" where
  "ws_match s w \<longleftrightarrow> w \<noteq> [] \<and> take (length w) s = w"

function strip_codes :: "string list \<Rightarrow> string \<Rightarrow> string" where
  "strip_codes ws s =
     (case find (ws_match s) ws of
        None \<Rightarrow> s
      | Some w \<Rightarrow> strip_codes ws (drop (length w) s))"
  by pat_completeness auto
termination
proof (relation "measure (\<lambda>(ws, s). length s)")
  fix ws s w
  assume "find (ws_match s) ws = Some w"
  then have "w \<noteq> []" "take (length w) s = w" by (auto simp: find_Some_iff ws_match_def)
  then have "0 < length w" "length w \<le> length s" by (auto dest: arg_cong [where f = length])
  then have "length s - length w < length s" by arith
  then show "((ws, drop (length w) s), ws, s) \<in> measure (\<lambda>(ws, s). length s)" by simp
qed simp

declare strip_codes.simps [simp del]

definition trim_start :: "string \<Rightarrow> string" where
  "trim_start s = strip_codes ws_codes s"

definition trim_end :: "string \<Rightarrow> string" where
  "trim_end s = rev (strip_codes (map rev ws_codes) (rev s))"

definition trim :: "string \<Rightarrow> string" where
  "trim s = trim_end (trim_start s)"

definition is_digit :: "char \<Rightarrow> bool" where
  "is_digit c \<longleftrightarrow> (48 :: nat) \<le> of_char c \<and> of_char c \<le> (57 :: nat)"

definition digit_value :: "char \<Rightarrow> int" where
  "digit_value c = int (of_char c) - 48"

fun parse_digits :: "int \<Rightarrow> string \<Rightarrow> int option" where
  "parse_digits acc [] = Some acc"
| "parse_digits acc (c # cs) =
     (if is_digit c then parse_digits (10 * acc + digit_value c) cs else None)"

definition parse_int :: "string \<Rightarrow> 'a::len word option" where
  "parse_int s =
     (let (neg, ds) = (case s of
            [] \<Rightarrow> (False, [])
          | c # r \<Rightarrow> if c = CHR ''-'' then (True, r) else if c = CHR ''+'' then (False, r) else (False, s))
      in if ds = [] then None
         else case parse_digits 0 ds of
           None \<Rightarrow> None
         | Some v \<Rightarrow> (let k = if neg then - v else v in
                      if signed_fits TYPE('a) k then Some (word_of_int k) else None))"

definition parse_uint :: "string \<Rightarrow> 'a::len word option" where
  "parse_uint s =
     (let ds = (case s of [] \<Rightarrow> [] | c # r \<Rightarrow> if c = CHR ''+'' then r else s)
      in if ds = [] then None
         else case parse_digits 0 ds of
           None \<Rightarrow> None
         | Some v \<Rightarrow> if v < 2 ^ LENGTH('a) then Some (word_of_int v) else None)"

section \<open>Lemmas\<close>


lemma digit_char_props:
  "d < 10 \<Longrightarrow> is_digit (digit_char d) \<and> digit_value (digit_char d) = int d \<and> digit_char d \<notin> set (concat ws_codes)
     \<and> digit_char d \<noteq> CHR ''-'' \<and> digit_char d \<noteq> CHR ''+''"
  by (auto simp: less_Suc_eq numeral_eq_Suc digit_char_def is_digit_def digit_value_def ws_codes_def)

lemma parse_digits_append:
  "parse_digits acc (xs @ ys) = (case parse_digits acc xs of None \<Rightarrow> None | Some v \<Rightarrow> parse_digits v ys)"
  by (induction acc xs rule: parse_digits.induct) simp_all

lemma show_nat_digits: "parse_digits 0 (show_nat n) = Some (int n)"
proof (induction n rule: show_nat.induct)
  case (1 n)
  show ?case
  proof (cases "n < 10")
    case True
    then show ?thesis by (simp add: show_nat.simps [of n] digit_char_props)
  next
    case False
    then have "parse_digits 0 (show_nat (n div 10)) = Some (int (n div 10))" by (rule "1.IH")
    moreover have "int n = 10 * int (n div 10) + int (n mod 10)"
      using div_mult_mod_eq [of n 10] by linarith
    ultimately show ?thesis
      using False by (simp add: show_nat.simps [of n] parse_digits_append digit_char_props)
  qed
qed

lemma show_nat_chars: "c \<in> set (show_nat n) \<Longrightarrow> \<exists>d < 10. c = digit_char d"
proof (induction n rule: show_nat.induct)
  case (1 n)
  show ?case
  proof (cases "n < 10")
    case True
    with "1.prems" show ?thesis by (auto simp: show_nat.simps [of n])
  next
    case False
    with "1.prems" have "c \<in> set (show_nat (n div 10)) \<or> c = digit_char (n mod 10)"
      by (auto simp: show_nat.simps [of n])
    then show ?thesis
    proof
      assume "c \<in> set (show_nat (n div 10))"
      with False show ?thesis by (rule "1.IH")
    next
      assume "c = digit_char (n mod 10)"
      then show ?thesis by (intro exI [of _ "n mod 10"]) simp
    qed
  qed
qed

lemma show_nat_hd: "\<exists>d < 10. \<exists>r. show_nat n = digit_char d # r"
proof -
  obtain c r where "show_nat n = c # r" using show_nat_ne by (cases "show_nat n") auto
  moreover then obtain d where "d < 10" "c = digit_char d" using show_nat_chars [of c n] by auto
  ultimately show ?thesis by blast
qed

lemma show_int_no_ws: "c \<in> set (show_int k) \<Longrightarrow> c \<notin> set (concat ws_codes)"
  by (auto simp: show_int_def ws_codes_def dest!: show_nat_chars digit_char_props [THEN conjunct2, THEN conjunct2, THEN conjunct1] split: if_splits)

lemma strip_codes_stop: "find (ws_match s) ws = None \<Longrightarrow> strip_codes ws s = s"
  by (simp add: strip_codes.simps)

lemma strip_codes_step: "find (ws_match s) ws = Some w \<Longrightarrow> strip_codes ws s = strip_codes ws (drop (length w) s)"
  by (simp add: strip_codes.simps)

lemma strip_codes_Nil [simp]: "strip_codes ws [] = []"
  by (simp add: strip_codes_stop find_None_iff ws_match_def)

lemma trim_Nil [simp]: "trim [] = []"
  by (simp add: trim_def trim_start_def trim_end_def)

lemma ws_match_Cons: "ws_match (x # r) w \<Longrightarrow> x \<in> set w"
  by (cases w) (auto simp: ws_match_def)

lemma find_ws_match_none: "x \<notin> set (concat ws) \<Longrightarrow> find (ws_match (x # r)) ws = None"
  by (auto simp: find_None_iff dest: ws_match_Cons)

lemma trim_start_plain: "x \<notin> set (concat ws_codes) \<Longrightarrow> trim_start (x # r) = x # r"
  by (simp add: trim_start_def strip_codes_stop find_ws_match_none)

lemma trim_end_newline: "trim_end (s @ [CHR 0x0A]) = trim_end s"
proof -
  have "find (ws_match (CHR 0x0A # rev s)) (map rev ws_codes) = Some [CHR 0x0A]"
    by (simp add: ws_codes_def ws_match_def)
  then show ?thesis by (simp add: trim_end_def strip_codes_step)
qed

lemma trim_end_plain: "s \<noteq> [] \<Longrightarrow> last s \<notin> set (concat ws_codes) \<Longrightarrow> trim_end s = s"
proof -
  assume "s \<noteq> []" and l: "last s \<notin> set (concat ws_codes)"
  then obtain r where r: "rev s = last s # r" by (cases "rev s") (auto simp: last_rev [symmetric])
  have "last s \<notin> set (concat (map rev ws_codes))" using l by simp
  then have "strip_codes (map rev ws_codes) (last s # r) = last s # r"
    by (simp add: strip_codes_stop find_ws_match_none)
  then show ?thesis by (simp add: trim_end_def r [symmetric])
qed

lemma trim_no_ws:
  assumes "s \<noteq> []" and "\<forall>c \<in> set s. c \<notin> set (concat ws_codes)"
  shows "trim (s @ [CHR 0x0A]) = s"
proof -
  obtain x r where s: "s = x # r" using assms(1) by (cases s) auto
  then have "trim_start (s @ [CHR 0x0A]) = s @ [CHR 0x0A]" using assms(2) by (simp add: trim_start_plain)
  moreover have "trim_end s = s" using assms by (simp add: trim_end_plain)
  ultimately show ?thesis by (simp add: trim_def trim_end_newline)
qed

lemma parse_int_show: "parse_int (show_signed v) = Some v"
proof -
  obtain d r where d: "d < 10" and hd: "show_nat (nat \<bar>sint v\<bar>) = digit_char d # r"
    using show_nat_hd by blast
  have fits: "signed_fits TYPE('a) (sint v)" by (rule sint_fits)
  show ?thesis
  proof (cases "sint v < 0")
    case True
    then show ?thesis
      using fits by (simp add: parse_int_def show_signed_def show_int_def show_nat_digits)
  next
    case False
    then show ?thesis
      using fits d hd show_nat_digits [of "nat (sint v)"] digit_char_props [OF d]
      by (simp add: parse_int_def show_signed_def show_int_def)
  qed
qed
end
