(* ===== verification/Fibonacci.thy ===== *)
theory Fibonacci
  imports Rust_Str
begin

text \<open>
  \<open>src/chapters/chapter-3/chapter-exercises/src/fibonacci.rs\<close>.  The
  function \<open>fibonacci(n: i32) -> i32\<close> is \<open>fibonacci\<close> on \<open>i32\<close> words,
  in a debug build: \<open>n-1\<close>, \<open>n-2\<close> and the sum panic on overflow, and
  the operands are evaluated left to right, so the first panic wins.  It is a
  \<open>function\<close> whose termination follows from the signed value decreasing
  towards \<open>i32::MIN\<close>, where \<open>n-1\<close> panics; the depth of the call stack
  is not modelled.  \<open>fib_spec\<close> is the mathematical Fibonacci sequence it is
  meant to compute.  \<open>fib_main\<close> is \<open>main\<close> after the line has been read:
  the printed lines and the outcome.
\<close>

section \<open>The program\<close>

function fibonacci :: "i32 \<Rightarrow> i32 outcome" where
  "fibonacci n =
     (if n = 0 then Inr 0
      else if n = 1 then Inr 1
      else if n = 2 then Inr 1
      else if n = 3 then Inr 2
      else then_run (checked_sub n 1) (\<lambda>n1. then_run (fibonacci n1) (\<lambda>a.
           then_run (checked_sub n 2) (\<lambda>n2. then_run (fibonacci n2) (\<lambda>b.
           checked_add a b)))))"
  by pat_completeness auto
termination
proof (relation "measure (\<lambda>n :: i32. nat (sint n + 2 ^ 31))")
  show "wf (measure (\<lambda>n :: i32. nat (sint n + 2 ^ 31)))" by simp
next
  fix n n1 :: i32
  assume "checked_sub n 1 = Inr n1"
  then have "sint n1 = sint n - 1" by (auto simp: checked_sub_eq sint_sub_fits)
  then show "(n1, n) \<in> measure (\<lambda>n :: i32. nat (sint n + 2 ^ 31))"
    using sint_ge [of n1] by simp
next
  fix n n1 a n2 :: i32
  assume "checked_sub n 2 = Inr n2"
  then have "sint n2 = sint n - 2" by (auto simp: checked_sub_eq sint_sub_fits)
  then show "(n2, n) \<in> measure (\<lambda>n :: i32. nat (sint n + 2 ^ 31))"
    using sint_ge [of n2] by simp
qed

definition fib_main :: "string \<Rightarrow> string list \<times> unit outcome" where
  "fib_main line =
     (let n = trim line in
      case parse_int n :: i32 option of
        None \<Rightarrow> ([''Fibonacci nth number''], Inl (PanicMsg ''Foo''))
      | Some num \<Rightarrow>
          (case fibonacci num of
             Inl p \<Rightarrow> ([''Fibonacci nth number''], Inl p)
           | Inr result \<Rightarrow>
               ([''Fibonacci nth number'', ''The '' @ n @ ''th fibonacci number is '' @ show_signed result],
                Inr ())))"

section \<open>The Fibonacci sequence\<close>

fun fib_spec :: "nat \<Rightarrow> nat" where
  "fib_spec 0 = 0"
| "fib_spec (Suc 0) = 1"
| "fib_spec (Suc (Suc n)) = fib_spec n + fib_spec (Suc n)"
declare fib_spec.simps [simp del]


section \<open>Lemmas\<close>

lemma fib_spec_Suc_Suc: "fib_spec (k + 2) = fib_spec k + fib_spec (k + 1)"
  by (simp add: fib_spec.simps)

lemma fib_spec_add:
  "fib_spec (n + k + 1) = fib_spec (k + 1) * fib_spec (n + 1) + fib_spec k * fib_spec n"
proof (induction k rule: less_induct)
  case (less k)
  consider "k = 0" | "k = 1" | j where "k = j + 2" by (metis add_2_eq_Suc' not0_implies_Suc One_nat_def)
  then show ?case
  proof cases
    case 1 then show ?thesis by (simp add: fib_spec.simps)
  next
    case 2 then show ?thesis by (simp add: fib_spec.simps)
  next
    case 3
    have a: "fib_spec (n + j + 1) = fib_spec (j + 1) * fib_spec (n + 1) + fib_spec j * fib_spec n"
      using less.IH [of j] 3 by simp
    have b: "fib_spec (n + (j + 1) + 1) = fib_spec (j + 2) * fib_spec (n + 1) + fib_spec (j + 1) * fib_spec n"
      using less.IH [of "j + 1"] 3 by (simp add: add.assoc)
    have "fib_spec (n + k + 1) = fib_spec (n + j + 1) + fib_spec (n + (j + 1) + 1)"
      using fib_spec_Suc_Suc [of "n + j + 1"] 3 by (simp add: add.assoc)
    also have "\<dots> = fib_spec (k + 1) * fib_spec (n + 1) + fib_spec k * fib_spec n"
      using a b 3 fib_spec_Suc_Suc [of j] fib_spec_Suc_Suc [of "j + 1"]
      by (simp add: algebra_simps add.assoc)
    finally show ?thesis .
  qed
qed

lemma fib_spec_46_47: "fib_spec 45 = 1134903170 \<and> fib_spec 46 = 1836311903 \<and> fib_spec 47 = 2971215073"
proof -
  have f10: "fib_spec 10 = 55" and f11: "fib_spec 11 = 89" and f12: "fib_spec 12 = 144"
    by code_simp+
  have f13: "fib_spec 13 = 233" using fib_spec_Suc_Suc [of 11] f11 f12 by simp
  have f22: "fib_spec 22 = 17711" using fib_spec_add [of 10 11] f10 f11 f12 by simp
  have f23: "fib_spec 23 = 28657" using fib_spec_add [of 11 11] f11 f12 by simp
  have f24: "fib_spec 24 = 46368" using fib_spec_add [of 11 12] f11 f12 f13 by simp
  have f46: "fib_spec 46 = 1836311903" using fib_spec_add [of 22 23] f22 f23 f24 by simp
  have f47: "fib_spec 47 = 2971215073" using fib_spec_add [of 23 23] f23 f24 by simp
  have "fib_spec 47 = fib_spec 45 + fib_spec 46" using fib_spec_Suc_Suc [of 45] by simp
  then show ?thesis using f46 f47 by simp
qed
lemma fib_spec_mono: "m \<le> n \<Longrightarrow> fib_spec m \<le> fib_spec n"
proof (induction n)
  case 0 then show ?case by simp
next
  case (Suc n)
  have step: "fib_spec n \<le> fib_spec (Suc n)" by (cases n) (simp_all add: fib_spec.simps)
  show ?case
  proof (cases "m = Suc n")
    case True then show ?thesis by simp
  next
    case False with Suc show ?thesis using step by simp
  qed
qed

lemma fib_spec_rec: "2 \<le> k \<Longrightarrow> fib_spec k = fib_spec (k - 2) + fib_spec (k - 1)"
  using fib_spec_Suc_Suc [of "k - 2"] by (simp add: numeral_2_eq_2 Suc_diff_Suc)

lemma sint_of_nat_i32: "n < 2 ^ 31 \<Longrightarrow> sint (word_of_nat n :: i32) = int n"
  by (simp add: signed_of_nat signed_take_bit_int_eq_self)

lemma i32_eq_of_nat: "sint (n :: i32) = int k \<Longrightarrow> k < 2 ^ 31 \<Longrightarrow> n = word_of_nat k"
proof -
  assume "sint n = int k" and "k < 2 ^ 31"
  then have "sint n = sint (word_of_nat k :: i32)" by (simp only: sint_of_nat_i32)
  then show "n = word_of_nat k" by (rule signed_word_eqI)
qed

lemma fibonacci_base:
  "fibonacci 0 = Inr 0" "fibonacci 1 = Inr 1" "fibonacci 2 = Inr 1" "fibonacci 3 = Inr 2"
  by (simp_all add: fibonacci.simps)

lemma fib_spec_base:
  "fib_spec 0 = 0" "fib_spec 1 = 1" "fib_spec 2 = 1" "fib_spec 3 = 2"
  by (simp_all add: fib_spec.simps numeral_eq_Suc)

declare fibonacci.simps [simp del]

lemma fibonacci_eq_fib_spec:
  "0 \<le> sint n \<Longrightarrow> sint n \<le> 46 \<Longrightarrow> fibonacci n = Inr (word_of_nat (fib_spec (nat (sint n))))"
proof (induction "nat (sint n)" arbitrary: n rule: less_induct)
  case less
  define k where "k = nat (sint n)"
  have kn: "sint n = int k" using less.prems k_def by simp
  have k46: "k \<le> 46" using less.prems k_def by simp
  show ?case
  proof (cases "k < 4")
    case True
    have n: "n = word_of_nat k" using kn by (rule i32_eq_of_nat) (use True in simp)
    from True have "k = 0 \<or> k = 1 \<or> k = 2 \<or> k = 3" by auto
    then show ?thesis
      by (elim disjE) (simp_all add: n k_def [symmetric] fibonacci_base fib_spec_base fib_spec.simps(1,2))
  next
    case False
    have ne: "n \<noteq> 0 \<and> n \<noteq> 1 \<and> n \<noteq> 2 \<and> n \<noteq> 3" using False kn by auto
    have s1: "checked_sub n 1 = Inr (n - 1)" and s2: "checked_sub n 2 = Inr (n - 2)"
      using kn k46 by (simp_all add: checked_sub_def signed_fits_def)
    have v1: "sint (n - 1) = int (k - 1)" and v2: "sint (n - 2) = int (k - 2)"
      using s1 s2 kn False by (auto simp: checked_sub_eq sint_sub_fits)
    have "nat (sint (n - 1)) < nat (sint n)" "0 \<le> sint (n - 1)" "sint (n - 1) \<le> 46"
      using v1 kn False k46 by simp_all
    then have "fibonacci (n - 1) = Inr (word_of_nat (fib_spec (nat (sint (n - 1)))))"
      by (rule less.hyps)
    then have f1: "fibonacci (n - 1) = Inr (word_of_nat (fib_spec (k - 1)))"
      by (simp only: v1 nat_int)
    have "nat (sint (n - 2)) < nat (sint n)" "0 \<le> sint (n - 2)" "sint (n - 2) \<le> 46"
      using v2 kn False k46 by simp_all
    then have "fibonacci (n - 2) = Inr (word_of_nat (fib_spec (nat (sint (n - 2)))))"
      by (rule less.hyps)
    then have f2: "fibonacci (n - 2) = Inr (word_of_nat (fib_spec (k - 2)))"
      by (simp only: v2 nat_int)
    have bound: "fib_spec k < 2 ^ 31"
      using fib_spec_mono [OF k46] fib_spec_46_47 by simp
    have rec: "fib_spec k = fib_spec (k - 2) + fib_spec (k - 1)"
      using False by (simp add: fib_spec_rec)
    have add: "checked_add (word_of_nat (fib_spec (k - 1)) :: i32) (word_of_nat (fib_spec (k - 2)))
                 = Inr (word_of_nat (fib_spec k))"
      using bound rec by (simp add: checked_add_def signed_fits_def sint_of_nat_i32)
    show ?thesis
      using ne s1 s2 f1 f2 add by (simp add: fibonacci.simps [of n] then_run_def k_def)
  qed
qed
lemma fibonacci_unfold_big:
  "n \<noteq> 0 \<Longrightarrow> n \<noteq> 1 \<Longrightarrow> n \<noteq> 2 \<Longrightarrow> n \<noteq> 3 \<Longrightarrow>
   fibonacci n = then_run (checked_sub n 1) (\<lambda>n1. then_run (fibonacci n1) (\<lambda>a.
           then_run (checked_sub n 2) (\<lambda>n2. then_run (fibonacci n2) (\<lambda>b. checked_add a b))))"
  by (simp add: fibonacci.simps [of n])

lemma i32_ne_small: "sint (n :: i32) < 0 \<or> 4 \<le> sint n \<Longrightarrow> n \<noteq> 0 \<and> n \<noteq> 1 \<and> n \<noteq> 2 \<and> n \<noteq> 3"
  by auto

lemma fib_spec_bound: "k \<le> 46 \<Longrightarrow> fib_spec k < 2 ^ 31"
  using fib_spec_mono [of k 46] fib_spec_46_47 by simp

lemma show_signed_of_nat_i32:
  "k < 2 ^ 31 \<Longrightarrow> show_signed (word_of_nat k :: i32) = show_nat k"
  by (simp add: show_signed_def show_int_def sint_of_nat_i32)

lemma trim_show_signed: "trim (show_signed v @ [CHR 0x0A]) = show_signed v"
proof (rule trim_no_ws)
  show "show_signed v \<noteq> []" by (simp add: show_signed_def show_int_def)
  show "\<forall>c \<in> set (show_signed v). c \<notin> set (concat ws_codes)"
    by (auto simp: show_signed_def dest: show_int_no_ws)
qed

lemma fibonacci_overflow_Inl: "47 \<le> sint n \<Longrightarrow> fibonacci n = Inl AddOverflow"
proof (induction "nat (sint n)" arbitrary: n rule: less_induct)
  case less
  have ne: "n \<noteq> 0 \<and> n \<noteq> 1 \<and> n \<noteq> 2 \<and> n \<noteq> 3" using less.prems by (intro i32_ne_small) simp
  have s1: "checked_sub n 1 = Inr (n - 1)" and s2: "checked_sub n 2 = Inr (n - 2)"
    using less.prems sint_lt [of n] by (simp_all add: checked_sub_def signed_fits_def)
  have v1: "sint (n - 1) = sint n - 1" and v2: "sint (n - 2) = sint n - 2"
    using s1 s2 by (auto simp: checked_sub_eq sint_sub_fits)
  show ?case
  proof (cases "47 \<le> sint (n - 1)")
    case True
    have "fibonacci (n - 1) = Inl AddOverflow"
      using less.hyps [of "n - 1"] True v1 by simp
    then show ?thesis using ne s1 by (simp add: fibonacci_unfold_big then_run_def)
  next
    case False
    then have e1: "sint (n - 1) = 46" and e2: "sint (n - 2) = 45" using less.prems v1 v2 by simp_all
    have f1: "fibonacci (n - 1) = Inr (word_of_nat 1836311903)"
      using fibonacci_eq_fib_spec [of "n - 1"] e1 fib_spec_46_47 by simp
    have f2: "fibonacci (n - 2) = Inr (word_of_nat 1134903170)"
      using fibonacci_eq_fib_spec [of "n - 2"] e2 fib_spec_46_47 by simp
    have "checked_add (word_of_nat 1836311903 :: i32) (word_of_nat 1134903170) = Inl AddOverflow"
      by (simp add: checked_add_def signed_fits_def sint_of_nat_i32)
    then show ?thesis using ne s1 s2 f1 f2 by (simp add: fibonacci_unfold_big then_run_def)
  qed
qed

lemma fibonacci_negative_Inl: "sint n < 0 \<Longrightarrow> fibonacci n = Inl SubOverflow"
proof (induction "nat (sint n + 2 ^ 31)" arbitrary: n rule: less_induct)
  case less
  have ne: "n \<noteq> 0 \<and> n \<noteq> 1 \<and> n \<noteq> 2 \<and> n \<noteq> 3" using less.prems by (intro i32_ne_small) simp
  show ?case
  proof (cases "sint n = - (2 ^ 31)")
    case True
    then have "checked_sub n 1 = Inl SubOverflow" by (simp add: checked_sub_def signed_fits_def)
    then show ?thesis using ne by (simp add: fibonacci_unfold_big then_run_def)
  next
    case False
    then have s1: "checked_sub n 1 = Inr (n - 1)"
      using sint_ge [of n] sint_lt [of n] by (simp add: checked_sub_def signed_fits_def)
    then have v1: "sint (n - 1) = sint n - 1" by (auto simp: checked_sub_eq sint_sub_fits)
    have "fibonacci (n - 1) = Inl SubOverflow"
      using less.hyps [of "n - 1"] v1 less.prems sint_ge [of n] False by simp
    then show ?thesis using ne s1 by (simp add: fibonacci_unfold_big then_run_def)
  qed
qed
section \<open>Properties\<close>

text \<open>
  C11.  The outcome of \<open>main\<close> on every input line: a line that does not
  parse as an \<open>i32\<close> panics with \<open>Foo\<close>; a negative number never yields
  a result (the recursion descends to \<open>i32::MIN\<close>); a number above 46
  overflows; and exactly the numbers \<open>0 .. 46\<close> are answered.
\<close>

theorem fib_main_outcome:
  "snd (fib_main l) =
     (case parse_int (trim l) :: i32 option of
        None \<Rightarrow> Inl (PanicMsg ''Foo'')
      | Some n \<Rightarrow> if sint n < 0 then Inl SubOverflow
                  else if 46 < sint n then Inl AddOverflow else Inr ())"
proof (cases "parse_int (trim l) :: i32 option")
  case None
  then show ?thesis by (simp add: fib_main_def)
next
  case (Some n)
  consider "sint n < 0" | "47 \<le> sint n" | "0 \<le> sint n \<and> sint n \<le> 46" by linarith
  then show ?thesis
  proof cases
    case 1
    then show ?thesis using Some by (simp add: fib_main_def fibonacci_negative_Inl)
  next
    case 2
    then show ?thesis using Some by (simp add: fib_main_def fibonacci_overflow_Inl)
  next
    case 3
    then show ?thesis using Some by (simp add: fib_main_def fibonacci_eq_fib_spec)
  qed
qed

text \<open>
  C12.  On \<open>0 \<le> n \<le> 46\<close>, \<open>fibonacci\<close> returns, and returns the
  \<open>n\<close>-th Fibonacci number: no intermediate result overflows \<open>i32\<close>.
\<close>

theorem fibonacci_correct:
  "0 \<le> sint n \<Longrightarrow> sint n \<le> 46 \<Longrightarrow>
   \<exists>r. fibonacci n = Inr r \<and> sint r = int (fib_spec (nat (sint n)))"
  using fibonacci_eq_fib_spec [of n] fib_spec_bound [of "nat (sint n)"]
  by (simp add: sint_of_nat_i32)

theorem fibonacci_correct_witness: "\<exists>r. fibonacci 10 = Inr r \<and> sint r = 55"
proof -
  have "fib_spec 10 = 55" by code_simp
  then show ?thesis using fibonacci_correct [of 10] by simp
qed

text \<open>
  C13.  From \<open>n = 47\<close> on, \<open>fibonacci\<close> panics with an addition
  overflow: \<open>fib(47) = 2971215073\<close> exceeds \<open>i32::MAX\<close>, and every larger
  argument evaluates \<open>fibonacci(n-1)\<close> first, which already panics.
\<close>

theorem fibonacci_overflow: "47 \<le> sint n \<Longrightarrow> fibonacci n = Inl AddOverflow"
  by (rule fibonacci_overflow_Inl)

theorem fibonacci_overflow_witness: "fibonacci 47 = Inl AddOverflow"
  using fibonacci_overflow [of 47] by simp

text \<open>
  C14.  For a negative argument \<open>fibonacci\<close> never returns a number: the
  match has no case for it, and the recursion on \<open>n-1\<close> descends to
  \<open>i32::MIN\<close>, where \<open>n-1\<close> panics.  (Run as a program, the descent of
  \<open>2^31\<close> nested calls overflows the stack before that.)
\<close>

theorem fibonacci_negative: "sint n < 0 \<Longrightarrow> fibonacci n = Inl SubOverflow"
  by (rule fibonacci_negative_Inl)

theorem fibonacci_negative_witness: "fibonacci (-1) = Inl SubOverflow"
  using fibonacci_negative [of "-1"] by simp

text \<open>
  C15.  \<open>main\<close> reads back what \<open>Display\<close> writes: on the line holding the
  decimal rendering of \<open>n\<close>, for \<open>0 \<le> n \<le> 46\<close>, it prints the banner
  and then the \<open>n\<close>-th Fibonacci number, and returns normally.
\<close>

theorem fib_main_prints:
  "0 \<le> sint (v :: i32) \<Longrightarrow> sint v \<le> 46 \<Longrightarrow>
   fib_main (show_signed v @ [CHR 0x0A]) =
     ([''Fibonacci nth number'',
       ''The '' @ show_signed v @ ''th fibonacci number is '' @ show_nat (fib_spec (nat (sint v)))],
      Inr ())"
  using fibonacci_eq_fib_spec [of v] fib_spec_bound [of "nat (sint v)"]
  by (simp add: fib_main_def trim_show_signed parse_int_show show_signed_of_nat_i32)

theorem fib_main_prints_witness:
  "fib_main ''10\<newline>'' = ([''Fibonacci nth number'', ''The 10th fibonacci number is 55''], Inr ())"
proof -
  have "fib_spec 10 = 55" by code_simp
  moreover have "show_signed (10 :: i32) = ''10''" by (simp add: display_defs)
  moreover have "''10\<newline>'' = show_signed (10 :: i32) @ [CHR 0x0A]" by (simp add: display_defs)
  ultimately show ?thesis using fib_main_prints [of 10] by (simp add: display_defs)
qed

end
