(* ===== verification/Rust_Float.thy ===== *)
theory Rust_Float
  imports Rust_Str Complex_Main "HOL-Library.Log_Nat"
begin

text \<open>
  Rust's \<open>f64\<close> and \<open>f32\<close>: IEEE 754 binary floating point with rounding to
  nearest, ties to even, as the standard library computes it.  A format
  \<open>fformat\<close> gives the precision \<open>prec\<close> (53 and 24 bits) and the least and
  greatest exponent of a normal number.  A value \<open>fval\<close> is a finite number,
  given by its exact rational value (\<open>Fin 0\<close> is \<open>+0.0\<close>), negative zero, an
  infinity or NaN (one NaN: Rust programs cannot observe its payload through
  \<open>Display\<close>).  \<open>round_float\<close> rounds an exact rational to the format:
  \<open>rat_log2\<close> finds its binade from the bit lengths of numerator and
  denominator, \<open>round_even\<close> rounds the scaled significand, and a result of
  \<open>2^(emax+1)\<close> or more overflows to an infinity; it is executable, where the
  reference formalisation of IEEE 754 characterises the nearest value by a
  choice.  The operations \<open>fadd\<close>, \<open>fsub\<close>, \<open>fmul\<close> and \<open>fsqrt\<close> round the
  exact result, with IEEE 754's rules for zeros, infinities and NaN.
  \<open>parse_float\<close> is \<open>str::parse\<close> and \<open>display_float\<close> is \<open>Display\<close>.
  The lemmas bound the binades (\<open>rat_log2_bounds\<close>,
  \<open>rat_log10_bounds\<close>) and the rounding error (\<open>round_float_err\<close>:
  half an ulp in the normal range), show rounding idempotent
  (\<open>round_mag_idem\<close>), hence every operation's result a value of its
  format (\<open>valid\<close>), and show \<open>Display\<close> followed by \<open>str::parse\<close> the
  identity on those values (\<open>display_parse_inverse\<close>).
\<close>

section \<open>Formats and values\<close>

record fformat =
  prec :: nat
  emin :: int
  emax :: int

definition f64_fmt :: fformat where
  "f64_fmt = \<lparr>prec = 53, emin = -1022, emax = 1023\<rparr>"

definition f32_fmt :: fformat where
  "f32_fmt = \<lparr>prec = 24, emin = -126, emax = 127\<rparr>"

datatype fval = Fin rat | NegZero | PosInf | NegInf | NaN

definition pow2 :: "int \<Rightarrow> rat" where
  "pow2 e = (if 0 \<le> e then 2 ^ nat e else inverse (2 ^ nat (- e)))"

definition pow10 :: "int \<Rightarrow> rat" where
  "pow10 e = (if 0 \<le> e then 10 ^ nat e else inverse (10 ^ nat (- e)))"

text \<open>The binade of a positive rational: \<open>pow2 e \<le> x < pow2 (e + 1)\<close>.\<close>

definition rat_log2 :: "rat \<Rightarrow> int" where
  "rat_log2 x = (let (a, b) = quotient_of x; e = bitlen a - bitlen b in if pow2 e \<le> x then e else e - 1)"

definition round_even :: "rat \<Rightarrow> int" where
  "round_even m =
     (let f = \<lfloor>m\<rfloor>; r = m - of_int f in
      if r < 1 / 2 then f else if 1 / 2 < r then f + 1 else if even f then f else f + 1)"

text \<open>
  The rounded magnitude of a positive rational: its quantum \<open>pow2 q\<close> is
  that of its binade, or of the least normal binade for a subnormal result,
  and the rounded significand is \<open>n\<close>.  The result \<open>n * pow2 q\<close> overflows
  when it reaches \<open>pow2 (emax + 1)\<close>, that is when the binade of \<open>n\<close>,
  \<open>bitlen n - 1\<close>, shifted by \<open>q\<close>, reaches \<open>emax + 1\<close>; \<open>None\<close> is an
  overflow.
\<close>

definition round_mag :: "fformat \<Rightarrow> rat \<Rightarrow> rat option" where
  "round_mag fmt x =
     (let e = max (rat_log2 x) (emin fmt);
          q = e - (int (prec fmt) - 1);
          n = round_even (x / pow2 q)
      in if emax fmt + 1 \<le> q + bitlen n - 1 then None else Some (of_int n * pow2 q))"

text \<open>
  Rounding an exact result; \<open>neg\<close> is the sign IEEE 754 gives an exact zero
  result (a nonzero result keeps its own sign, also when it underflows to
  zero).
\<close>

definition round_float :: "fformat \<Rightarrow> bool \<Rightarrow> rat \<Rightarrow> fval" where
  "round_float fmt neg x =
     (if x = 0 then (if neg then NegZero else Fin 0)
      else case round_mag fmt \<bar>x\<bar> of
        None \<Rightarrow> if x < 0 then NegInf else PosInf
      | Some r \<Rightarrow> if r = 0 then (if x < 0 then NegZero else Fin 0)
                  else Fin (if x < 0 then - r else r))"

fun valof :: "fval \<Rightarrow> rat" where
  "valof (Fin x) = x"
| "valof _ = 0"

fun is_neg :: "fval \<Rightarrow> bool" where
  "is_neg (Fin x) = (x < 0)"
| "is_neg NegZero = True"
| "is_neg NegInf = True"
| "is_neg _ = False"

fun is_inf :: "fval \<Rightarrow> bool" where
  "is_inf PosInf = True"
| "is_inf NegInf = True"
| "is_inf _ = False"

fun is_zero :: "fval \<Rightarrow> bool" where
  "is_zero (Fin x) = (x = 0)"
| "is_zero NegZero = True"
| "is_zero _ = False"

text \<open>The values of a format: NaN, the infinities, the zeros, and the rationals rounding leaves alone.\<close>

fun valid :: "fformat \<Rightarrow> fval \<Rightarrow> bool" where
  "valid fmt (Fin x) = (round_float fmt False x = Fin x)"
| "valid fmt _ = True"

section \<open>Arithmetic\<close>

fun fneg :: "fval \<Rightarrow> fval" where
  "fneg (Fin x) = (if x = 0 then NegZero else Fin (- x))"
| "fneg NegZero = Fin 0"
| "fneg PosInf = NegInf"
| "fneg NegInf = PosInf"
| "fneg NaN = NaN"

fun fadd :: "fformat \<Rightarrow> fval \<Rightarrow> fval \<Rightarrow> fval" where
  "fadd fmt NaN b = NaN"
| "fadd fmt a NaN = NaN"
| "fadd fmt PosInf NegInf = NaN"
| "fadd fmt NegInf PosInf = NaN"
| "fadd fmt PosInf b = PosInf"
| "fadd fmt NegInf b = NegInf"
| "fadd fmt a PosInf = PosInf"
| "fadd fmt a NegInf = NegInf"
| "fadd fmt a b = round_float fmt (a = NegZero \<and> b = NegZero) (valof a + valof b)"

definition fsub :: "fformat \<Rightarrow> fval \<Rightarrow> fval \<Rightarrow> fval" where
  "fsub fmt a b = fadd fmt a (fneg b)"

definition fmul :: "fformat \<Rightarrow> fval \<Rightarrow> fval \<Rightarrow> fval" where
  "fmul fmt a b =
     (if a = NaN \<or> b = NaN then NaN
      else if is_inf a \<or> is_inf b then
        (if is_zero a \<or> is_zero b then NaN else if is_neg a = is_neg b then PosInf else NegInf)
      else round_float fmt (is_neg a \<noteq> is_neg b) (valof a * valof b))"


text \<open>
  The square root, correctly rounded: \<open>isqrt\<close> is the integer square root
  by binary search, and \<open>round_even_sqrt y\<close> the integer nearest to
  \<open>sqrt y\<close>.  The square root of a positive value of a format lies well
  inside the format's range, so it neither overflows nor underflows.
\<close>

function isqrt_search :: "int \<Rightarrow> int \<Rightarrow> int \<Rightarrow> int" where
  "isqrt_search n lo hi =
     (if hi \<le> lo + 1 then lo
      else let mid = (lo + hi) div 2 in
           if mid * mid \<le> n then isqrt_search n mid hi else isqrt_search n lo mid)"
  by pat_completeness auto
termination
  by (relation "measure (\<lambda>(n, lo, hi). nat (hi - lo))") auto

declare isqrt_search.simps [simp del]

definition isqrt :: "int \<Rightarrow> int" where
  "isqrt n = isqrt_search n 0 (n + 1)"

definition round_even_sqrt :: "rat \<Rightarrow> int" where
  "round_even_sqrt y =
     (let k = isqrt \<lfloor>y\<rfloor>; h = (of_int k + 1 / 2) ^ 2 in
      if y < h then k else if h < y then k + 1 else if even k then k else k + 1)"

definition sqrt_mag :: "fformat \<Rightarrow> rat \<Rightarrow> rat" where
  "sqrt_mag fmt x =
     (let e = max (rat_log2 x div 2) (emin fmt);
          q = e - (int (prec fmt) - 1)
      in of_int (round_even_sqrt (x / pow2 (2 * q))) * pow2 q)"

fun fsqrt :: "fformat \<Rightarrow> fval \<Rightarrow> fval" where
  "fsqrt fmt (Fin x) = (if x = 0 then Fin 0 else if x < 0 then NaN else Fin (sqrt_mag fmt x))"
| "fsqrt fmt NegZero = NegZero"
| "fsqrt fmt PosInf = PosInf"
| "fsqrt fmt NegInf = NaN"
| "fsqrt fmt NaN = NaN"

section \<open>\<open>str::parse::<f64>\<close>\<close>

text \<open>
  The grammar of \<open>f64::from_str\<close> (and \<open>f32::from_str\<close>), lowercased:
  \<open>Sign? ('inf' | 'infinity' | 'nan' | Number)\<close>, where a \<open>Number\<close> is
  \<open>Digit+\<close>, \<open>Digit+ '.' Digit*\<close> or \<open>Digit* '.' Digit+\<close>, followed by an
  optional exponent \<open>'e' Sign? Digit+\<close>.  The decimal's exact value is
  rounded to the nearest value of the format, as the standard library's
  parser does; a sign applies also to a zero.
\<close>

definition lower_ascii :: "char \<Rightarrow> char" where
  "lower_ascii c = (if (65 :: nat) \<le> of_char c \<and> of_char c \<le> (90 :: nat) then char_of (of_char c + (32 :: nat)) else c)"

definition split_sign :: "string \<Rightarrow> bool \<times> string" where
  "split_sign s =
     (case s of [] \<Rightarrow> (False, [])
      | c # r \<Rightarrow> if c = CHR ''-'' then (True, r) else if c = CHR ''+'' then (False, r) else (False, s))"

definition parse_exp :: "string \<Rightarrow> int option" where
  "parse_exp s =
     (let (neg, ds) = split_sign s in
      if ds = [] then None else map_option (\<lambda>v. if neg then - v else v) (parse_digits 0 ds))"

definition is_exp_mark :: "char \<Rightarrow> bool" where
  "is_exp_mark c \<longleftrightarrow> c = CHR ''e'' \<or> c = CHR ''E''"

definition parse_decimal :: "string \<Rightarrow> rat option" where
  "parse_decimal s =
     (let m = takeWhile (Not \<circ> is_exp_mark) s;
          ex = dropWhile (Not \<circ> is_exp_mark) s;
          ip = takeWhile is_digit m;
          r = dropWhile is_digit m
      in case (case ex of [] \<Rightarrow> Some 0 | _ # es \<Rightarrow> parse_exp es) of
           None \<Rightarrow> None
         | Some x \<Rightarrow>
             if r = [] then
               (if ip = [] then None else map_option (\<lambda>v. of_int v * pow10 x) (parse_digits 0 ip))
             else if hd r = CHR ''.'' \<and> (ip \<noteq> [] \<or> tl r \<noteq> []) then
               map_option (\<lambda>v. of_int v * pow10 (x - int (length (tl r)))) (parse_digits 0 (ip @ tl r))
             else None)"

definition parse_float :: "fformat \<Rightarrow> string \<Rightarrow> fval option" where
  "parse_float fmt s =
     (let (neg, digits) = split_sign s; lowered = map lower_ascii digits in
      if lowered = ''inf'' \<or> lowered = ''infinity'' then Some (if neg then NegInf else PosInf)
      else if lowered = ''nan'' then Some NaN
      else map_option (\<lambda>q. round_float fmt neg (if neg then - q else q)) (parse_decimal digits))"

section \<open>\<open>Display\<close> of \<open>f64\<close>\<close>

text \<open>
  \<open>{}\<close> of a float prints the shortest decimal that parses back to it
  (\<open>flt2dec::to_shortest_str\<close>, whose Grisu path falls back to Dragon4):
  with \<open>k\<close> significant digits the candidates are the truncation \<open>lo\<close> of
  the value and \<open>lo + 1\<close>; the least \<open>k\<close> with a candidate that rounds to
  the value wins, and when both do, Dragon4 rounds up if the value lies at or
  above their midpoint.  The digits are written without exponent
  (\<open>digits_to_dec_str\<close> with no fractional digits requested); a negative
  value, \<open>-0.0\<close> included, gets a minus sign, and the infinities and NaN
  print as \<open>inf\<close>, \<open>-inf\<close> and \<open>NaN\<close>.
\<close>

text \<open>The decimal digits of a non-negative integer (\<open>show_nat\<close> on \<open>int\<close>).\<close>

function int_digits :: "int \<Rightarrow> string" where
  "int_digits n = (if n < 10 then [digit_char (nat n)] else int_digits (n div 10) @ [digit_char (nat (n mod 10))])"
  by pat_completeness auto
termination
  by (relation "measure nat") auto

declare int_digits.simps [simp del]

definition rat_log10 :: "rat \<Rightarrow> int" where
  "rat_log10 x =
     (let (a, b) = quotient_of x; e = int (length (int_digits a)) - int (length (int_digits b))
      in if pow10 e \<le> x then e else e - 1)"

definition shortest_cand :: "fformat \<Rightarrow> rat \<Rightarrow> nat \<Rightarrow> (int \<times> int) option" where
  "shortest_cand fmt x k =
     (let t = rat_log10 x - int k + 1;
          lo = \<lfloor>x / pow10 t\<rfloor>; hi = lo + 1;
          ok_lo = (round_float fmt False (of_int lo * pow10 t) = Fin x);
          ok_hi = (round_float fmt False (of_int hi * pow10 t) = Fin x)
      in if ok_lo \<and> ok_hi then Some (if of_int hi * pow10 t - x \<le> x - of_int lo * pow10 t then hi else lo, t)
         else if ok_lo then Some (lo, t) else if ok_hi then Some (hi, t) else None)"

fun first_some :: "('a \<Rightarrow> 'b option) \<Rightarrow> 'a list \<Rightarrow> 'b option" where
  "first_some f [] = None"
| "first_some f (a # as) = (case f a of None \<Rightarrow> first_some f as | Some b \<Rightarrow> Some b)"

text \<open>
  The search runs up to the number of digits of the value's exact decimal
  expansion, where the truncation is the value itself.
\<close>

definition quantum_exp :: "fformat \<Rightarrow> rat \<Rightarrow> int" where
  "quantum_exp fmt x = max (rat_log2 x) (emin fmt) - (int (prec fmt) - 1)"

definition shortest :: "fformat \<Rightarrow> rat \<Rightarrow> int \<times> int" where
  "shortest fmt x =
     (let n = nat (rat_log10 x + 1 + max 0 (- quantum_exp fmt x)) in
      case first_some (shortest_cand fmt x) [1..<Suc n] of Some dt \<Rightarrow> dt | None \<Rightarrow> (\<lfloor>x\<rfloor>, 0))"

function strip_zeros :: "int \<Rightarrow> int \<Rightarrow> int \<times> int" where
  "strip_zeros d t = (if 0 < d \<and> d mod 10 = 0 then strip_zeros (d div 10) (t + 1) else (d, t))"
  by pat_completeness auto
termination
  by (relation "measure (\<lambda>(d, t). nat d)") auto

declare strip_zeros.simps [simp del]

definition render_dec :: "int \<Rightarrow> int \<Rightarrow> string" where
  "render_dec d t =
     (let ds = int_digits d; e = int (length ds) + t in
      if e \<le> 0 then ''0.'' @ replicate (nat (- e)) (CHR ''0'') @ ds
      else if nat e < length ds then take (nat e) ds @ ''.'' @ drop (nat e) ds
      else ds @ replicate (nat e - length ds) (CHR ''0''))"

fun display_float :: "fformat \<Rightarrow> fval \<Rightarrow> string" where
  "display_float fmt NaN = ''NaN''"
| "display_float fmt PosInf = ''inf''"
| "display_float fmt NegInf = ''-inf''"
| "display_float fmt NegZero = ''-0''"
| "display_float fmt (Fin x) =
     (if x = 0 then ''0''
      else (if x < 0 then ''-'' else []) @
           (case shortest fmt \<bar>x\<bar> of (d, t) \<Rightarrow> case strip_zeros d t of (d', t') \<Rightarrow> render_dec d' t'))"


section \<open>Lemmas: powers and binades\<close>

text \<open>
  Powers by repeated squaring, so that evaluation takes a logarithmic number
  of steps: the code equations of \<open>pow2\<close> and \<open>pow10\<close> use them.
\<close>

fun pow_sq :: "int \<Rightarrow> nat \<Rightarrow> int" where
  "pow_sq b n = (if n = 0 then 1 else let h = pow_sq (b * b) (n div 2) in if even n then h else b * h)"

declare pow_sq.simps [simp del]

lemma pow_sq_eq: "pow_sq b n = b ^ n"
proof (induction b n rule: pow_sq.induct)
  case (1 b n)
  show ?case
  proof (cases "n = 0")
    case False
    have "b ^ n = b ^ (2 * (n div 2) + n mod 2)" by simp
    also have "\<dots> = (b * b) ^ (n div 2) * b ^ (n mod 2)"
      by (simp only: power_add power_mult power2_eq_square)
    finally have "b ^ n = (b * b) ^ (n div 2) * (if even n then 1 else b)"
      by (cases "even n") (auto simp: even_iff_mod_2_eq_zero)
    then show ?thesis using 1 False by (simp add: pow_sq.simps [of b n] Let_def)
  qed (simp add: pow_sq.simps)
qed

lemma pow2_code [code]:
  "pow2 e = (if 0 \<le> e then of_int (pow_sq 2 (nat e)) else inverse (of_int (pow_sq 2 (nat (- e)))))"
  by (simp add: pow2_def pow_sq_eq)

lemma pow10_code [code]:
  "pow10 e = (if 0 \<le> e then of_int (pow_sq 10 (nat e)) else inverse (of_int (pow_sq 10 (nat (- e)))))"
  by (simp add: pow10_def pow_sq_eq)


lemma pow2_eq: "pow2 e = power_int 2 e"
  by (simp add: pow2_def power_int_def power_one_over inverse_eq_divide)

lemma pow10_eq: "pow10 e = power_int 10 e"
  by (simp add: pow10_def power_int_def power_one_over inverse_eq_divide)

lemma pow2_pos [simp]: "0 < pow2 e"
  by (simp add: pow2_eq)

lemma pow10_pos [simp]: "0 < pow10 e"
  by (simp add: pow10_eq)

lemma pow2_add: "pow2 (a + b) = pow2 a * pow2 b"
  by (simp add: pow2_eq power_int_add)

lemma pow10_add: "pow10 (a + b) = pow10 a * pow10 b"
  by (simp add: pow10_eq power_int_add)

lemma power_int_less_iff:
  fixes c :: rat
  assumes "1 < c"
  shows "power_int c a < power_int c b \<longleftrightarrow> a < b"
proof
  assume "a < b" then show "power_int c a < power_int c b" using assms by (rule power_int_strict_increasing)
next
  assume h: "power_int c a < power_int c b"
  show "a < b"
  proof (rule ccontr)
    assume "\<not> a < b"
    then have "power_int c b \<le> power_int c a" using assms by (intro power_int_increasing) simp_all
    with h show False by simp
  qed
qed

lemma pow2_less_iff [simp]: "pow2 a < pow2 b \<longleftrightarrow> a < b"
  by (simp add: pow2_eq power_int_less_iff)

lemma pow2_le_iff [simp]: "pow2 a \<le> pow2 b \<longleftrightarrow> a \<le> b"
  by (metis not_less pow2_less_iff)

lemma pow10_less_iff [simp]: "pow10 a < pow10 b \<longleftrightarrow> a < b"
  by (simp add: pow10_eq power_int_less_iff)

lemma pow10_le_iff [simp]: "pow10 a \<le> pow10 b \<longleftrightarrow> a \<le> b"
  by (metis not_less pow10_less_iff)

lemma pow2_of_nat: "pow2 (int n) = 2 ^ n"
  by (simp add: pow2_def)

lemma pow10_of_nat: "pow10 (int n) = 10 ^ n"
  by (simp add: pow10_def)

lemma binade_bounds:
  fixes c :: rat and a b la lb r :: int
  assumes c: "1 < c" and b: "0 < b"
    and ra: "power_int c la \<le> c * of_int a \<and> of_int a < power_int c la"
    and rb: "power_int c lb \<le> c * of_int b \<and> of_int b < power_int c lb"
    and r: "r = (if power_int c (la - lb) \<le> of_int a / of_int b then la - lb else la - lb - 1)"
  shows "power_int c r \<le> of_int a / of_int b \<and> of_int a / of_int b < power_int c (r + 1)"
proof -
  have c0: "c \<noteq> 0" using c by simp
  have pa: "power_int c (m + n) = power_int c m * power_int c n" for m n using c0 by (simp add: power_int_add)
  have pos: "0 < power_int c m" for m using c by simp
  have down: "power_int c (l - 1) \<le> of_int v" if "power_int c l \<le> c * of_int v" for l v
  proof -
    have "c * power_int c (l - 1) = power_int c l" using pa [of 1 "l - 1"] by simp
    with that have "c * power_int c (l - 1) \<le> c * of_int v" by simp
    with c show ?thesis by simp
  qed
  define x where "x = of_int a / (of_int b :: rat)"
  have lo: "power_int c (la - lb - 1) < x"
  proof -
    have "power_int c (la - lb - 1) * of_int b < power_int c (la - lb - 1) * power_int c lb"
      using rb [THEN conjunct2] pos by simp
    also have "\<dots> = power_int c (la - 1)" using pa [of "la - lb - 1" lb] by simp
    also have "\<dots> \<le> of_int a" using down [OF ra [THEN conjunct1]] .
    finally show ?thesis using b by (simp add: x_def pos_less_divide_eq)
  qed
  have hi: "x < power_int c (la - lb + 1)"
  proof -
    have "of_int a < power_int c la" by (rule ra [THEN conjunct2])
    also have "\<dots> = power_int c (la - lb + 1) * power_int c (lb - 1)" using pa [of "la - lb + 1" "lb - 1"] by simp
    also have "\<dots> \<le> power_int c (la - lb + 1) * of_int b" using down [OF rb [THEN conjunct1]] pos by simp
    finally show ?thesis using b by (simp add: x_def divide_less_eq)
  qed
  show ?thesis
    using lo hi unfolding x_def [symmetric] r by (cases "power_int c (la - lb) \<le> x") simp_all
qed

lemma bitlen_power_int:
  assumes "0 < a"
  shows "power_int 2 (bitlen a) \<le> 2 * (of_int a :: rat) \<and> of_int a < power_int (2 :: rat) (bitlen a)"
proof -
  have l: "1 \<le> bitlen a" using assms by (simp add: bitlen_alt_def)
  have bb: "2 ^ nat (bitlen a - 1) \<le> a \<and> a < 2 ^ nat (bitlen a)" using bitlen_bounds [OF assms] .
  have e: "power_int (2 :: rat) (bitlen a) = 2 * 2 ^ nat (bitlen a - 1)"
    using l by (simp add: power_int_def flip: power_Suc)
  have e2: "power_int (2 :: rat) (bitlen a) = 2 ^ nat (bitlen a)" using l by (simp add: power_int_def)
  have h1: "(2 :: rat) ^ nat (bitlen a - 1) \<le> of_int a" using bb by (metis of_int_le_iff of_int_numeral of_int_power)
  have h2: "of_int a < (2 :: rat) ^ nat (bitlen a)" using bb by (metis of_int_less_iff of_int_numeral of_int_power)
  show ?thesis
  proof
    show "power_int 2 (bitlen a) \<le> 2 * (of_int a :: rat)" using e h1 by simp
    show "of_int a < power_int (2 :: rat) (bitlen a)" using e2 h2 by simp
  qed
qed

lemma rat_log2_bounds:
  assumes "0 < x"
  shows "pow2 (rat_log2 x) \<le> x \<and> x < pow2 (rat_log2 x + 1)"
proof -
  obtain a b where q: "quotient_of x = (a, b)" by (cases "quotient_of x")
  have b: "0 < b" using quotient_of_denom_pos [OF q] .
  have x: "x = of_int a / of_int b" using quotient_of_div [OF q] .
  have a: "0 < a" using assms b by (simp add: x zero_less_divide_iff)
  have r: "rat_log2 x = (if power_int 2 (bitlen a - bitlen b) \<le> (of_int a :: rat) / of_int b
                          then bitlen a - bitlen b else bitlen a - bitlen b - 1)"
    unfolding rat_log2_def q by (simp add: pow2_eq x)
  show ?thesis
    unfolding pow2_eq using binade_bounds [OF _ b bitlen_power_int [OF a] bitlen_power_int [OF b] r] x by simp
qed

lemma int_digits_show_nat: "0 \<le> n \<Longrightarrow> int_digits n = show_nat (nat n)"
proof (induction n rule: int_digits.induct)
  case (1 n)
  show ?case
  proof (cases "n < 10")
    case True
    with "1.prems" show ?thesis by (simp add: int_digits.simps [of n] show_nat.simps [of "nat n"])
  next
    case False
    then have "int_digits (n div 10) = show_nat (nat (n div 10))" using "1.IH" by simp
    then show ?thesis
      using False by (simp add: int_digits.simps [of n] show_nat.simps [of "nat n"] nat_div_distrib nat_mod_distrib)
  qed
qed

lemma int_digits_length:
  "0 < n \<Longrightarrow> 10 ^ length (int_digits n) \<le> 10 * n \<and> n < 10 ^ length (int_digits n)"
proof (induction n rule: int_digits.induct)
  case (1 n)
  show ?case
  proof (cases "n < 10")
    case True
    with "1.prems" show ?thesis by (simp add: int_digits.simps [of n])
  next
    case False
    then have ih: "10 ^ length (int_digits (n div 10)) \<le> 10 * (n div 10) \<and> n div 10 < 10 ^ length (int_digits (n div 10))"
      using "1.IH" by simp
    have n: "n = 10 * (n div 10) + n mod 10" by simp
    have "0 \<le> n mod 10" "n mod 10 < 10" by simp_all
    then show ?thesis using False ih n by (simp add: int_digits.simps [of n]) linarith
  qed
qed

lemma int_digits_power_int:
  assumes "0 < a"
  shows "power_int 10 (int (length (int_digits a))) \<le> 10 * (of_int a :: rat)
       \<and> of_int a < power_int (10 :: rat) (int (length (int_digits a)))"
proof -
  have l: "10 ^ length (int_digits a) \<le> 10 * a \<and> a < 10 ^ length (int_digits a)"
    using int_digits_length [OF assms] .
  have "(10 :: rat) ^ length (int_digits a) \<le> 10 * of_int a"
    using l by (metis of_int_le_iff of_int_mult of_int_numeral of_int_power)
  moreover have "of_int a < (10 :: rat) ^ length (int_digits a)"
    using l by (metis of_int_less_iff of_int_numeral of_int_power)
  ultimately show ?thesis by simp
qed

lemma rat_log10_bounds:
  assumes "0 < x"
  shows "pow10 (rat_log10 x) \<le> x \<and> x < pow10 (rat_log10 x + 1)"
proof -
  obtain a b where q: "quotient_of x = (a, b)" by (cases "quotient_of x")
  have b: "0 < b" using quotient_of_denom_pos [OF q] .
  have x: "x = of_int a / of_int b" using quotient_of_div [OF q] .
  have a: "0 < a" using assms b by (simp add: x zero_less_divide_iff)
  define la where "la = int (length (int_digits a))"
  define lb where "lb = int (length (int_digits b))"
  have r: "rat_log10 x = (if power_int 10 (la - lb) \<le> (of_int a :: rat) / of_int b then la - lb else la - lb - 1)"
    unfolding rat_log10_def q by (simp add: pow10_eq x la_def lb_def)
  show ?thesis
    unfolding pow10_eq using binade_bounds [OF _ b _ _ r] int_digits_power_int [OF a] int_digits_power_int [OF b] x
    by (simp add: la_def lb_def)
qed

lemma round_even_err: "\<bar>of_int (round_even m) - m\<bar> \<le> 1 / 2"
  using floor_correct [of m] by (auto simp: round_even_def Let_def)

lemma round_even_nonneg: "0 \<le> m \<Longrightarrow> 0 \<le> round_even m"
  using floor_correct [of m] by (auto simp: round_even_def Let_def)

lemma round_even_of_int [simp]: "round_even (of_int n) = n"
  by (simp add: round_even_def)

lemma int_digits_is_digit: "0 \<le> d \<Longrightarrow> c \<in> set (int_digits d) \<Longrightarrow> is_digit c"
  by (auto simp: int_digits_show_nat dest!: show_nat_chars dest: digit_char_props)

lemma int_digits_parse: "0 \<le> d \<Longrightarrow> parse_digits 0 (int_digits d) = Some d"
  by (simp add: int_digits_show_nat show_nat_digits)

lemma int_digits_ne [simp]: "int_digits d \<noteq> []"
  by (simp add: int_digits.simps [of d])

lemma parse_digits_zeros: "parse_digits acc (replicate k (CHR ''0'')) = Some (acc * 10 ^ k)"
  by (induction k arbitrary: acc) (simp_all add: is_digit_def digit_value_def)

lemma not_exp_mark: "is_digit c \<or> c = CHR ''.'' \<Longrightarrow> \<not> is_exp_mark c"
  by (auto simp: is_digit_def is_exp_mark_def)

lemma dot_not_digit [simp]: "\<not> is_digit (CHR ''.'')"
  by (simp add: is_digit_def)

lemma parse_decimal_plain:
  assumes "\<forall>c\<in>set s. is_digit c \<or> c = CHR ''.''"
  shows "parse_decimal s =
     (let ip = takeWhile is_digit s; r = dropWhile is_digit s in
      if r = [] then (if ip = [] then None else map_option of_int (parse_digits 0 ip))
      else if hd r = CHR ''.'' \<and> (ip \<noteq> [] \<or> tl r \<noteq> []) then
        map_option (\<lambda>v. of_int v * pow10 (- int (length (tl r)))) (parse_digits 0 (ip @ tl r))
      else None)"
proof -
  have "\<forall>c\<in>set s. (Not \<circ> is_exp_mark) c" using assms not_exp_mark by auto
  then have tw: "takeWhile (Not \<circ> is_exp_mark) s = s" and dw: "dropWhile (Not \<circ> is_exp_mark) s = []"
    by (simp_all add: takeWhile_eq_all_conv dropWhile_eq_Nil_conv)
  show ?thesis unfolding parse_decimal_def Let_def tw dw by (simp add: pow10_def)
qed

lemma digits_then_dot:
  assumes "\<forall>c\<in>set ds. is_digit c"
  shows "takeWhile is_digit (ds @ CHR ''.'' # rs) = ds \<and> dropWhile is_digit (ds @ CHR ''.'' # rs) = CHR ''.'' # rs"
  using assms by (simp add: takeWhile_append2 dropWhile_append2)

lemma pow10_one [simp]: "pow10 1 = 10"
  by (simp add: pow10_def)

lemma zero_is_digit [simp]: "is_digit (CHR ''0'') \<and> digit_value (CHR ''0'') = 0"
  by (simp add: is_digit_def digit_value_def)

lemma render_dec_parse:
  assumes d: "0 < d"
  shows "parse_decimal (render_dec d t) = Some (of_int d * pow10 t)"
proof -
  define ds where "ds = int_digits d"
  define e where "e = int (length ds) + t"
  have dig: "\<forall>c\<in>set ds. is_digit c" using d int_digits_is_digit [of d] by (auto simp: ds_def)
  have ne: "ds \<noteq> []" by (simp add: ds_def)
  have pd: "parse_digits 0 ds = Some d" using d int_digits_parse by (simp add: ds_def)
  have r: "render_dec d t =
      (if e \<le> 0 then ''0.'' @ replicate (nat (- e)) (CHR ''0'') @ ds
       else if nat e < length ds then take (nat e) ds @ ''.'' @ drop (nat e) ds
       else ds @ replicate (nat e - length ds) (CHR ''0''))"
    by (simp add: render_dec_def ds_def e_def Let_def)
  consider (a) "e \<le> 0" | (b) "0 < e" "nat e < length ds" | (c) "0 < e" "\<not> nat e < length ds" by linarith
  then show ?thesis
  proof cases
    case a
    define zs where "zs = replicate (nat (- e)) (CHR ''0'') @ ds"
    have s: "render_dec d t = [CHR ''0''] @ CHR ''.'' # zs" using a by (simp add: r zs_def)
    have chars: "\<forall>c\<in>set (render_dec d t). is_digit c \<or> c = CHR ''.''" using dig by (auto simp: s zs_def)
    have "parse_digits 0 (CHR ''0'' # zs) = Some d"
      by (simp add: zs_def parse_digits_append parse_digits_zeros pd digit_value_def)
    moreover have "- int (length zs) = t" using a by (simp add: zs_def e_def)
    ultimately show ?thesis
      by (simp only: parse_decimal_plain [OF chars]) (simp add: s digits_then_dot [of "[CHR ''0'']"])
  next
    case b
    have s: "render_dec d t = take (nat e) ds @ CHR ''.'' # drop (nat e) ds" using b by (simp add: r)
    have dt: "\<forall>c\<in>set (take (nat e) ds). is_digit c" using dig by (auto dest: in_set_takeD)
    have chars: "\<forall>c\<in>set (render_dec d t). is_digit c \<or> c = CHR ''.''"
      using dig by (auto simp: s dest: in_set_takeD in_set_dropD)
    have "take (nat e) ds \<noteq> []" using b ne by simp
    moreover have "- int (length (drop (nat e) ds)) = t" using b by (simp add: e_def)
    ultimately show ?thesis
      by (simp only: parse_decimal_plain [OF chars]) (simp add: s digits_then_dot [OF dt] pd)
  next
    case c
    define k where "k = nat e - length ds"
    have s: "render_dec d t = ds @ replicate k (CHR ''0'')" using c by (simp add: r k_def)
    have all: "\<forall>c\<in>set (render_dec d t). is_digit c" using dig by (auto simp: s)
    have "t = int k" using c by (simp add: k_def e_def)
    then have pt: "pow10 t = 10 ^ k" by (simp add: pow10_of_nat)
    have chars: "\<forall>c\<in>set (render_dec d t). is_digit c \<or> c = CHR ''.''" using all by simp
    have tw: "takeWhile is_digit (render_dec d t) = render_dec d t"
      and dw: "dropWhile is_digit (render_dec d t) = []"
      using all by (simp_all add: takeWhile_eq_all_conv dropWhile_eq_Nil_conv)
    show ?thesis
      by (simp only: parse_decimal_plain [OF chars] tw dw Let_def)
         (simp add: s ne parse_digits_append pd parse_digits_zeros pt)
  qed
qed

lemma render_dec_hd: "0 < d \<Longrightarrow> \<exists>c r. render_dec d t = c # r \<and> is_digit c"
  using int_digits_is_digit [of d] int_digits_ne [of d]
  by (cases "int_digits d") (auto simp: render_dec_def Let_def take_Cons')

lemma strip_zeros_value:
  "0 < d \<Longrightarrow> strip_zeros d t = (d', t') \<Longrightarrow> 0 < d' \<and> of_int d' * pow10 t' = of_int d * pow10 t"
proof (induction d t rule: strip_zeros.induct)
  case (1 d t)
  show ?case
  proof (cases "d mod 10 = 0")
    case True
    then have dd: "d = 10 * (d div 10)" by (metis dvd_mult_div_cancel mod_0_imp_dvd)
    then have "0 < d div 10" using "1.prems"(1) by simp
    moreover have "strip_zeros (d div 10) (t + 1) = (d', t')"
      using "1.prems" True by (simp add: strip_zeros.simps [of d])
    ultimately have "0 < d' \<and> of_int d' * pow10 t' = of_int (d div 10) * pow10 (t + 1)"
      using "1.IH" "1.prems"(1) True by simp
    moreover have "of_int (d div 10) * pow10 (t + 1) = (of_int d :: rat) * pow10 t"
      by (subst (2) dd) (simp add: pow10_add)
    ultimately show ?thesis by simp
  next
    case False
    then show ?thesis using "1.prems" by (simp add: strip_zeros.simps [of d])
  qed
qed

lemma pow10_zero [simp]: "pow10 0 = 1"
  by (simp add: pow10_def)

lemma pow_nz [simp]: "pow2 e \<noteq> 0" "pow10 e \<noteq> 0"
  using pow2_pos [of e] pow10_pos [of e] by linarith+

lemma valid_pos_round_mag:
  "0 < x \<Longrightarrow> round_float fmt False x = Fin x \<Longrightarrow> round_mag fmt x = Some x"
  by (auto simp: round_float_def split: option.splits if_splits)

lemma round_mag_grid: "round_mag fmt x = Some r \<Longrightarrow> \<exists>n. r = of_int n * pow2 (quantum_exp fmt x)"
  by (auto simp: round_mag_def quantum_exp_def Let_def split: if_splits)

lemma grid_decimal:
  assumes "x = of_int n * pow2 q"
  shows "x * pow10 (max 0 (- q)) = of_int (n * 2 ^ nat (q + max 0 (- q)) * 5 ^ nat (max 0 (- q)))"
proof -
  define m where "m = max 0 (- q)"
  have m: "0 \<le> m" "0 \<le> q + m" by (simp_all add: m_def)
  have "pow10 m = power_int 2 m * power_int 5 m"
    by (simp add: pow10_eq flip: power_int_mult_distrib)
  then have "x * pow10 m = of_int n * (power_int 2 q * power_int 2 m) * power_int 5 m"
    by (simp add: assms pow2_eq)
  also have "power_int 2 q * power_int (2 :: rat) m = power_int 2 (q + m)" by (simp add: power_int_add)
  finally show ?thesis using m by (simp add: m_def [symmetric] power_int_def)
qed

lemma valid_decimal:
  assumes "0 < x" "round_float fmt False x = Fin x"
  shows "\<exists>N. 0 < N \<and> x * pow10 (max 0 (- quantum_exp fmt x)) = of_int N"
proof -
  obtain n where "x = of_int n * pow2 (quantum_exp fmt x)"
    using round_mag_grid [OF valid_pos_round_mag [OF assms]] by blast
  from grid_decimal [OF this] obtain N where N: "x * pow10 (max 0 (- quantum_exp fmt x)) = of_int N" by blast
  moreover have "0 < x * pow10 (max 0 (- quantum_exp fmt x))" using assms(1) by simp
  ultimately show ?thesis by auto
qed

lemma first_some_SomeD: "first_some f xs = Some b \<Longrightarrow> \<exists>a\<in>set xs. f a = Some b"
  by (induction f xs rule: first_some.induct) (auto split: option.splits)

lemma first_some_ne: "a \<in> set xs \<Longrightarrow> f a \<noteq> None \<Longrightarrow> first_some f xs \<noteq> None"
  by (induction f xs rule: first_some.induct) (auto split: option.splits)

lemma shortest_cand_sound:
  assumes "0 < x" "shortest_cand fmt x k = Some (d, t)"
  shows "0 < d \<and> round_float fmt False (of_int d * pow10 t) = Fin x"
proof -
  define t0 where "t0 = rat_log10 x - int k + 1"
  define lo where "lo = \<lfloor>x / pow10 t0\<rfloor>"
  have lo0: "0 \<le> lo" using assms(1) by (simp add: lo_def less_imp_le)
  have c: "(d = lo \<or> d = lo + 1) \<and> t = t0 \<and> round_float fmt False (of_int d * pow10 t) = Fin x"
    using assms(2) unfolding shortest_cand_def Let_def t0_def [symmetric] lo_def [symmetric]
    by (auto split: if_splits)
  moreover have "d \<noteq> 0"
  proof
    assume "d = 0"
    with c have "round_float fmt False 0 = Fin x" by simp
    with assms(1) show False by (simp add: round_float_def)
  qed
  ultimately show ?thesis using lo0 by auto
qed

lemma shortest_cand_exact:
  assumes x: "0 < x" "round_float fmt False x = Fin x"
  defines "m \<equiv> max 0 (- quantum_exp fmt x)"
  shows "shortest_cand fmt x (nat (rat_log10 x + 1 + m)) \<noteq> None \<and> 1 \<le> nat (rat_log10 x + 1 + m)"
proof -
  obtain N where N: "0 < N" "x * pow10 m = of_int N" using valid_decimal [OF x] by (auto simp: m_def)
  have "pow10 (- m) \<le> x"
  proof -
    have "(1 :: rat) \<le> of_int N" using N(1) by simp
    then have "pow10 (- m) * 1 \<le> pow10 (- m) * (x * pow10 m)" using N(2) by simp
    also have "\<dots> = x" by (simp add: mult.assoc [symmetric] mult.commute [of "pow10 (- m)"] flip: pow10_add)
    finally show ?thesis by simp
  qed
  then have "- m < rat_log10 x + 1" using rat_log10_bounds [OF x(1)] by (meson le_less_trans pow10_less_iff)
  then have k: "rat_log10 x - int (nat (rat_log10 x + 1 + m)) + 1 = - m" "1 \<le> nat (rat_log10 x + 1 + m)" by simp_all
  have e: "of_int N * pow10 (- m) = x" unfolding N(2) [symmetric] by (simp add: mult.assoc flip: pow10_add)
  then have "x / pow10 (- m) = of_int N" by auto
  with e have "of_int \<lfloor>x / pow10 (- m)\<rfloor> * pow10 (- m) = x" by simp
  then show ?thesis using k x(2) by (simp add: shortest_cand_def Let_def)
qed




lemma shortest_sound:
  assumes "0 < x" "round_float fmt False x = Fin x" "shortest fmt x = (d, t)"
  shows "0 < d \<and> round_float fmt False (of_int d * pow10 t) = Fin x"
proof -
  define n where "n = nat (rat_log10 x + 1 + max 0 (- quantum_exp fmt x))"
  have ex: "shortest_cand fmt x n \<noteq> None" and n1: "1 \<le> n"
    using shortest_cand_exact [OF assms(1,2)] unfolding n_def by simp_all
  have "n \<in> set [1..<Suc n]" using n1 by simp
  then have "first_some (shortest_cand fmt x) [1..<Suc n] \<noteq> None"
    using ex by (rule first_some_ne)
  then obtain dt where dt: "first_some (shortest_cand fmt x) [1..<Suc n] = Some dt" by blast
  have "shortest fmt x = dt" unfolding shortest_def Let_def n_def [symmetric] dt by simp
  then have "dt = (d, t)" using assms(3) by simp
  then show ?thesis using first_some_SomeD [OF dt] shortest_cand_sound [OF assms(1)] by blast
qed

lemma round_float_neg:
  "y \<noteq> 0 \<Longrightarrow> round_float fmt s (- y) = fneg (round_float fmt s' y)"
  by (auto simp: round_float_def split: option.splits)

lemma fneg_eq_Fin: "fneg w = Fin x \<Longrightarrow> x < 0 \<Longrightarrow> w = Fin (- x)"
  by (cases w) (auto split: if_splits)

lemma digit_not_sign: "is_digit c \<Longrightarrow> lower_ascii c = c \<and> split_sign (c # r) = (False, c # r)"
  by (auto simp: lower_ascii_def is_digit_def split_sign_def)

lemma parse_float_digits:
  assumes "is_digit c"
  shows "parse_float fmt (c # r) = map_option (round_float fmt False) (parse_decimal (c # r))
       \<and> parse_float fmt (CHR ''-'' # c # r) = map_option (\<lambda>q. round_float fmt True (- q)) (parse_decimal (c # r))"
proof -
  have "c \<noteq> CHR ''i''" "c \<noteq> CHR ''n''" using assms by (auto simp: is_digit_def)
  then show ?thesis using digit_not_sign [OF assms, of r] by (simp add: parse_float_def split_sign_def)
qed

lemma display_mag:
  assumes "0 < x" "round_float fmt False x = Fin x"
  shows "\<exists>c r y. (case shortest fmt x of (d, t) \<Rightarrow> case strip_zeros d t of (d', t') \<Rightarrow> render_dec d' t') = c # r
     \<and> is_digit c \<and> parse_decimal (c # r) = Some y \<and> 0 < y \<and> round_float fmt False y = Fin x"
proof -
  obtain d t where dt: "shortest fmt x = (d, t)" by (cases "shortest fmt x")
  obtain d' t' where dt': "strip_zeros d t = (d', t')" by (cases "strip_zeros d t")
  have s: "0 < d" "round_float fmt False (of_int d * pow10 t) = Fin x" using shortest_sound [OF assms dt] by simp_all
  have z: "0 < d'" "of_int d' * pow10 t' = of_int d * pow10 t" using strip_zeros_value [OF s(1) dt'] by simp_all
  obtain c r where cr: "render_dec d' t' = c # r" "is_digit c" using render_dec_hd [OF z(1)] by blast
  have "parse_decimal (c # r) = Some (of_int d * pow10 t)" using render_dec_parse [OF z(1), of t'] cr z(2) by simp
  moreover have "0 < (of_int d :: rat) * pow10 t" using s(1) by simp
  ultimately show ?thesis using dt dt' cr s(2) by auto
qed

lemma char_of_n: "char_of (110 :: nat) = CHR ''n''"
  by code_simp

lemma display_parse_inverse: "valid fmt v \<Longrightarrow> parse_float fmt (display_float fmt v) = Some v"
proof (cases v)
  case (Fin x)
  assume val: "valid fmt v"
  show ?thesis
  proof (cases x "0 :: rat" rule: linorder_cases)
    case less
    have "round_float fmt False (- \<bar>x\<bar>) = Fin x" using val less Fin by simp
    then have "fneg (round_float fmt False \<bar>x\<bar>) = Fin x" using less round_float_neg [of "\<bar>x\<bar>" fmt False False] by simp
    then have v: "round_float fmt False \<bar>x\<bar> = Fin \<bar>x\<bar>" using less by (auto dest: fneg_eq_Fin)
    obtain c r y where m: "(case shortest fmt \<bar>x\<bar> of (d, t) \<Rightarrow> case strip_zeros d t of (d', t') \<Rightarrow> render_dec d' t') = c # r"
      "is_digit c" "parse_decimal (c # r) = Some y" "0 < y" "round_float fmt False y = Fin \<bar>x\<bar>"
      using display_mag [OF _ v] less by auto
    have "round_float fmt True (- y) = Fin x"
      using round_float_neg [of y fmt True False] m(4,5) less by simp
    then show ?thesis using Fin less m parse_float_digits [OF m(2)] by simp
  next
    case equal
    then show ?thesis using Fin
      by (simp add: parse_float_def split_sign_def char_of_n lower_ascii_def parse_decimal_def is_exp_mark_def is_digit_def
                    digit_value_def round_float_def)
  next
    case greater
    have v: "round_float fmt False x = Fin x" using val Fin by simp
    obtain c r y where m: "(case shortest fmt x of (d, t) \<Rightarrow> case strip_zeros d t of (d', t') \<Rightarrow> render_dec d' t') = c # r"
      "is_digit c" "parse_decimal (c # r) = Some y" "0 < y" "round_float fmt False y = Fin x"
      using display_mag [OF greater v] by blast
    then show ?thesis using Fin greater parse_float_digits [OF m(2)] by simp
  qed
qed (simp_all add: parse_float_def split_sign_def char_of_n lower_ascii_def parse_decimal_def is_exp_mark_def is_digit_def
                   digit_value_def round_float_def)

lemma pow2_one [simp]: "pow2 1 = 2"
  by (simp add: pow2_def)

lemma rat_log2_unique:
  assumes "pow2 k \<le> x" "x < pow2 (k + 1)"
  shows "rat_log2 x = k"
proof -
  have "0 < x" using assms(1) pow2_pos [of k] by linarith
  from rat_log2_bounds [OF this] have "pow2 (rat_log2 x) \<le> x" "x < pow2 (rat_log2 x + 1)" by simp_all
  then have "k < rat_log2 x + 1" "rat_log2 x < k + 1"
    using assms by (meson le_less_trans pow2_less_iff)+
  then show ?thesis by simp
qed

lemma round_mag_err:
  assumes "pow2 (emin fmt) \<le> y" "round_mag fmt y = Some r"
  shows "\<bar>r - y\<bar> \<le> y * pow2 (- int (prec fmt))"
proof -
  define e where "e = rat_log2 y"
  define q where "q = e - (int (prec fmt) - 1)"
  define m where "m = y / pow2 q"
  have y0: "0 < y" using assms(1) pow2_pos [of "emin fmt"] by linarith
  have b: "pow2 e \<le> y" "y < pow2 (e + 1)" using rat_log2_bounds [OF y0] by (simp_all add: e_def)
  have "emin fmt < e + 1" using assms(1) b(2) by (meson le_less_trans pow2_less_iff)
  then have r: "r = of_int (round_even m) * pow2 q"
    using assms(2) by (auto simp: round_mag_def Let_def e_def [symmetric] q_def [symmetric] m_def max_def split: if_splits)
  have y: "y = m * pow2 q" by (simp add: m_def)
  have "\<bar>r - y\<bar> = \<bar>of_int (round_even m) - m\<bar> * pow2 q"
    by (simp add: r y abs_mult left_diff_distrib [symmetric] abs_of_pos)
  also have "\<dots> \<le> 1 / 2 * pow2 q" using round_even_err [of m] by (simp add: mult_right_mono)
  also have "1 / 2 * pow2 q = pow2 e * pow2 (- int (prec fmt))"
  proof -
    have "q = (e + - int (prec fmt)) + 1" by (simp add: q_def)
    then show ?thesis using pow2_add [of e "- int (prec fmt)"] by (simp add: pow2_add)
  qed
  also have "\<dots> \<le> y * pow2 (- int (prec fmt))" using b(1) by simp
  finally show ?thesis .
qed

lemma round_float_err:
  "pow2 (emin fmt) \<le> \<bar>x\<bar> \<Longrightarrow> round_float fmt s x = Fin r \<Longrightarrow> \<bar>r - x\<bar> \<le> \<bar>x\<bar> * pow2 (- int (prec fmt))"
proof -
  assume n: "pow2 (emin fmt) \<le> \<bar>x\<bar>" and f: "round_float fmt s x = Fin r"
  have "0 < \<bar>x\<bar>" using n pow2_pos [of "emin fmt"] by linarith
  then have x0: "x \<noteq> 0" by simp
  obtain r' where m: "round_mag fmt \<bar>x\<bar> = Some r'"
    using f x0 by (cases "round_mag fmt \<bar>x\<bar>") (auto simp: round_float_def split: if_splits)
  have "\<bar>r - x\<bar> = \<bar>r' - \<bar>x\<bar>\<bar>"
    using f x0 m by (auto simp: round_float_def split: if_splits)
  also have "\<dots> \<le> \<bar>x\<bar> * pow2 (- int (prec fmt))" by (rule round_mag_err [OF n m])
  finally show ?thesis .
qed

lemma rat_log2_grid:
  assumes "0 < n"
  shows "rat_log2 (of_int n * pow2 q) = q + bitlen n - 1"
proof (rule rat_log2_unique)
  have b: "pow2 (bitlen n) \<le> 2 * of_int n" "of_int n < pow2 (bitlen n)"
    using bitlen_power_int [OF assms] by (simp_all add: pow2_eq)
  have l: "1 \<le> bitlen n" using assms by (simp add: bitlen_alt_def)
  have h: "pow2 (bitlen n - 1) \<le> of_int n" using bitlen_bounds [OF assms] l by (simp add: pow2_def)
  have "pow2 (q + bitlen n - 1) = pow2 q * pow2 (bitlen n - 1)" using pow2_add [of q "bitlen n - 1"] by (simp add: add_diff_eq)
  then show "pow2 (q + bitlen n - 1) \<le> of_int n * pow2 q" using h by (simp add: mult.commute)
  have "pow2 (q + bitlen n - 1 + 1) = pow2 q * pow2 (bitlen n)" using pow2_add [of q "bitlen n"] by simp
  then show "of_int n * pow2 q < pow2 (q + bitlen n - 1 + 1)" using b(2) by (simp add: mult.commute)
qed

lemma round_mag_grid_fix:
  assumes "0 < n" "max (q + bitlen n - 1) (emin fmt) - (int (prec fmt) - 1) = q"
    "\<not> emax fmt + 1 \<le> q + bitlen n - 1"
  shows "round_mag fmt (of_int n * pow2 q) = Some (of_int n * pow2 q)"
  using assms by (simp add: round_mag_def rat_log2_grid Let_def)

lemma round_even_le_int:
  assumes "m \<le> of_int k"
  shows "round_even m \<le> k"
proof -
  have "of_int (round_even m) \<le> m + 1 / 2" using round_even_err [of m] unfolding abs_le_iff by linarith
  then have "of_int (round_even m) < (of_int (k + 1) :: rat)" using assms by simp
  then show ?thesis by simp
qed

lemma int_le_round_even:
  assumes "of_int k \<le> m"
  shows "k \<le> round_even m"
proof -
  have "m - 1 / 2 \<le> of_int (round_even m)" using round_even_err [of m] unfolding abs_le_iff by linarith
  then have "(of_int (k - 1) :: rat) < of_int (round_even m)" using assms by simp
  then show ?thesis by simp
qed

lemma bitlen_two_power: "bitlen ((2 :: int) ^ k) = int k + 1"
  using bitlen_pow2 [of 1 k] by (simp add: bitlen_alt_def)

lemma round_mag_idem:
  assumes p0: "0 < prec fmt" and y: "0 < y" and m: "round_mag fmt y = Some r" and r: "0 < r"
  shows "round_mag fmt r = Some r"
proof -
  define p where "p = int (prec fmt)"
  define e where "e = rat_log2 y"
  define M where "M = max e (emin fmt)"
  define q where "q = M - (p - 1)"
  define n where "n = round_even (y / pow2 q)"
  have rn: "r = of_int n * pow2 q" and nov: "\<not> emax fmt + 1 \<le> q + bitlen n - 1"
    using m by (auto simp: round_mag_def Let_def e_def [symmetric] M_def q_def n_def p_def split: if_splits)
  have n0: "0 < n"
  proof (rule ccontr)
    assume "\<not> 0 < n"
    then have "of_int n * pow2 q \<le> 0" by (simp add: mult_nonpos_nonneg less_imp_le)
    with r rn show False by simp
  qed
  have yb: "pow2 e \<le> y" "y < pow2 (e + 1)" using rat_log2_bounds [OF y] by (simp_all add: e_def)
  have qp: "pow2 q * pow2 p = pow2 (M + 1)" using pow2_add [of q p] by (simp add: q_def)
  have "y < pow2 q * pow2 p" using yb(2) qp by (metis M_def max.cobounded1 add_right_mono pow2_le_iff less_le_trans)
  then have "y / pow2 q \<le> of_int (2 ^ prec fmt)" by (simp add: divide_le_eq mult.commute p_def pow2_of_nat less_imp_le)
  then have nle: "n \<le> 2 ^ prec fmt" unfolding n_def by (rule round_even_le_int)
  show ?thesis
  proof (cases "n = 2 ^ prec fmt")
    case False
    then have "n < 2 ^ prec fmt" using nle by simp
    then have bl: "bitlen n \<le> p" by (simp add: bitlen_le_iff_power p_def)
    have "max (q + bitlen n - 1) (emin fmt) = M"
    proof (cases "emin fmt \<le> e")
      case True
      have "pow2 q * pow2 (p - 1) = pow2 e" using pow2_add [of q "p - 1"] True by (simp add: q_def M_def)
      moreover have "pow2 (p - 1) = of_int (2 ^ (prec fmt - 1))"
        using p0 pow2_of_nat [of "prec fmt - 1"] by (simp add: p_def of_nat_diff)
      ultimately have "of_int (2 ^ (prec fmt - 1)) \<le> y / pow2 q"
        using yb(1) by (simp add: le_divide_eq mult.commute)
      then have "2 ^ (prec fmt - 1) \<le> n" unfolding n_def by (rule int_le_round_even)
      then have "p \<le> bitlen n" using p0 by (simp add: bitlen_ge_iff_power p_def)
      then show ?thesis using bl True by (simp add: q_def M_def)
    next
      case False
      then show ?thesis using bl by (simp add: q_def M_def)
    qed
    then show ?thesis using rn round_mag_grid_fix [OF n0 _ nov] by (simp add: q_def p_def)
  next
    case True
    define n1 where "n1 = (2 :: int) ^ (prec fmt - 1)"
    have n1: "0 < n1" "bitlen n1 = p" using p0 by (simp_all add: n1_def bitlen_two_power p_def)
    have bn: "bitlen n = p + 1" using True by (simp add: bitlen_two_power p_def)
    obtain k where k: "prec fmt = Suc k" using p0 by (cases "prec fmt") auto
    have "of_int n * pow2 q = of_int n1 * pow2 (q + 1)"
      using True pow2_add [of q 1] by (simp add: n1_def k)
    moreover have "max (q + 1 + bitlen n1 - 1) (emin fmt) - (int (prec fmt) - 1) = q + 1"
      using n1(2) by (simp add: q_def M_def p_def)
    moreover have "\<not> emax fmt + 1 \<le> q + 1 + bitlen n1 - 1" using nov bn n1(2) by simp
    ultimately show ?thesis using rn round_mag_grid_fix [OF n1(1)] by simp
  qed
qed

lemma round_mag_nonneg:
  assumes "0 \<le> y" "round_mag fmt y = Some r"
  shows "0 \<le> r"
proof -
  obtain q where r: "r = of_int (round_even (y / pow2 q)) * pow2 q"
    using assms(2) by (auto simp: round_mag_def Let_def split: if_splits)
  have "0 \<le> round_even (y / pow2 q)" using assms(1) by (intro round_even_nonneg divide_nonneg_pos) simp_all
  then show ?thesis unfolding r by (intro mult_nonneg_nonneg) (simp_all add: less_imp_le)
qed

lemma valid_zero [simp]: "valid fmt (Fin 0)"
  by (simp add: round_float_def)

lemma round_float_valid:
  assumes p: "0 < prec fmt"
  shows "valid fmt (round_float fmt s x)"
proof (cases "x = 0")
  case False
  show ?thesis
  proof (cases "round_mag fmt \<bar>x\<bar>")
    case (Some r)
    have r0: "0 \<le> r" using round_mag_nonneg [OF _ Some] by simp
    show ?thesis
    proof (cases "r = 0")
      case False
      then have "0 < r" using r0 by simp
      then have v: "round_float fmt False r = Fin r"
        using round_mag_idem [OF p _ Some] False \<open>x \<noteq> 0\<close> by (simp add: round_float_def)
      have "round_float fmt False (- r) = Fin (- r)"
        using round_float_neg [of r fmt False False] v False by simp
      then show ?thesis using v Some \<open>x \<noteq> 0\<close> False by (simp add: round_float_def)
    qed (use Some \<open>x \<noteq> 0\<close> in \<open>simp add: round_float_def\<close>)
  qed (use False in \<open>simp add: round_float_def\<close>)
qed (simp add: round_float_def)

lemma valid_fneg: "valid fmt v \<Longrightarrow> valid fmt (fneg v)"
proof (cases v)
  case (Fin x)
  assume "valid fmt v"
  then have "round_float fmt False x = Fin x" using Fin by simp
  then show ?thesis using Fin round_float_neg [of x fmt False False] by auto
qed (simp_all add: round_float_def)

lemma fadd_valid: "0 < prec fmt \<Longrightarrow> valid fmt (fadd fmt a b)"
  by (cases a; cases b) (simp_all add: round_float_valid)

lemma fmul_valid: "0 < prec fmt \<Longrightarrow> valid fmt (fmul fmt a b)"
  by (simp add: fmul_def round_float_valid)

lemma parse_float_valid: "0 < prec fmt \<Longrightarrow> parse_float fmt s = Some v \<Longrightarrow> valid fmt v"
  by (auto simp: parse_float_def Let_def round_float_valid split: prod.splits if_splits)

lemma mult_rel_err:
  fixes X K a k c u :: rat
  assumes ea: "\<bar>a - X\<bar> \<le> \<bar>X\<bar> * u" and ek: "\<bar>k - K\<bar> \<le> \<bar>K\<bar> * u" and ec: "\<bar>c - a * k\<bar> \<le> \<bar>a * k\<bar> * u"
    and u: "0 \<le> u" "u \<le> 1 / 4"
  shows "\<bar>c - X * K\<bar> \<le> \<bar>X * K\<bar> * (4 * u)"
proof -
  define P where "P = \<bar>X * K\<bar>"
  have P0: "0 \<le> P" by (simp add: P_def)
  have a: "\<bar>a\<bar> \<le> \<bar>X\<bar> * (1 + u)" using ea by (simp add: algebra_simps)
  have k: "\<bar>k\<bar> \<le> \<bar>K\<bar> * (1 + u)" using ek by (simp add: algebra_simps)
  have ak: "\<bar>a * k\<bar> \<le> P * ((1 + u) * (1 + u))"
    using mult_mono [OF a k] u by (simp add: P_def abs_mult algebra_simps)
  have d1: "\<bar>a * (k - K)\<bar> \<le> P * ((1 + u) * u)"
    using mult_mono [OF a ek] u unfolding abs_mult P_def by (simp add: algebra_simps)
  have d2: "\<bar>(a - X) * K\<bar> \<le> P * u"
    using mult_right_mono [OF ea, of "\<bar>K\<bar>"] unfolding abs_mult P_def by (simp add: algebra_simps)
  have "a * k - X * K = a * (k - K) + (a - X) * K" by (simp add: algebra_simps)
  then have d: "\<bar>a * k - X * K\<bar> \<le> P * ((1 + u) * u) + P * u"
    using d1 d2 abs_triangle_ineq [of "a * (k - K)" "(a - X) * K"] by simp
  have e: "\<bar>c - a * k\<bar> \<le> P * ((1 + u) * (1 + u) * u)"
    using ec mult_right_mono [OF ak u(1)] by (simp add: mult.assoc)
  have "\<bar>c - X * K\<bar> \<le> \<bar>c - a * k\<bar> + \<bar>a * k - X * K\<bar>" using abs_triangle_ineq [of "c - a * k" "a * k - X * K"] by simp
  also have "\<dots> \<le> P * ((1 + u) * (1 + u) * u + (1 + u) * u + u)" using d e by (simp add: distrib_left)
  also have "\<dots> \<le> P * (4 * u)"
  proof (rule mult_left_mono [OF _ P0])
    define w where "w = u * u"
    define z where "z = u * w"
    have w: "w \<le> u / 4" using mult_left_mono [OF u(2) u(1)] by (simp add: w_def)
    have "u * w \<le> u * (u / 4)" by (rule mult_left_mono [OF w u(1)])
    then have "z \<le> w / 4" by (simp add: z_def w_def)
    then have z: "z \<le> u / 16" using w by linarith
    have eq: "(1 + u) * (1 + u) * u + (1 + u) * u + u = 3 * u + 3 * w + z"
      by (simp add: w_def z_def algebra_simps)
    have "3 * u + 3 * w + z \<le> 4 * u" using w z u(1) by linarith
    then show "(1 + u) * (1 + u) * u + (1 + u) * u + u \<le> 4 * u" by (simp only: eq)
  qed
  finally show ?thesis by (simp add: P_def)
qed


end
