(* ===== verification/Temperature.thy ===== *)
theory Temperature
  imports Rust_Float
begin

text \<open>
  \<open>src/chapters/chapter-3/chapter-exercises/src/temperature-converter.rs\<close>.
  \<open>main\<close> is a \<open>loop\<close> without \<open>break\<close>: each iteration prints the menu,
  reads a line for the option, and on a valid option reads a value and
  prints its conversion.  Standard input is the list of lines still to be
  read, each with its line feed; at the end of input \<open>read_line\<close> returns
  \<open>Ok(0)\<close> and leaves the buffer empty.  The value is parsed by
  \<open>str::parse::<f64>\<close> (\<open>parse_float f64_fmt\<close>), the conversions are
  the IEEE double operations of \<open>Rust_Float\<close> with the literal \<open>1.8\<close>
  rounded to \<open>f64\<close> (\<open>fahrenheit_of\<close>, \<open>celsius_of\<close>), and the printed
  lines are the text \<open>println!\<close> writes, with the floats rendered by
  \<open>Display\<close> (\<open>display_float\<close>).  \<open>to_celsius\<close> is the exact
  rational value of the formula of line 39, which \<open>celsius_of\<close>
  approximates.  The option line is parsed as an \<open>i32\<close>: the patterns
  \<open>Ok(1)\<close> and \<open>Ok(2)\<close> leave the integer type of \<open>parse\<close>
  unconstrained, so it falls back to \<open>i32\<close>, and the match
  (\<open>option_of\<close>) turns it into the \<open>u8\<close> option or a \<open>continue\<close>.  \<open>converter_iter\<close> is one iteration of the loop
  and \<open>converter_run k\<close> the output of its first \<open>k\<close> iterations;
  \<open>converter_main\<close> prints the title before the loop.
\<close>

section \<open>The program\<close>

definition menu :: "string list" where
  "menu = [''1) Convert Celsius to Fahrenheit'', ''2) Convert Fahrenheit to Celsius'']"

definition prompt :: string where
  "prompt = ''Please input the source value''"

fun read_line :: "string list \<Rightarrow> string \<times> string list" where
  "read_line [] = ([], [])"
| "read_line (l # ls) = (l, ls)"

definition to_celsius :: "rat \<Rightarrow> rat" where
  "to_celsius source = (source - 32) * (18 / 10)"

text \<open>The literal \<open>1.8\<close> as an \<open>f64\<close>, and the two conversions in double arithmetic.\<close>

definition lit_1_8 :: fval where
  "lit_1_8 = round_float f64_fmt False (18 / 10)"

definition fahrenheit_of :: "fval \<Rightarrow> fval" where
  "fahrenheit_of source = fadd f64_fmt (fmul f64_fmt source lit_1_8) (Fin 32)"

definition celsius_of :: "fval \<Rightarrow> fval" where
  "celsius_of source = fmul f64_fmt (fsub f64_fmt source (Fin 32)) lit_1_8"

definition conversion_line :: "u8 \<Rightarrow> fval \<Rightarrow> string" where
  "conversion_line opt source =
     (if opt = 1 then display_float f64_fmt source @ '' Celsius is '' @
                      display_float f64_fmt (fahrenheit_of source) @ '' in Fahrenheit''
      else display_float f64_fmt source @ '' Fahrenheit is '' @
           display_float f64_fmt (celsius_of source) @ '' Celsius'')"

definition option_of :: "i32 option \<Rightarrow> u8 option" where
  "option_of r =
     (case r of
        Some v \<Rightarrow> if v = 1 then Some 1 else if v = 2 then Some 2 else None
      | None \<Rightarrow> None)"

definition converter_iter :: "string list \<Rightarrow> string list \<times> string list" where
  "converter_iter inp =
     (let (option, inp) = read_line inp in
      case option_of (parse_int (trim option)) of
        Some opt \<Rightarrow>
          (let (input, inp) = read_line inp in
           case parse_float f64_fmt (trim input) of
             None \<Rightarrow> (menu @ [prompt], inp)
           | Some source \<Rightarrow> (menu @ [prompt, conversion_line opt source], inp))
      | None \<Rightarrow> (menu, inp))"

fun converter_run :: "nat \<Rightarrow> string list \<Rightarrow> string list" where
  "converter_run 0 inp = []"
| "converter_run (Suc k) inp = (case converter_iter inp of (out, inp') \<Rightarrow> out @ converter_run k inp')"

definition converter_main :: "nat \<Rightarrow> string list \<Rightarrow> string list" where
  "converter_main k inp = ''Temperature Converter'' # converter_run k inp"

section \<open>Lemmas\<close>

lemma parse_int_empty [simp]: "parse_int [] = None"
  by (simp add: parse_int_def)

lemma converter_iter_eof: "converter_iter [] = (menu, [])"
  by (simp add: converter_iter_def option_of_def)

lemma option_line_two: "option_of (parse_int (trim ''2\<newline>'')) = Some 2"
  by code_simp

lemma lit_1_8_val: "lit_1_8 = Fin (8106479329266893 / 4503599627370496)"
  unfolding lit_1_8_def by code_simp

lemma f64_fmt_fields [simp]: "prec f64_fmt = 53" "emin f64_fmt = -1022" "emax f64_fmt = 1023"
  by (simp_all add: f64_fmt_def)

lemma celsius_of_err:
  assumes c: "celsius_of (Fin x) = Fin c" and n: "pow2 (- 1000) \<le> \<bar>x - 32\<bar>"
  shows "\<bar>c - to_celsius x\<bar> \<le> \<bar>to_celsius x\<bar> * pow2 (- 51)"
proof -
  define X where "X = x - 32"
  define k :: rat where "k = 8106479329266893 / 4503599627370496"
  define u :: rat where "u = pow2 (- 53)"
  have u: "0 \<le> u" "u \<le> 1 / 4" by (simp_all add: u_def pow2_def)
  have ek: "\<bar>k - 18 / 10\<bar> \<le> \<bar>18 / 10\<bar> * u"
  proof -
    have "pow2 (emin f64_fmt) \<le> \<bar>18 / 10 :: rat\<bar>" by code_simp
    moreover have "round_float f64_fmt False (18 / 10) = Fin k" using lit_1_8_val by (simp add: lit_1_8_def k_def)
    ultimately have "\<bar>k - 18 / 10\<bar> \<le> \<bar>18 / 10\<bar> * pow2 (- int (prec f64_fmt))" by (rule round_float_err)
    then show ?thesis by (simp add: u_def)
  qed
  have "pow2 (- 1022) \<le> (pow2 (- 1000) :: rat)" by simp
  then have nX: "pow2 (emin f64_fmt) \<le> \<bar>X\<bar>" using order.trans [OF _ n] by (simp add: X_def)
  have fs: "fsub f64_fmt (Fin x) (Fin 32) = round_float f64_fmt False X" by (simp add: fsub_def X_def)
  have k1: "1 \<le> k" by (simp add: k_def)
  have cw: "celsius_of (Fin x) = fmul f64_fmt (round_float f64_fmt False X) (Fin k)"
    using fs lit_1_8_val by (simp add: celsius_of_def k_def)
  show ?thesis
  proof (cases "round_float f64_fmt False X")
    case (Fin a)
    have ea: "\<bar>a - X\<bar> \<le> \<bar>X\<bar> * u" using round_float_err [OF nX Fin] by (simp add: u_def)
    have ac: "fmul f64_fmt (Fin a) (Fin k) = Fin c" using c cw Fin by simp
    have "\<bar>X\<bar> \<le> \<bar>a\<bar> + \<bar>X\<bar> * u" using ea abs_triangle_ineq2 [of X a] by (simp add: abs_minus_commute)
    moreover have "\<bar>X\<bar> * u \<le> \<bar>X\<bar> * (1 / 2)" using u by (intro mult_left_mono) simp_all
    moreover have "pow2 (- 1001) * 2 = pow2 (- 1000)" using pow2_add [of "- 1001" 1] by simp
    ultimately have "pow2 (- 1001) \<le> \<bar>a\<bar>" using n by (simp add: X_def)
    moreover have "\<bar>a\<bar> \<le> \<bar>a * k\<bar>" using k1 mult_left_mono [OF k1, of "\<bar>a\<bar>"] by (simp add: abs_mult)
    moreover have "pow2 (emin f64_fmt) \<le> pow2 (- 1001)" by simp
    ultimately have nak: "pow2 (emin f64_fmt) \<le> \<bar>a * k\<bar>" by linarith
    have ec: "\<bar>c - a * k\<bar> \<le> \<bar>a * k\<bar> * u"
      using ac round_float_err [OF nak] by (simp add: fmul_def u_def)
    have "\<bar>c - X * (18 / 10)\<bar> \<le> \<bar>X * (18 / 10)\<bar> * (4 * u)" by (rule mult_rel_err [OF ea ek ec u])
    moreover have "4 * u = pow2 (- 51)" using pow2_add [of "- 53" 2] by (simp add: u_def pow2_def)
    ultimately show ?thesis by (simp add: to_celsius_def X_def)
  qed (use c cw in \<open>simp_all add: fmul_def round_float_def k_def\<close>)
qed

lemma celsius_far_from_exact:
  assumes "\<bar>c - to_celsius x\<bar> \<le> \<bar>to_celsius x\<bar> * pow2 (- 51)"
  shows "2 * \<bar>(x - 32) * 5 / 9\<bar> \<le> \<bar>c - (x - 32) * 5 / 9\<bar>"
proof -
  define X where "X = x - 32"
  have q: "pow2 (- 51) \<le> (1 / 100 :: rat)" by (simp add: pow2_def)
  have t: "to_celsius x = X * (9 / 5)" by (simp add: to_celsius_def X_def)
  have a: "\<bar>to_celsius x\<bar> = \<bar>X\<bar> * (9 / 5)" by (simp add: t abs_mult)
  have "\<bar>to_celsius x\<bar> * pow2 (- 51) \<le> \<bar>to_celsius x\<bar> * (1 / 100)" by (rule mult_left_mono [OF q]) simp
  with assms have "\<bar>c - X * (9 / 5)\<bar> \<le> \<bar>X\<bar> * (9 / 500)" unfolding a t by linarith
  then show ?thesis unfolding X_def [symmetric] by (cases "0 \<le> X") (simp_all add: abs_if split: if_splits)
qed

section \<open>Properties\<close>

text \<open>
  C16.  Once standard input is exhausted the loop spins: every further
  iteration prints the menu and reads nothing, so the program prints the menu
  forever instead of stopping.
\<close>

theorem converter_eof_spins: "converter_run k [] = concat (replicate k menu)"
  by (induction k) (simp_all add: converter_iter_eof)

text \<open>
  C17.  On option 2 and a line that parses as a finite double \<open>x\<close> (with
  \<open>x - 32\<close> not vanishingly small), the iteration prints the menu, the
  prompt, and the line \<open>x Fahrenheit is c Celsius\<close> with \<open>c\<close> the double
  \<open>(x - 32.0) * 1.8\<close>, and consumes the two lines; the Celsius value it
  prints is off from the true \<open>(x - 32) * 5 / 9\<close> by more than twice
  that value (line 39 multiplies by 1.8 where it should divide): boiling
  water (212) is reported as 324 degrees instead of 100.
\<close>

theorem converter_option_two:
  "parse_float f64_fmt (trim l) = Some (Fin x) \<Longrightarrow> pow2 (- 1000) \<le> \<bar>x - 32\<bar> \<Longrightarrow>
   celsius_of (Fin x) = Fin c \<Longrightarrow>
   converter_iter (''2\<newline>'' # l # ls) =
     (menu @ [prompt, display_float f64_fmt (Fin x) @ '' Fahrenheit is '' @
                      display_float f64_fmt (Fin c) @ '' Celsius''], ls)
   \<and> 2 * \<bar>(x - 32) * 5 / 9\<bar> \<le> \<bar>c - (x - 32) * 5 / 9\<bar>"
proof -
  assume p: "parse_float f64_fmt (trim l) = Some (Fin x)" and n: "pow2 (- 1000) \<le> \<bar>x - 32\<bar>"
    and c: "celsius_of (Fin x) = Fin c"
  have line: "converter_iter (''2\<newline>'' # l # ls) =
     (menu @ [prompt, display_float f64_fmt (Fin x) @ '' Fahrenheit is '' @
                      display_float f64_fmt (Fin c) @ '' Celsius''], ls)"
    using option_line_two p c by (simp add: converter_iter_def conversion_line_def)
  have "2 * \<bar>(x - 32) * 5 / 9\<bar> \<le> \<bar>c - (x - 32) * 5 / 9\<bar>"
    using celsius_of_err [OF c n] by (rule celsius_far_from_exact)
  with line show ?thesis by simp
qed

theorem converter_option_two_witness:
  "converter_iter [''2\<newline>'', ''212\<newline>''] = (menu @ [prompt, ''212 Fahrenheit is 324 Celsius''], [])
   \<and> 2 * \<bar>(212 - 32) * 5 / 9 :: rat\<bar> \<le> \<bar>324 - (212 - 32) * 5 / 9\<bar>"
proof -
  have p: "parse_float f64_fmt (trim ''212\<newline>'') = Some (Fin 212)" by code_simp
  have n: "pow2 (- 1000) \<le> \<bar>212 - 32 :: rat\<bar>" by code_simp
  have c: "celsius_of (Fin 212) = Fin 324" by code_simp
  have d: "display_float f64_fmt (Fin 212) @ '' Fahrenheit is '' @ display_float f64_fmt (Fin 324) @ '' Celsius''
           = ''212 Fahrenheit is 324 Celsius''" by code_simp
  show ?thesis using converter_option_two [OF p n c, of "[]"] d by simp
qed

text \<open>
  C18.  A line that is not the option 1 or 2 (another number, or no number)
  is skipped: the iteration prints the menu and consumes only that line.
\<close>

theorem converter_skips_invalid:
  "(parse_int (trim l) :: i32 option) \<noteq> Some 1 \<Longrightarrow> (parse_int (trim l) :: i32 option) \<noteq> Some 2 \<Longrightarrow>
   converter_iter (l # ls) = (menu, ls)"
  by (auto simp: converter_iter_def option_of_def split: option.split)

theorem converter_skips_invalid_witness:
  "converter_iter [''3\<newline>'', ''100\<newline>''] = (menu, [''100\<newline>''])"
proof -
  have "(parse_int (trim ''3\<newline>'') :: i32 option) = Some 3" by code_simp
  then show ?thesis using converter_skips_invalid [of "''3\<newline>''"] by simp
qed

text \<open>
  C10.  The double computation of line 39 refines the exact formula: when
  \<open>source - 32\<close> is at least \<open>2^-1000\<close> in magnitude and the result is
  finite, the Celsius value printed differs from the exact
  \<open>(source - 32) * 1.8\<close> by a relative error of at most \<open>2^-51\<close> (the
  rounding of the literal, of the subtraction and of the product).  The
  printed value is thus the wrong formula computed accurately, not a
  rounding artefact.
\<close>

theorem celsius_of_refines:
  assumes c: "celsius_of (Fin x) = Fin c" and n: "pow2 (- 1000) \<le> \<bar>x - 32\<bar>"
  shows "\<bar>c - to_celsius x\<bar> \<le> \<bar>to_celsius x\<bar> * pow2 (- 51)"
  using c n by (rule celsius_of_err)

theorem celsius_of_refines_witness:
  "celsius_of (Fin 212) = Fin 324 \<and> pow2 (- 1000) \<le> \<bar>212 - 32 :: rat\<bar>
   \<and> \<bar>324 - to_celsius 212\<bar> \<le> \<bar>to_celsius 212\<bar> * pow2 (- 51)"
proof -
  have a: "celsius_of (Fin 212) = Fin 324" by code_simp
  have b: "pow2 (- 1000) \<le> \<bar>212 - 32 :: rat\<bar>" by code_simp
  show ?thesis using celsius_of_refines [OF a b] a b by simp
qed


end
