(* ===== verification/FirstWord.thy ===== *)
theory FirstWord
  imports Prelude
begin

text \<open>
  \<open>src/chapters/chapter-4/exercise1-r.rs\<close>.  A Rust \<open>String\<close> is a
  sequence of Unicode scalar values stored as UTF-8; here it is the list of
  its scalar values (\<open>ustring\<close>, code points as \<open>nat\<close>), and
  \<open>utf8_width\<close> gives the number of bytes each occupies.  \<open>&s[..i]\<close>
  takes the first \<open>i\<close> \<^emph>\<open>bytes\<close>: \<open>take_bytes\<close> returns the characters
  they hold, or \<open>None\<close> when byte \<open>i\<close> falls inside a character;
  \<open>slice_to\<close> panics there, and on an index past the end.  The panics
  carry the byte index; the rest of Rust's message (the string, and the
  character the index falls in) is not modelled.  \<open>first_word\<close> is the loop over
  \<open>s.chars().enumerate()\<close>: the enumeration index, a character count, is
  used as the byte index of the slice.  \<open>first_word_spec\<close> is what the
  function is meant to return: the characters before the first space.
\<close>

section \<open>Strings as scalar values\<close>

type_synonym uchar = nat
type_synonym ustring = "uchar list"

definition utf8_width :: "uchar \<Rightarrow> nat" where
  "utf8_width c = (if c < 0x80 then 1 else if c < 0x800 then 2 else if c < 0x10000 then 3 else 4)"

definition byte_len :: "ustring \<Rightarrow> nat" where
  "byte_len s = sum_list (map utf8_width s)"

fun take_bytes :: "nat \<Rightarrow> ustring \<Rightarrow> ustring option" where
  "take_bytes 0 cs = Some []"
| "take_bytes (Suc n) [] = None"
| "take_bytes (Suc n) (c # cs) =
     (if utf8_width c \<le> Suc n then map_option (Cons c) (take_bytes (Suc n - utf8_width c) cs)
      else None)"

definition slice_to :: "ustring \<Rightarrow> nat \<Rightarrow> ustring outcome" where
  "slice_to s i =
     (if byte_len s < i then Inl (StrIndexOutOfBounds i)
      else case take_bytes i s of None \<Rightarrow> Inl (StrNotCharBoundary i) | Some r \<Rightarrow> Inr r)"

definition space :: uchar where
  "space = 32"

section \<open>\<open>first_word\<close>\<close>

fun first_word_from :: "ustring \<Rightarrow> nat \<Rightarrow> ustring \<Rightarrow> ustring outcome" where
  "first_word_from s i [] = Inr s"
| "first_word_from s i (c # cs) = (if c = space then slice_to s i else first_word_from s (Suc i) cs)"

definition first_word :: "ustring \<Rightarrow> ustring outcome" where
  "first_word s = first_word_from s 0 s"

definition first_word_spec :: "ustring \<Rightarrow> ustring" where
  "first_word_spec s = takeWhile (\<lambda>c. c \<noteq> space) s"

text \<open>\<open>main\<close>: the three words it prints, or the panic.\<close>

definition ustr :: "string \<Rightarrow> ustring" where
  "ustr s = map of_char s"

definition first_word_main :: "ustring list outcome" where
  "first_word_main =
     then_run (first_word (ustr ''marceloboeira'')) (\<lambda>w1.
     then_run (first_word (ustr ''marcelo boeira'')) (\<lambda>w2.
     then_run (first_word (ustr '' boeira'')) (\<lambda>w3. Inr [w1, w2, w3])))"

section \<open>Lemmas\<close>

lemma utf8_width_pos: "0 < utf8_width c"
  by (simp add: utf8_width_def)

lemma utf8_width_ascii: "c < 0x80 \<Longrightarrow> utf8_width c = 1"
  by (simp add: utf8_width_def)

lemma take_bytes_ascii:
  "i \<le> length s \<Longrightarrow> \<forall>c \<in> set (take i s). c < 0x80 \<Longrightarrow> take_bytes i s = Some (take i s)"
proof (induction i s rule: take_bytes.induct)
  case (3 n c cs)
  then show ?case by (simp add: utf8_width_ascii)
qed simp_all

lemma take_bytes_prefix: "take_bytes i s = Some r \<Longrightarrow> prefix r s"
  by (induction i s arbitrary: r rule: take_bytes.induct) (auto split: if_splits)

lemma take_bytes_bound: "take_bytes i s = Some r \<Longrightarrow> i \<le> byte_len s"
  by (induction i s arbitrary: r rule: take_bytes.induct) (auto simp: byte_len_def split: if_splits)

lemma first_word_from_no_space: "space \<notin> set cs \<Longrightarrow> first_word_from s i cs = Inr s"
  by (induction cs arbitrary: i) auto

lemma byte_len_prefix_le: "prefix r s \<Longrightarrow> byte_len r \<le> byte_len s"
  by (auto simp: prefix_def byte_len_def)

lemma first_word_from_prefix:
  "first_word_from s i cs = Inr r \<Longrightarrow> prefix r s"
  by (induction s i cs rule: first_word_from.induct)
     (auto simp: slice_to_def take_bytes_prefix split: if_splits option.splits)

lemma first_word_from_suffix:
  "s = xs @ cs \<Longrightarrow> i = length xs \<Longrightarrow> space \<notin> set xs \<Longrightarrow> \<forall>c \<in> set (takeWhile (\<lambda>c. c \<noteq> space) s). c < 0x80 \<Longrightarrow>
   first_word_from s i cs = Inr (takeWhile (\<lambda>c. c \<noteq> space) s)"
proof (induction cs arbitrary: xs i)
  case Nil
  then have "takeWhile (\<lambda>c. c \<noteq> space) xs = xs" by auto
  with Nil show ?case by (simp del: takeWhile_eq_all_conv)
next
  case (Cons c cs)
  show ?case
  proof (cases "c = space")
    case True
    have tw: "takeWhile (\<lambda>c. c \<noteq> space) s = xs"
    proof -
      have "takeWhile (\<lambda>c. c \<noteq> space) (xs @ c # cs) = xs @ takeWhile (\<lambda>c. c \<noteq> space) (c # cs)"
        using Cons.prems(3) by (intro takeWhile_append2) auto
      then show ?thesis using Cons.prems(1) True by simp
    qed
    then have tb: "take_bytes i s = Some (take i s)"
      using Cons.prems by (intro take_bytes_ascii) simp_all
    then have "i \<le> byte_len s" by (rule take_bytes_bound)
    then show ?thesis using tb True tw Cons.prems(1,2) by (simp add: slice_to_def)
  next
    case False
    have "first_word_from s (Suc i) cs = Inr (takeWhile (\<lambda>c. c \<noteq> space) s)"
      using Cons.prems False by (intro Cons.IH [of "xs @ [c]"]) simp_all
    then show ?thesis using False by simp
  qed
qed

lemma take_bytes_len: "take_bytes i s = Some r \<Longrightarrow> byte_len r = i"
  by (induction i s arbitrary: r rule: take_bytes.induct)
     (auto simp: byte_len_def split: if_splits)

lemma length_le_byte_len: "length xs \<le> byte_len xs"
proof (induction xs)
  case (Cons a xs)
  then show ?case using utf8_width_pos [of a] by (simp add: byte_len_def)
qed (simp add: byte_len_def)

lemma byte_len_gt_length: "\<exists>c \<in> set xs. 0x80 \<le> c \<Longrightarrow> length xs < byte_len xs"
proof (induction xs)
  case Nil
  then show ?case by simp
next
  case (Cons x xs)
  have "length xs \<le> byte_len xs" by (rule length_le_byte_len)
  then show ?case
    using Cons by (cases "0x80 \<le> x") (auto simp: byte_len_def utf8_width_def)
qed

lemma first_word_from_space:
  "space \<notin> set xs \<Longrightarrow> first_word_from s i (xs @ space # cs) = slice_to s (i + length xs)"
  by (induction xs arbitrary: i) auto

lemma first_word_spec_split:
  "space \<in> set s \<Longrightarrow> \<exists>cs. s = first_word_spec s @ space # cs \<and> space \<notin> set (first_word_spec s)"
  unfolding first_word_spec_def
  by (induction s) (auto simp: takeWhile_eq_all_conv)

lemma take_bytes_complete: "prefix r s \<Longrightarrow> take_bytes (byte_len r) s = Some r"
proof (induction r arbitrary: s)
  case Nil
  then show ?case by (simp add: byte_len_def)
next
  case (Cons c r)
  then obtain s' where s: "s = c # s'" and p: "prefix r s'"
    by (auto simp: prefix_def)
  have bl: "byte_len (c # r) = utf8_width c + byte_len r" by (simp add: byte_len_def)
  obtain n where n: "utf8_width c + byte_len r = Suc n"
    using utf8_width_pos [of c] by (cases "utf8_width c + byte_len r") auto
  then have w: "utf8_width c \<le> Suc n" and rest: "Suc n - utf8_width c = byte_len r" by auto
  show ?case using Cons.IH [OF p] by (simp add: s bl n w rest)
qed

lemma take_bytes_Some_iff: "take_bytes i s = Some r \<longleftrightarrow> prefix r s \<and> byte_len r = i"
  using take_bytes_prefix [of i s r] take_bytes_len [of i s r] take_bytes_complete [of r s] by auto

lemma take_bytes_None_iff: "take_bytes i s = None \<longleftrightarrow> (\<nexists>r. prefix r s \<and> byte_len r = i)"
  using take_bytes_Some_iff [of i s] by (cases "take_bytes i s") auto

section \<open>Properties\<close>

text \<open>
  C19.  When the text before the first space is ASCII, \<open>first_word\<close>
  returns exactly that text (the whole string when there is no space).
\<close>

theorem first_word_ascii:
  "\<forall>c \<in> set (first_word_spec s). c < 0x80 \<Longrightarrow> first_word s = Inr (first_word_spec s)"
  using first_word_from_suffix [of s "[]" s 0]
  by (simp add: first_word_def first_word_spec_def)

theorem first_word_ascii_witness:
  "first_word (ustr ''marcelo boeira'') = Inr (ustr ''marcelo'')"
proof -
  have "first_word_spec (ustr ''marcelo boeira'') = ustr ''marcelo''"
    by (simp add: first_word_spec_def ustr_def space_def)
  moreover have "\<forall>c \<in> set (ustr ''marcelo''). c < 0x80"
    by (simp add: ustr_def)
  ultimately show ?thesis using first_word_ascii [of "ustr ''marcelo boeira''"] by simp
qed

text \<open>
  C20.  When the string has a space and the text before it holds a
  character outside ASCII, \<open>first_word\<close> does not return that text: the
  character index of the space is used as a byte offset, which falls short of
  the multi-byte prefix (the slice is too short, or cuts a character and
  panics).
\<close>

theorem first_word_non_ascii:
  "space \<in> set s \<Longrightarrow> \<exists>c \<in> set (first_word_spec s). 0x80 \<le> c \<Longrightarrow>
   first_word s \<noteq> Inr (first_word_spec s)"
proof
  assume sp: "space \<in> set s" and wide: "\<exists>c \<in> set (first_word_spec s). 0x80 \<le> c"
    and eq: "first_word s = Inr (first_word_spec s)"
  obtain cs where s: "s = first_word_spec s @ space # cs" and ns: "space \<notin> set (first_word_spec s)"
    using first_word_spec_split [OF sp] by blast
  have "first_word s = slice_to s (length (first_word_spec s))"
    using first_word_from_space [OF ns, of s 0 cs] s by (simp add: first_word_def)
  with eq have "take_bytes (length (first_word_spec s)) s = Some (first_word_spec s)"
    by (simp add: slice_to_def split: if_splits option.splits)
  then have "byte_len (first_word_spec s) = length (first_word_spec s)"
    by (rule take_bytes_len)
  with byte_len_gt_length [OF wide] show False by simp
qed

theorem first_word_non_ascii_witness:
  "first_word [233, 97, 32, 98] \<noteq> Inr [233, 97]"
proof -
  have "first_word_spec [233, 97, 32, 98] = [233, 97]"
    by (simp add: first_word_spec_def space_def)
  then show ?thesis
    using first_word_non_ascii [of "[233, 97, 32, 98]"] by (simp add: space_def)
qed

text \<open>
  C21.  \<open>first_word\<close> panics exactly when the string has a space and the
  number of characters before it is not a byte offset that ends whole
  characters, and then with that character count as the byte index; the
  slice index never exceeds the length, so it never panics out of bounds.
\<close>

theorem first_word_panics_iff:
  "first_word s = Inl e \<longleftrightarrow>
     space \<in> set s \<and> e = StrNotCharBoundary (length (first_word_spec s))
     \<and> (\<nexists>r. prefix r s \<and> byte_len r = length (first_word_spec s))"
proof (cases "space \<in> set s")
  case False
  then show ?thesis by (simp add: first_word_def first_word_from_no_space)
next
  case True
  then obtain cs where s: "s = first_word_spec s @ space # cs" and ns: "space \<notin> set (first_word_spec s)"
    using first_word_spec_split by blast
  have fw: "first_word s = slice_to s (length (first_word_spec s))"
    using first_word_from_space [OF ns, of s 0 cs] s by (simp add: first_word_def)
  have "length (first_word_spec s) \<le> byte_len s"
    using length_le_byte_len [of "first_word_spec s"] byte_len_prefix_le [of "first_word_spec s" s] s
    by (metis order.trans prefixI)
  then show ?thesis
    using True take_bytes_None_iff [of "length (first_word_spec s)" s]
    by (auto simp: fw slice_to_def split: option.split)
qed

text \<open>
  A slice is always valid UTF-8: \<open>&s[..i]\<close> returns exactly when byte
  \<open>i\<close> is a character boundary of \<open>s\<close> (the end of a prefix of whole
  characters), and then returns that prefix; it panics on an index past the
  end, and on one inside a character.
\<close>

lemma slice_to_outcome:
  "(slice_to s i = Inr r \<longleftrightarrow> prefix r s \<and> byte_len r = i) \<and>
   (slice_to s i = Inl (StrIndexOutOfBounds i) \<longleftrightarrow> byte_len s < i) \<and>
   (slice_to s i = Inl (StrNotCharBoundary i) \<longleftrightarrow> i \<le> byte_len s \<and> (\<nexists>r. prefix r s \<and> byte_len r = i))"
proof (cases "byte_len s < i")
  case True
  have "\<not> (prefix r s \<and> byte_len r = i)"
  proof
    assume "prefix r s \<and> byte_len r = i"
    then have "take_bytes i s = Some r" by (simp add: take_bytes_Some_iff)
    then show False using True take_bytes_bound [of i s r] by simp
  qed
  then show ?thesis using True by (simp add: slice_to_def)
next
  case False
  show ?thesis
  proof (cases "take_bytes i s")
    case None
    then show ?thesis using False take_bytes_None_iff [of i s] by (auto simp: slice_to_def)
  next
    case (Some r0)
    then have "prefix r0 s \<and> byte_len r0 = i" by (simp add: take_bytes_Some_iff)
    moreover have "r0 = r \<longleftrightarrow> prefix r s \<and> byte_len r = i"
      using Some take_bytes_Some_iff [of i s r] by auto
    ultimately show ?thesis using Some False by (auto simp: slice_to_def)
  qed
qed

text \<open>\<open>main\<close> prints \<open>marceloboeira\<close>, \<open>marcelo\<close> and the empty word.\<close>

theorem first_word_main_output:
  "first_word_main = Inr [ustr ''marceloboeira'', ustr ''marcelo'', []]"
  by (simp add: first_word_main_def first_word_def ustr_def space_def slice_to_def utf8_width_def byte_len_def)

end
