(* ===== verification/Generics.thy ===== *)
theory Generics
  imports Rust_Float "HOL-Library.Char_ord"
begin

text \<open>
  \<open>src/chapters/chapter-10/generics2.rs\<close> and \<open>generics6.rs\<close>.
  \<open>largest<T>\<close> is modelled for a type with a linear order, which is what
  the body needs: it compares with \<open>>\<close> and copies elements out of the
  slice, so it compiles only with the bounds \<open>T: PartialOrd + Copy\<close> that
  the source omits (\<open>i32\<close> and \<open>char\<close>, its two instances, are linearly
  ordered).  An \<open>i32\<close> is compared by its signed value \<open>sint\<close>, as
  Rust's \<open>PartialOrd\<close> on \<open>i32\<close> does (the order of a HOL word is the
  unsigned one), and a \<open>char\<close> of ASCII by its byte.  \<open>list[0]\<close> panics on an empty slice; the \<open>for\<close> loop is
  \<open>largest_loop\<close> over the whole slice, first element included.  The
  struct \<open>Point<T>\<close> is the record \<open>point\<close> with its accessor methods.
  Its \<open>f32\<close> method \<open>distance_from_origin\<close> is computed in single
  precision (\<open>f32_fmt\<close> of \<open>Rust_Float\<close>): \<open>powi(2)\<close> is one rounded
  product \<open>x * x\<close>, then a rounded sum and a correctly rounded square
  root; \<open>main\<close> prints it with \<open>Display\<close>.
\<close>

section \<open>\<open>largest\<close>\<close>

fun largest_loop :: "'a::linorder \<Rightarrow> 'a list \<Rightarrow> 'a" where
  "largest_loop l [] = l"
| "largest_loop l (item # items) = largest_loop (if item > l then item else l) items"

definition largest :: "'a::linorder list \<Rightarrow> 'a outcome" where
  "largest list =
     (case list of
        [] \<Rightarrow> Inl (IndexOutOfBounds 0 0)
      | l # _ \<Rightarrow> Inr (largest_loop l list))"

definition largest_main :: "string list outcome" where
  "largest_main =
     then_run (largest (map sint [34, 50, 25, 100, 65 :: i32])) (\<lambda>result.
     then_run (largest [CHR ''y'', CHR ''m'', CHR ''a'', CHR ''q'']) (\<lambda>cresult.
       Inr [''The largest number is '' @ show_int result, ''The largest char is '' @ [cresult]]))"

section \<open>\<open>Point<T>\<close>\<close>

record 'a point =
  px :: 'a
  py :: 'a

definition point_x :: "'a point \<Rightarrow> 'a" where
  "point_x self = px self"

definition point_y :: "i32 point \<Rightarrow> i32" where
  "point_y self = py self"

definition powi2 :: "fval \<Rightarrow> fval" where
  "powi2 x = fmul f32_fmt x x"

definition distance_from_origin :: "fval point \<Rightarrow> fval" where
  "distance_from_origin self = fsqrt f32_fmt (fadd f32_fmt (powi2 (px self)) (powi2 (py self)))"

definition generics6_main :: "string list" where
  "generics6_main =
     (let p = \<lparr>px = 5 :: i32, py = 10\<rparr>;
          f = \<lparr>px = Fin 5, py = Fin 10\<rparr>
      in [''p.y = '' @ show_signed (point_y p), ''f.distance = '' @ display_float f32_fmt (distance_from_origin f)])"

section \<open>Lemmas\<close>

lemma largest_loop_fold: "largest_loop l xs = fold max xs l"
proof (induction l xs rule: largest_loop.induct)
  case (2 l item items)
  have "(if item > l then item else l) = max item l" by (auto simp: max_def)
  with "2.IH" show ?case by simp
qed simp

lemma largest_loop_max: "largest_loop l xs = Max (set (l # xs))"
  by (simp only: largest_loop_fold Max.set_eq_fold)

section \<open>Properties\<close>

text \<open>
  C22.  \<open>largest\<close> panics on an empty slice (index 0 of length 0) and
  otherwise returns the maximum of the slice's elements.
\<close>

theorem largest_eq_Max:
  "largest xs = (if xs = [] then Inl (IndexOutOfBounds 0 0) else Inr (Max (set xs)))"
  by (cases xs) (simp_all add: largest_def largest_loop_max insert_absorb)

text \<open>\<open>main\<close> prints 100 as the largest number and \<open>y\<close> as the largest char.\<close>

theorem largest_main_output:
  "largest_main = Inr [''The largest number is 100'', ''The largest char is y'']"
  by (simp add: largest_main_def largest_def display_defs less_char_def)

text \<open>
  \<open>main\<close> of \<open>generics6.rs\<close> prints \<open>10\<close> and the single precision
  distance of \<open>(5, 10)\<close>, \<open>sqrt 125\<close> rounded to \<open>f32\<close>, whose shortest
  decimal has seven significant digits.
\<close>

lemma generics6_main_output: "generics6_main = [''p.y = 10'', ''f.distance = 11.18034'']"
  by code_simp

end
