(* ===== verification/Enums.thy ===== *)
theory Enums
  imports Prelude
begin

text \<open>
  The enum and \<open>match\<close> examples of \<open>src/chapters/chapter-6\<close>.  Each Rust
  \<open>enum\<close> is a datatype with the source's variants (suffixed where two
  examples reuse a name); a function that only prints returns the line it
  prints, and each \<open>main\<close> returns the list of its lines.  Integers keep
  their width: \<open>sum_optionals\<close> adds two \<open>i8\<close> in a debug build, where the
  addition panics on overflow.  \<open>to_cents8\<close> of \<open>example8.rs\<close> extends
  \<open>to_cents\<close> of \<open>example7.rs\<close> with a state on the quarter and a print.
\<close>

section \<open>IP addresses (examples 1 to 4)\<close>

datatype ip_addr_kind = V4 | V6

fun print_iptype :: "ip_addr_kind \<Rightarrow> string" where
  "print_iptype V4 = ''This is version is 4''"
| "print_iptype V6 = ''This is version is 6''"

definition example1_main :: "string list" where
  "example1_main = [print_iptype V4, print_iptype V6]"

record ip_addr =
  kind :: ip_addr_kind
  address :: string

definition print_ip2 :: "ip_addr \<Rightarrow> string" where
  "print_ip2 ip = (case kind ip of V4 \<Rightarrow> ''IPV4: '' @ address ip | V6 \<Rightarrow> ''IPV6: '' @ address ip)"

definition example2_main :: "string list" where
  "example2_main =
     [print_ip2 \<lparr>kind = V4, address = ''127.0.0.1''\<rparr>, print_ip2 \<lparr>kind = V6, address = ''::1''\<rparr>]"

datatype ip_addr3 = Addr3_V4 string | Addr3_V6 string

fun print_ip3 :: "ip_addr3 \<Rightarrow> string" where
  "print_ip3 (Addr3_V4 addr) = ''IPV4: '' @ addr"
| "print_ip3 (Addr3_V6 addr) = ''IPV6: '' @ addr"

definition ip3_main :: "string list" where
  "ip3_main = [print_ip3 (Addr3_V4 ''127.0.0.1''), print_ip3 (Addr3_V6 ''::1'')]"

datatype ip_addr4 = Addr4_V4 u8 u8 u8 u8 | Addr4_V6 string

fun print_ip4 :: "ip_addr4 \<Rightarrow> string" where
  "print_ip4 (Addr4_V4 a b c d) =
     ''IPV4: '' @ show_unsigned a @ '':'' @ show_unsigned b @ '':'' @ show_unsigned c @ '':'' @ show_unsigned d"
| "print_ip4 (Addr4_V6 addr) = ''IPV6: '' @ addr"

definition example4_main :: "string list" where
  "example4_main = [print_ip4 (Addr4_V4 127 0 0 1), print_ip4 (Addr4_V6 ''::1'')]"

section \<open>Messages (examples 5 and 9 of chapter 8)\<close>

datatype message = Quit | Move i32 i32 | Write string | ChangeColor i32 i32 i32

fun message_call :: "message \<Rightarrow> string" where
  "message_call Quit = ''Quit''"
| "message_call (Move x y) = ''Move with x: '' @ show_signed x @ '' y: '' @ show_signed y"
| "message_call (Write m) = ''Write with '' @ m"
| "message_call (ChangeColor a b c) =
     ''ChangeColor with a: '' @ show_signed a @ '', b: '' @ show_signed b @ '', c: '' @ show_signed c"

definition example5_main :: "string list" where
  "example5_main = map message_call [Quit, Move 10 20, Write ''marcelo'', ChangeColor 10 20 30]"

text \<open>
  The four structs declared beside the enum, one per variant (a unit
  struct, a struct with named fields and two tuple structs); \<open>main\<close> does
  not use them.  \<open>message_of_structs\<close> and \<open>structs_of_message\<close> relate
  them to the variants: the enum holds exactly the data of the four structs.
\<close>

datatype quit_message = QuitMessage

record move_message =
  mm_x :: i32
  mm_y :: i32

datatype write_message = WriteMessage string

datatype change_color_message = ChangeColorMessage i32 i32 i32

type_synonym message_structs = "quit_message + move_message + write_message + change_color_message"

fun message_of_structs :: "message_structs \<Rightarrow> message" where
  "message_of_structs (Inl QuitMessage) = Quit"
| "message_of_structs (Inr (Inl m)) = Move (mm_x m) (mm_y m)"
| "message_of_structs (Inr (Inr (Inl (WriteMessage s)))) = Write s"
| "message_of_structs (Inr (Inr (Inr (ChangeColorMessage a b c)))) = ChangeColor a b c"

fun structs_of_message :: "message \<Rightarrow> message_structs" where
  "structs_of_message Quit = Inl QuitMessage"
| "structs_of_message (Move x y) = Inr (Inl \<lparr>mm_x = x, mm_y = y\<rparr>)"
| "structs_of_message (Write s) = Inr (Inr (Inl (WriteMessage s)))"
| "structs_of_message (ChangeColor a b c) = Inr (Inr (Inr (ChangeColorMessage a b c)))"

section \<open>\<open>sum_optionals\<close> (example 6)\<close>

fun sum_optionals :: "i8 option \<Rightarrow> i8 option \<Rightarrow> i8 outcome" where
  "sum_optionals None None = Inr 0"
| "sum_optionals (Some x) (Some y) = checked_add x y"
| "sum_optionals (Some x) None = Inr x"
| "sum_optionals None (Some x) = Inr x"

definition sum_optionals_main :: "string list outcome" where
  "sum_optionals_main =
     then_run (sum_optionals None None) (\<lambda>a.
     then_run (sum_optionals (Some 10) None) (\<lambda>b.
     then_run (sum_optionals None (Some 20)) (\<lambda>c.
     then_run (sum_optionals (Some 20) (Some 30)) (\<lambda>d.
       Inr (map show_signed [a, b, c, d])))))"

section \<open>Coins (examples 7 and 8)\<close>

datatype coin = Penny | Nickel | Dime | Quarter

fun to_cents :: "coin \<Rightarrow> u32" where
  "to_cents Penny = 1"
| "to_cents Nickel = 5"
| "to_cents Dime = 10"
| "to_cents Quarter = 25"

datatype us_state = Alabama | Alaska

fun us_state_debug :: "us_state \<Rightarrow> string" where
  "us_state_debug Alabama = ''Alabama''"
| "us_state_debug Alaska = ''Alaska''"

datatype coin8 = Penny8 | Nickel8 | Dime8 | Quarter8 us_state

fun to_cents8 :: "coin8 \<Rightarrow> string list \<times> u32" where
  "to_cents8 Penny8 = ([], 1)"
| "to_cents8 Nickel8 = ([], 5)"
| "to_cents8 Dime8 = ([], 10)"
| "to_cents8 (Quarter8 state) = ([''State quarter from '' @ us_state_debug state @ ''!''], 25)"

definition coins7_main :: "string list" where
  "coins7_main = map (\<lambda>c. show_unsigned (to_cents c) @ '' cents'') [Penny, Nickel, Dime, Quarter]"

definition coins8_main :: "string list" where
  "coins8_main =
     concat (map (\<lambda>c. case to_cents8 c of (printed, v) \<Rightarrow> printed @ [show_unsigned v @ '' cents''])
                 [Penny8, Nickel8, Dime8, Quarter8 Alabama])"

text \<open>The coin of example 7 that a coin of example 8 is, its state forgotten.\<close>

fun coin8_plain :: "coin8 \<Rightarrow> coin" where
  "coin8_plain Penny8 = Penny"
| "coin8_plain Nickel8 = Nickel"
| "coin8_plain Dime8 = Dime"
| "coin8_plain (Quarter8 _) = Quarter"

section \<open>Properties\<close>

text \<open>
  When \<open>sum_optionals\<close> returns, its result is the sum of the values
  present, as integers, a missing value counting as zero.
\<close>

lemma sum_optionals_value:
  "sum_optionals a b = Inr r \<Longrightarrow>
   sint r = (case a of Some x \<Rightarrow> sint x | None \<Rightarrow> 0) + (case b of Some y \<Rightarrow> sint y | None \<Rightarrow> 0)"
  by (cases a; cases b) (auto simp: checked_add_Inr_sint)

text \<open>
  C24.  \<open>sum_optionals\<close> in full: it panics with an addition overflow
  exactly when both arguments are present and their sum leaves the range of
  \<open>i8\<close>, \<open>-128 .. 127\<close>; otherwise it returns the sum of the values
  present, a missing value counting as zero, without wrapping.
\<close>

theorem sum_optionals_spec:
  "sum_optionals a b =
     (let x = case_option 0 id a; y = case_option 0 id b in
      if a \<noteq> None \<and> b \<noteq> None \<and> \<not> (-128 \<le> sint x + sint y \<and> sint x + sint y \<le> 127)
      then Inl AddOverflow
      else Inr (x + y)) \<and>
   (sum_optionals a b = Inr r \<longrightarrow> sint r = sint (case_option 0 id a) + sint (case_option 0 id b))"
proof
  show "sum_optionals a b =
     (let x = case_option 0 id a; y = case_option 0 id b in
      if a \<noteq> None \<and> b \<noteq> None \<and> \<not> (-128 \<le> sint x + sint y \<and> sint x + sint y \<le> 127)
      then Inl AddOverflow
      else Inr (x + y))"
  proof (cases a)
    case None
    then show ?thesis by (cases b) simp_all
  next
    case (Some x)
    then show ?thesis by (cases b) (simp_all add: checked_add_def signed_fits_def)
  qed
  show "sum_optionals a b = Inr r \<longrightarrow> sint r = sint (case_option 0 id a) + sint (case_option 0 id b)"
  proof
    assume "sum_optionals a b = Inr r"
    from sum_optionals_value [OF this]
    show "sint r = sint (case_option 0 id a) + sint (case_option 0 id b)" by (simp split: option.split)
  qed
qed

theorem sum_optionals_spec_witness:
  "sum_optionals (Some 20) (Some 30) = Inr 50 \<and> sint (50 :: i8) = sint (20 :: i8) + sint (30 :: i8)"
proof -
  have s: "sum_optionals (Some 20) (Some 30) = Inr (50 :: i8)"
    by (simp add: checked_add_def signed_fits_def)
  show ?thesis using s sum_optionals_spec [of "Some 20" "Some 30" 50] by simp
qed

lemma sum_optionals_value_witness:
  "sum_optionals (Some 20) (Some 30) = Inr 50 \<and> sint (50 :: i8) = 20 + 30"
proof -
  have s: "sum_optionals (Some 20) (Some 30) = Inr (50 :: i8)"
    by (simp add: checked_add_def signed_fits_def)
  show ?thesis using s sum_optionals_value [OF s] by simp
qed

text \<open>
  The coins of example 8 refine those of example 7: forgetting the
  state of a quarter, \<open>to_cents8\<close> returns the value \<open>to_cents\<close> returns, and
  it prints exactly for quarters.
\<close>

lemma to_cents8_refines:
  "snd (to_cents8 c) = to_cents (coin8_plain c) \<and>
   (fst (to_cents8 c) \<noteq> [] \<longleftrightarrow> coin8_plain c = Quarter)"
  by (cases c) simp_all

section \<open>Messages and their structs\<close>

text \<open>
  The variants of \<open>Message\<close> and the four structs carry the same data:
  the two translations are inverse bijections.
\<close>

lemma message_structs_inverse:
  "message_of_structs (structs_of_message m) = m" "structs_of_message (message_of_structs s) = s"
proof -
  show "message_of_structs (structs_of_message m) = m" by (cases m) simp_all
  show "structs_of_message (message_of_structs s) = s"
    by (induction s rule: message_of_structs.induct) simp_all
qed

lemma message_of_structs_bij: "bij message_of_structs"
  by (rule o_bij [of structs_of_message]) (simp_all add: fun_eq_iff message_structs_inverse)

end
