(* ===== verification/Threads.thy ===== *)
theory Threads
  imports Prelude
begin

text \<open>
  \<open>src/chapters/chapter-16/example02.rs\<close>.  \<open>main\<close> spawns two threads;
  each prints \<open>T1: i\<close> (resp. \<open>T2: i\<close>) for \<open>i\<close> in \<open>1..100\<close>, sleeping
  after each line, and \<open>main\<close> sleeps one second and returns, which ends the
  process whether or not the threads are done (their handles are never
  joined).  The scheduler is not modelled: the state \<open>thr_state\<close> records
  the next value of each loop counter and the lines printed so far, and
  \<open>thr_step\<close> lets either thread print its next line.  The possible outputs
  of the program are the outputs of the states \<open>thr_reachable\<close> from the
  start, since the process may end in any of them.
\<close>

section \<open>The two threads\<close>

record thr_state =
  next1 :: nat
  next2 :: nat
  printed :: "string list"

definition thread_line :: "string \<Rightarrow> nat \<Rightarrow> string" where
  "thread_line t i = t @ '': '' @ show_nat i"

definition thr_init :: thr_state where
  "thr_init = \<lparr>next1 = 1, next2 = 1, printed = []\<rparr>"

inductive thr_step :: "thr_state \<Rightarrow> thr_state \<Rightarrow> bool" where
  t1: "next1 s < 100 \<Longrightarrow>
       thr_step s (s\<lparr>next1 := Suc (next1 s), printed := printed s @ [thread_line ''T1'' (next1 s)]\<rparr>)"
| t2: "next2 s < 100 \<Longrightarrow>
       thr_step s (s\<lparr>next2 := Suc (next2 s), printed := printed s @ [thread_line ''T2'' (next2 s)]\<rparr>)"

inductive thr_reachable :: "thr_state \<Rightarrow> bool" where
  init: "thr_reachable thr_init"
| step: "thr_reachable s \<Longrightarrow> thr_step s t \<Longrightarrow> thr_reachable t"

text \<open>A line printed by the thread named \<open>t\<close>.\<close>

definition from_thread :: "string \<Rightarrow> string \<Rightarrow> bool" where
  "from_thread t l \<longleftrightarrow> prefix (t @ '': '') l"

text \<open>
  The invariant: both counters stay in \<open>1 .. 100\<close>, each thread's lines
  appear in the printed in the order it printed them, and there are no other
  lines.
\<close>

definition thr_inv :: "thr_state \<Rightarrow> bool" where
  "thr_inv s \<longleftrightarrow>
     1 \<le> next1 s \<and> next1 s \<le> 100 \<and> 1 \<le> next2 s \<and> next2 s \<le> 100 \<and>
     filter (from_thread ''T1'') (printed s) = map (thread_line ''T1'') [1..<next1 s] \<and>
     filter (from_thread ''T2'') (printed s) = map (thread_line ''T2'') [1..<next2 s] \<and>
     length (printed s) = (next1 s - 1) + (next2 s - 1) \<and>
     (\<forall>l \<in> set (printed s). from_thread ''T1'' l \<or> from_thread ''T2'' l)"

section \<open>Lemmas\<close>

lemma from_thread_line:
  "from_thread t (thread_line t' i) \<longleftrightarrow> t = t'" if "t \<in> {''T1'', ''T2''}" "t' \<in> {''T1'', ''T2''}"
  using that by (auto simp: from_thread_def thread_line_def)

lemma thr_inv_init: "thr_inv thr_init"
  by (simp add: thr_inv_def thr_init_def)

lemma thr_step_inv: "thr_step s t \<Longrightarrow> thr_inv s \<Longrightarrow> thr_inv t"
  by (induction rule: thr_step.induct) (auto simp: thr_inv_def from_thread_line)

lemma thr_reachable_inv: "thr_reachable s \<Longrightarrow> thr_inv s"
proof (induction rule: thr_reachable.induct)
  case init
  show ?case by (rule thr_inv_init)
next
  case (step s t)
  then show ?case by (blast intro: thr_step_inv)
qed

lemma filter_line_mem:
  "filter (from_thread t) xs = ys \<Longrightarrow> x \<in> set xs \<Longrightarrow> from_thread t x \<Longrightarrow> x \<in> set ys"
  by auto

text \<open>One reachable state: \<open>T2\<close> prints its first line, then \<open>T1\<close>.\<close>

lemma thr_reachable_two:
  "thr_reachable \<lparr>next1 = 2, next2 = 2, printed = [''T2: 1'', ''T1: 1'']\<rparr>"
proof -
  let ?s1 = "thr_init\<lparr>next2 := 2, printed := [thread_line ''T2'' 1]\<rparr>"
  have r1: "thr_reachable ?s1"
    using thr_reachable.step [OF thr_reachable.init thr_step.t2 [of thr_init]]
    by (simp add: thr_init_def numeral_2_eq_2)
  have r2: "thr_reachable (?s1\<lparr>next1 := 2, printed := [thread_line ''T2'' 1, thread_line ''T1'' 1]\<rparr>)"
    using thr_reachable.step [OF r1 thr_step.t1 [of ?s1]] by (simp add: thr_init_def numeral_2_eq_2)
  have l: "thread_line ''T1'' (Suc 0) = ''T1: 1''" "thread_line ''T2'' (Suc 0) = ''T2: 1''"
    by (simp_all add: thread_line_def display_defs)
  show ?thesis
    using r2 by (simp add: thr_init_def l)
qed

text \<open>
  Either thread can run its loop on by itself: from a reachable state, the
  first (second) thread alone can print its lines up to any \<open>k \<le> 100\<close>.
\<close>

lemma thr_run1:
  "thr_reachable s \<Longrightarrow> next1 s + d \<le> 100 \<Longrightarrow>
   thr_reachable (s\<lparr>next1 := next1 s + d, printed := printed s @ map (thread_line ''T1'') [next1 s..<next1 s + d]\<rparr>)"
proof (induction d)
  case 0
  then show ?case by simp
next
  case (Suc d)
  let ?u = "s\<lparr>next1 := next1 s + d, printed := printed s @ map (thread_line ''T1'') [next1 s..<next1 s + d]\<rparr>"
  have "thr_reachable ?u" using Suc by simp
  moreover have "thr_step ?u (?u\<lparr>next1 := Suc (next1 s + d), printed := printed ?u @ [thread_line ''T1'' (next1 s + d)]\<rparr>)"
    using thr_step.t1 [of ?u] Suc.prems(2) by simp
  ultimately have "thr_reachable (?u\<lparr>next1 := Suc (next1 s + d), printed := printed ?u @ [thread_line ''T1'' (next1 s + d)]\<rparr>)"
    by (rule thr_reachable.step)
  then show ?case by simp
qed

lemma thr_run2:
  "thr_reachable s \<Longrightarrow> next2 s + d \<le> 100 \<Longrightarrow>
   thr_reachable (s\<lparr>next2 := next2 s + d, printed := printed s @ map (thread_line ''T2'') [next2 s..<next2 s + d]\<rparr>)"
proof (induction d)
  case 0
  then show ?case by simp
next
  case (Suc d)
  let ?u = "s\<lparr>next2 := next2 s + d, printed := printed s @ map (thread_line ''T2'') [next2 s..<next2 s + d]\<rparr>"
  have "thr_reachable ?u" using Suc by simp
  moreover have "thr_step ?u (?u\<lparr>next2 := Suc (next2 s + d), printed := printed ?u @ [thread_line ''T2'' (next2 s + d)]\<rparr>)"
    using thr_step.t2 [of ?u] Suc.prems(2) by simp
  ultimately have "thr_reachable (?u\<lparr>next2 := Suc (next2 s + d), printed := printed ?u @ [thread_line ''T2'' (next2 s + d)]\<rparr>)"
    by (rule thr_reachable.step)
  then show ?case by simp
qed

text \<open>The state in which \<open>T1\<close> ran to the end, then \<open>T2\<close>.\<close>

lemma thr_reachable_final:
  "thr_reachable \<lparr>next1 = 100, next2 = 100,
     printed = map (thread_line ''T1'') [1..<100] @ map (thread_line ''T2'') [1..<100]\<rparr>"
proof -
  have "thr_reachable (thr_init\<lparr>next1 := 100, printed := map (thread_line ''T1'') [1..<100]\<rparr>)"
    using thr_run1 [OF thr_reachable.init, of 99] by (simp add: thr_init_def del: upt_rec_numeral)
  from thr_run2 [OF this, of 99] show ?thesis by (simp add: thr_init_def del: upt_rec_numeral)
qed

text \<open>Each step brings one loop counter closer to 100.\<close>

lemma thr_step_measure:
  "thr_step s t \<Longrightarrow> (100 - next1 t) + (100 - next2 t) < (100 - next1 s) + (100 - next2 s)"
  by (induction rule: thr_step.induct) auto

lemma thr_step_wf: "wfp (\<lambda>t s. thr_step s t)"
proof -
  have "{(t, s). thr_step s t} \<subseteq> measure (\<lambda>s. (100 - next1 s) + (100 - next2 s))"
    using thr_step_measure by auto
  then show ?thesis unfolding wfp_def by (rule wf_subset [OF wf_measure])
qed

lemma thr_progress:
  "thr_inv s \<Longrightarrow> \<not> (next1 s = 100 \<and> next2 s = 100) \<Longrightarrow> \<exists>t. thr_step s t"
  unfolding thr_inv_def using thr_step.t1 [of s] thr_step.t2 [of s] by fastforce

section \<open>Properties\<close>

text \<open>
  C25.  In every printed the program can produce, each thread's lines appear
  in the order the thread printed them, without loss or repetition: the
  \<open>T1\<close> lines are \<open>T1: 1\<close>, \<open>T1: 2\<close>, ... up to the last one printed, and so
  are the \<open>T2\<close> lines; no other line is printed.
\<close>

theorem thread_output_order:
  "thr_reachable s \<Longrightarrow>
   filter (from_thread ''T1'') (printed s) = map (thread_line ''T1'') [1..<next1 s] \<and>
   filter (from_thread ''T2'') (printed s) = map (thread_line ''T2'') [1..<next2 s] \<and>
   length (printed s) = (next1 s - 1) + (next2 s - 1)"
  using thr_reachable_inv by (simp add: thr_inv_def)

theorem thread_output_order_witness:
  "thr_reachable \<lparr>next1 = 2, next2 = 2, printed = [''T2: 1'', ''T1: 1'']\<rparr> \<and>
   filter (from_thread ''T1'') [''T2: 1'', ''T1: 1''] = [''T1: 1'']"
  using thr_reachable_two thread_output_order [OF thr_reachable_two]
  by (simp add: thread_line_def display_defs numeral_2_eq_2)

text \<open>
  C26.  Each thread prints at most 99 lines, the numbers 1 to 99 (the range
  \<open>1..100\<close> excludes 100), so every possible printed has at most 198 lines.
\<close>

theorem thread_output_bounds:
  "thr_reachable s \<Longrightarrow>
   length (printed s) \<le> 198 \<and>
   (\<forall>l \<in> set (printed s). \<exists>i. 1 \<le> i \<and> i \<le> 99 \<and> (l = thread_line ''T1'' i \<or> l = thread_line ''T2'' i))"
proof -
  assume "thr_reachable s"
  then have inv: "thr_inv s" by (rule thr_reachable_inv)
  then have n1: "next1 s \<le> 100" and n2: "next2 s \<le> 100"
    and f1: "filter (from_thread ''T1'') (printed s) = map (thread_line ''T1'') [1..<next1 s]"
    and f2: "filter (from_thread ''T2'') (printed s) = map (thread_line ''T2'') [1..<next2 s]"
    and len: "length (printed s) = (next1 s - 1) + (next2 s - 1)"
    and fr: "\<forall>l \<in> set (printed s). from_thread ''T1'' l \<or> from_thread ''T2'' l"
    unfolding thr_inv_def by blast+
  have "\<exists>i. 1 \<le> i \<and> i \<le> 99 \<and> (l = thread_line ''T1'' i \<or> l = thread_line ''T2'' i)"
    if l: "l \<in> set (printed s)" for l
  proof -
    have "from_thread ''T1'' l \<or> from_thread ''T2'' l" using fr l by blast
    then have "l \<in> set (map (thread_line ''T1'') [1..<next1 s]) \<or> l \<in> set (map (thread_line ''T2'') [1..<next2 s])"
      using filter_line_mem [OF f1 l] filter_line_mem [OF f2 l] by blast
    then show ?thesis using n1 n2 by auto
  qed
  moreover have "length (printed s) \<le> 198" using len n1 n2 by simp
  ultimately show ?thesis by blast
qed

theorem thread_output_bounds_witness:
  "length [''T2: 1'', ''T1: 1''] \<le> 198 \<and> ''T1: 1'' = thread_line ''T1'' 1"
  using thread_output_bounds [OF thr_reachable_two]
  by (simp add: thread_line_def display_defs)

text \<open>
  C27.  Every schedule of the two threads ends, and ends with both done: the
  step relation is well founded (no run is infinite), and a reachable state
  with no step left has both loops at 100 and all 198 lines printed.  So if
  \<open>main\<close> waited long enough, every line would be printed under any
  scheduler.
\<close>

theorem thread_completion:
  "wfp (\<lambda>t s. thr_step s t) \<and>
   (\<forall>s. thr_reachable s \<and> (\<forall>t. \<not> thr_step s t) \<longrightarrow>
        next1 s = 100 \<and> next2 s = 100 \<and> length (printed s) = 198)"
proof -
  have "\<forall>s. thr_reachable s \<and> (\<forall>t. \<not> thr_step s t) \<longrightarrow>
          next1 s = 100 \<and> next2 s = 100 \<and> length (printed s) = 198"
  proof (intro allI impI)
    fix s assume "thr_reachable s \<and> (\<forall>t. \<not> thr_step s t)"
    then have inv: "thr_inv s" and stuck: "\<forall>t. \<not> thr_step s t"
      using thr_reachable_inv by blast+
    have "next1 s = 100 \<and> next2 s = 100" using thr_progress [OF inv] stuck by blast
    then show "next1 s = 100 \<and> next2 s = 100 \<and> length (printed s) = 198"
      using inv by (simp add: thr_inv_def)
  qed
  then show ?thesis using thr_step_wf by blast
qed

theorem thread_completion_witness:
  "thr_reachable \<lparr>next1 = 100, next2 = 100,
     printed = map (thread_line ''T1'') [1..<100] @ map (thread_line ''T2'') [1..<100]\<rparr> \<and>
   length (map (thread_line ''T1'') [1..<100] @ map (thread_line ''T2'') [1..<100]) = 198"
proof -
  let ?f = "\<lparr>next1 = 100, next2 = 100,
     printed = map (thread_line ''T1'') [1..<100] @ map (thread_line ''T2'') [1..<100]\<rparr>"
  have stuck: "\<forall>t. \<not> thr_step ?f t" by (auto elim: thr_step.cases)
  show ?thesis using thread_completion thr_reachable_final stuck by (simp del: upt_rec_numeral)
qed

end
