(* ===== verification/Collections.thy ===== *)
theory Collections
  imports Enums Rust_Float "HOL-Library.AList" "HOL-Library.Multiset"
begin

text \<open>
  The collection snippets: the slice iterator of
  \<open>src/chapters/chapter-13/example05.rs\<close>, the \<open>HashMap\<close> of messages of
  \<open>src/chapters/chapter-8/example9.rs\<close> and the \<open>String\<close> concatenation of
  \<open>example6.rs\<close>.  A \<open>std::slice::Iter\<close> is the record \<open>slice_iter\<close>: the
  slice it borrows and the position of the next element; \<open>iter_next\<close> is
  \<open>Iterator::next\<close> and \<open>iter_for\<close> the \<open>for\<close> loop that calls it until
  \<open>None\<close>, terminating by the measure \<open>length - pos\<close>.  A \<open>HashMap\<close> is an
  association list with distinct keys (\<open>AList.update\<close> replaces the value of
  a present key in place), with the operations \<open>example9.rs\<close> calls and
  its \<open>Message::call\<close>.  Its \<open>main\<close> is not modelled: it calls
  \<open>entry\<close> on an undeclared \<open>scores\<close> (lines 45--46), so the file does
  not compile and has no behaviour to model.
\<close>

section \<open>Slice iterators (chapter 13)\<close>

record 'a slice_iter =
  iter_slice :: "'a list"
  iter_pos :: nat

definition slice_iter_new :: "'a list \<Rightarrow> 'a slice_iter" where
  "slice_iter_new v = \<lparr>iter_slice = v, iter_pos = 0\<rparr>"

definition iter_next :: "'a slice_iter \<Rightarrow> 'a option \<times> 'a slice_iter" where
  "iter_next it =
     (if iter_pos it < length (iter_slice it)
      then (Some (iter_slice it ! iter_pos it), it\<lparr>iter_pos := Suc (iter_pos it)\<rparr>)
      else (None, it))"

function iter_for :: "('a \<Rightarrow> 'b list) \<Rightarrow> 'a slice_iter \<Rightarrow> 'b list" where
  "iter_for body it =
     (case iter_next it of
        (None, _) \<Rightarrow> []
      | (Some x, it') \<Rightarrow> body x @ iter_for body it')"
  by pat_completeness auto
termination
  by (relation "measure (\<lambda>(_, it). length (iter_slice it) - iter_pos it)")
     (auto simp: iter_next_def split: if_splits)

definition show_opt :: "i32 option \<Rightarrow> string" where
  "show_opt r = (case r of None \<Rightarrow> ''None'' | Some x \<Rightarrow> ''Some('' @ show_signed x @ '')'')"

definition example05_main :: "string list outcome" where
  "example05_main =
     (let v1 = [1, 2, 3 :: i32];
          out = iter_for (\<lambda>val. [''Got: '' @ show_signed val]) (slice_iter_new v1);
          (a, it1) = iter_next (slice_iter_new v1);
          (b, it2) = iter_next it1;
          (c, it3) = iter_next it2;
          (d, it4) = iter_next it3
      in then_run (assert_eq show_opt a (Some 1)) (\<lambda>_.
         then_run (assert_eq show_opt b (Some 2)) (\<lambda>_.
         then_run (assert_eq show_opt c (Some 3)) (\<lambda>_.
         then_run (assert_eq show_opt d None) (\<lambda>_. Inr out)))))"

section \<open>\<open>HashMap\<close> of messages (chapter 8, example 9)\<close>

type_synonym ('k, 'v) hash_map = "('k \<times> 'v) list"

definition hm_new :: "('k, 'v) hash_map" where
  "hm_new = []"

definition hm_insert :: "'k \<Rightarrow> 'v \<Rightarrow> ('k, 'v) hash_map \<Rightarrow> ('k, 'v) hash_map" where
  "hm_insert k v m = AList.update k v m"

definition hm_get :: "('k, 'v) hash_map \<Rightarrow> 'k \<Rightarrow> 'v option" where
  "hm_get m k = map_of m k"

definition hm_entry_or_insert :: "'k \<Rightarrow> 'v \<Rightarrow> ('k, 'v) hash_map \<Rightarrow> ('k, 'v) hash_map" where
  "hm_entry_or_insert k v m = (case map_of m k of None \<Rightarrow> AList.update k v m | Some _ \<Rightarrow> m)"

definition hm_wf :: "('k, 'v) hash_map \<Rightarrow> bool" where
  "hm_wf m \<longleftrightarrow> distinct (map fst m)"

text \<open>
  \<open>example9.rs\<close> declares its own \<open>Message\<close> with the same variants and
  \<open>call\<close> as \<open>example5.rs\<close>; \<open>message_of9\<close> relates the two types.
\<close>

datatype message9 = Quit9 | Move9 i32 i32 | Write9 string | ChangeColor9 i32 i32 i32

fun message9_call :: "message9 \<Rightarrow> string" where
  "message9_call Quit9 = ''Quit''"
| "message9_call (Move9 x y) = ''Move with x: '' @ show_signed x @ '' y: '' @ show_signed y"
| "message9_call (Write9 m) = ''Write with '' @ m"
| "message9_call (ChangeColor9 a b c) =
     ''ChangeColor with a: '' @ show_signed a @ '', b: '' @ show_signed b @ '', c: '' @ show_signed c"

fun message_of9 :: "message9 \<Rightarrow> message" where
  "message_of9 Quit9 = Quit"
| "message_of9 (Move9 x y) = Move x y"
| "message_of9 (Write9 m) = Write m"
| "message_of9 (ChangeColor9 a b c) = ChangeColor a b c"

section \<open>A row of spreadsheet cells (chapter 8, example 3)\<close>

text \<open>
  The \<open>f64\<close> of a \<open>Float\<close> cell is the double nearest to its literal,
  and \<open>println!\<close> renders it with \<open>Display\<close> (\<open>display_float\<close>).
\<close>

datatype spreadsheet_cell = Cell_Int i32 | Cell_Float fval | Cell_Text string

fun print_cell :: "spreadsheet_cell \<Rightarrow> string" where
  "print_cell (Cell_Int i) = ''This is an Int cell, with value: '' @ show_signed i"
| "print_cell (Cell_Float f) = ''This is a Float cell, with value: '' @ display_float f64_fmt f"
| "print_cell (Cell_Text t) = ''This is an Text cell, with value: '' @ t"

definition spreadsheet_main :: "string list" where
  "spreadsheet_main =
     (let row = [Cell_Int 3, Cell_Text ''blue'', Cell_Float (round_float f64_fmt False (1012 / 100)), Cell_Int 7,
                 Cell_Float (round_float f64_fmt False (2104 / 100)), Cell_Text ''yellow'',
                 Cell_Float (round_float f64_fmt False (2901 / 100))]
      in map print_cell row)"

section \<open>\<open>String\<close> concatenation (chapter 8, example 6)\<close>

definition example6_main :: "string list" where
  "example6_main =
     (let s1 = ''Hello, ''; s2 = ''world!''; s3 = s1 @ s2
      in [''s2 '' @ s2, ''s3 '' @ s3])"

section \<open>Lemmas\<close>

text \<open>The \<open>call\<close> of \<open>example9.rs\<close> prints what the \<open>call\<close> of \<open>example5.rs\<close> prints.\<close>

lemma message9_call_eq: "message9_call m = message_call (message_of9 m)"
  by (cases m) simp_all

lemma message_of9_bij: "bij message_of9"
proof (rule bijI)
  show "inj message_of9"
  proof (rule injI)
    fix a b assume "message_of9 a = message_of9 b"
    then show "a = b" by (cases a; cases b) simp_all
  qed
  show "surj message_of9"
  proof (rule surjI)
    fix m show "message_of9 (case m of Quit \<Rightarrow> Quit9 | Move x y \<Rightarrow> Move9 x y | Write t \<Rightarrow> Write9 t
                                 | ChangeColor a b c \<Rightarrow> ChangeColor9 a b c) = m"
      by (cases m) simp_all
  qed
qed

lemma iter_for_from:
  "iter_for body \<lparr>iter_slice = v, iter_pos = p, \<dots> = r\<rparr> = concat (map body (drop p v))"
proof (induction "length v - p" arbitrary: p)
  case 0
  then show ?case by (simp add: iter_next_def)
next
  case (Suc n)
  then have p: "p < length v" by simp
  have IH: "iter_for body \<lparr>iter_slice = v, iter_pos = Suc p, \<dots> = r\<rparr> = concat (map body (drop (Suc p) v))"
    by (rule Suc.hyps(1)) (use Suc.hyps(2) in arith)
  have "iter_for body \<lparr>iter_slice = v, iter_pos = p, \<dots> = r\<rparr>
        = body (v ! p) @ iter_for body \<lparr>iter_slice = v, iter_pos = Suc p, \<dots> = r\<rparr>"
    using p by (simp add: iter_next_def)
  also have "\<dots> = body (v ! p) @ concat (map body (drop (Suc p) v))"
    by (simp only: IH)
  also have "\<dots> = concat (map body (drop p v))"
    using p by (simp add: Cons_nth_drop_Suc [symmetric])
  finally show ?case .
qed

lemma hm_insert_wf: "hm_wf m \<Longrightarrow> hm_wf (hm_insert k v m)"
  by (simp add: hm_wf_def hm_insert_def distinct_update)

lemma hm_entry_or_insert_wf: "hm_wf m \<Longrightarrow> hm_wf (hm_entry_or_insert k v m)"
  by (simp add: hm_wf_def hm_entry_or_insert_def distinct_update split: option.split)

lemma hm_get_insert: "hm_get (hm_insert k v m) k' = (if k' = k then Some v else hm_get m k')"
  by (simp add: hm_get_def hm_insert_def update_conv)

section \<open>Properties\<close>

text \<open>
  A \<open>for\<close> loop over \<open>v.iter()\<close> terminates and visits exactly the
  elements of \<open>v\<close>, in order: collecting the iterator gives \<open>v\<close> back.
\<close>

lemma iter_for_collect: "iter_for (\<lambda>x. [x]) (slice_iter_new v) = v"
  by (simp add: slice_iter_new_def iter_for_from [of _ v 0 "()", simplified])

text \<open>
  \<open>main\<close> of \<open>example05.rs\<close> prints \<open>Got: 1\<close>, \<open>Got: 2\<close>, \<open>Got: 3\<close>
  and all four of its assertions on \<open>next()\<close> hold.
\<close>

lemma example05_main_output:
  "example05_main = Inr [''Got: 1'', ''Got: 2'', ''Got: 3'']"
  by (simp add: example05_main_def iter_for_from slice_iter_new_def iter_next_def
                assert_eq_def display_defs)

text \<open>
  \<open>main\<close> of \<open>example3.rs\<close> prints each cell of the row; each float
  prints as its literal, the shortest decimal that denotes the same double.
\<close>

lemma spreadsheet_main_output:
  "spreadsheet_main =
     [''This is an Int cell, with value: 3'', ''This is an Text cell, with value: blue'',
      ''This is a Float cell, with value: 10.12'', ''This is an Int cell, with value: 7'',
      ''This is a Float cell, with value: 21.04'', ''This is an Text cell, with value: yellow'',
      ''This is a Float cell, with value: 29.01'']"
  by code_simp

text \<open>
  \<open>insert\<close> and \<open>entry().or_insert()\<close> keep the keys of a map
  distinct; \<open>get\<close> after \<open>insert\<close> returns the value inserted under that key
  and the old value under any other, and \<open>or_insert\<close> writes the value only
  when the key is absent.
\<close>

lemma hm_insert_entry_get:
  "hm_wf m \<Longrightarrow>
   hm_wf (hm_insert k v m) \<and> hm_wf (hm_entry_or_insert k v m) \<and>
   hm_get (hm_insert k v m) k' = (if k' = k then Some v else hm_get m k') \<and>
   hm_get (hm_entry_or_insert k v m) k' =
     (if k' = k \<and> hm_get m k = None then Some v else hm_get m k')"
  using hm_insert_wf [of m k v] hm_entry_or_insert_wf [of m k v] hm_get_insert [of k v m k']
  by (auto simp: hm_entry_or_insert_def hm_get_def update_conv split: option.split)

end
