(* ===== verification/Structs.thy ===== *)
theory Structs
  imports Prelude
begin

text \<open>
  The struct examples: \<open>Rectangle\<close> with \<open>can_hold\<close> and \<open>square\<close>
  (\<open>src/chapters/chapter-5/chapter-exercises/src/main6.rs\<close>, \<open>main7.rs\<close>),
  \<open>User\<close> and \<open>build_user\<close> (\<open>chapter-5/example3.rs\<close>), the nested
  destructuring of \<open>chapter-18/example17.rs\<close> and the \<open>Status\<close> values of
  \<open>chapter-19/example16.rs\<close>.  Each struct is a record with the source's
  fields, each \<open>main\<close> the list of lines it prints.
\<close>

section \<open>\<open>Rectangle\<close> (chapter 5, main6.rs and main7.rs)\<close>

record rect5 =
  width :: u32
  height :: u32

definition can_hold5 :: "rect5 \<Rightarrow> rect5 \<Rightarrow> bool" where
  "can_hold5 self other \<longleftrightarrow> width self > width other \<and> height self > height other"

definition show_rect :: "rect5 \<Rightarrow> string" where
  "show_rect r = ''w: '' @ show_unsigned (width r) @ '', h: '' @ show_unsigned (height r)"

definition show_bool :: "bool \<Rightarrow> string" where
  "show_bool b = (if b then ''true'' else ''false'')"

definition main6 :: "string list" where
  "main6 =
     (let rect1 = \<lparr>width = 30, height = 50\<rparr>;
          rect2 = \<lparr>width = 10, height = 40\<rparr>;
          rect3 = \<lparr>width = 60, height = 45\<rparr>
      in [''Can rect1 hold rect2? '' @ show_bool (can_hold5 rect1 rect2),
          ''Can rect1 hold rect3? '' @ show_bool (can_hold5 rect1 rect3),
          ''Rect 1 '' @ show_rect rect1, ''Rect 2 '' @ show_rect rect2, ''Rect 3 '' @ show_rect rect3])"

definition square :: "u32 \<Rightarrow> rect5" where
  "square sz = \<lparr>width = sz, height = sz\<rparr>"

definition main7 :: "string list" where
  "main7 = (let rect1 = square 2 in [''Rect 1 '' @ show_rect rect1])"

section \<open>\<open>User\<close> (chapter 5, example3.rs)\<close>

record user =
  username :: string
  email :: string
  sign_in_count :: u64
  active :: bool

definition build_user :: "string \<Rightarrow> string \<Rightarrow> user" where
  "build_user e u = \<lparr>username = u, email = e, sign_in_count = 1, active = True\<rparr>"

definition example3_main :: "string list" where
  "example3_main =
     (let user1 = build_user ''foo@bar.com'' ''foobar'';
          user1 = user1\<lparr>email := ''anotheremail@example.com''\<rparr>;
          user1 = user1\<lparr>username := ''notthesameasbefore''\<rparr>
      in [''User '' @ username user1 @ '' logged in with '' @ email user1 @ '' email address''])"

section \<open>Destructuring (chapter 18, example17.rs)\<close>

record point18 =
  x18 :: i32
  y18 :: i32

definition example17_main :: "string list" where
  "example17_main =
     (case ((3 :: i32, 10 :: i32), \<lparr>x18 = 3, y18 = -10\<rparr>) of
        ((feet, inches), p) \<Rightarrow>
          [show_signed feet @ '' '' @ show_signed inches @ '' '' @ show_signed (x18 p) @ '' '' @
           show_signed (y18 p)])"

section \<open>\<open>Status\<close> (chapter 19, example16.rs)\<close>

datatype status = Value u32 | Stop

definition list_of_statuses :: "status list" where
  "list_of_statuses = map Value (map of_nat [0..<20])"

end
