(* ===== verification/Io_Env.thy ===== *)
theory Io_Env
  imports Prelude
begin

text \<open>
  Programs whose behaviour depends on their environment, modelled with the
  environment as a parameter.  \<open>src/chapters/chapter-9/errors/src/result1.rs\<close>
  opens \<open>hello.txt\<close>: the file system is the function \<open>fs\<close> giving the
  \<open>Result\<close> of \<open>File::open\<close> for a path (\<open>Inl\<close> the \<open>io::Error\<close>), and
  \<open>main\<close> prints the \<open>Debug\<close> of the file or panics with the \<open>Debug\<close> of
  the error.  The two \<open>Debug\<close> renderings are those of the standard library
  on Linux: an OS error is \<open>Os { code: .., kind: .., message: ".." }\<close> and a
  file is \<open>File { fd: .., path: "..", read: .., write: .. }\<close>; string
  fields are rendered by \<open>debug_str\<close> of the prelude.
  \<open>src/chapters/chapter-7/my-project/src/main.rs\<close> calls
  \<open>sound::instrument::clarinet\<close> twice and prints a number drawn by
  \<open>rand\<close>; the module \<open>sound\<close> is not in the repository, so the lines
  \<open>clarinet\<close> prints are a parameter, and the generator's raw draws are
  a parameter of \<open>gen_range\<close>, the sampling of \<open>rand\<close> 0.7.
\<close>

section \<open>\<open>File::open\<close> and its error (chapter 9, result1.rs)\<close>

datatype error_kind =
    NotFound
  | PermissionDenied
  | ConnectionRefused
  | ConnectionReset
  | HostUnreachable
  | NetworkUnreachable
  | ConnectionAborted
  | NotConnected
  | AddrInUse
  | AddrNotAvailable
  | NetworkDown
  | BrokenPipe
  | AlreadyExists
  | WouldBlock
  | NotADirectory
  | IsADirectory
  | DirectoryNotEmpty
  | ReadOnlyFilesystem
  | FilesystemLoop
  | StaleNetworkFileHandle
  | InvalidInput
  | InvalidData
  | TimedOut
  | WriteZero
  | StorageFull
  | NotSeekable
  | QuotaExceeded
  | FileTooLarge
  | ResourceBusy
  | ExecutableFileBusy
  | Deadlock
  | CrossesDevices
  | TooManyLinks
  | InvalidFilename
  | ArgumentListTooLong
  | Interrupted
  | Unsupported
  | UnexpectedEof
  | OutOfMemory
  | InProgress
  | Other
  | Uncategorized

fun error_kind_debug :: "error_kind \<Rightarrow> string" where
  "error_kind_debug NotFound = ''NotFound''"
| "error_kind_debug PermissionDenied = ''PermissionDenied''"
| "error_kind_debug ConnectionRefused = ''ConnectionRefused''"
| "error_kind_debug ConnectionReset = ''ConnectionReset''"
| "error_kind_debug HostUnreachable = ''HostUnreachable''"
| "error_kind_debug NetworkUnreachable = ''NetworkUnreachable''"
| "error_kind_debug ConnectionAborted = ''ConnectionAborted''"
| "error_kind_debug NotConnected = ''NotConnected''"
| "error_kind_debug AddrInUse = ''AddrInUse''"
| "error_kind_debug AddrNotAvailable = ''AddrNotAvailable''"
| "error_kind_debug NetworkDown = ''NetworkDown''"
| "error_kind_debug BrokenPipe = ''BrokenPipe''"
| "error_kind_debug AlreadyExists = ''AlreadyExists''"
| "error_kind_debug WouldBlock = ''WouldBlock''"
| "error_kind_debug NotADirectory = ''NotADirectory''"
| "error_kind_debug IsADirectory = ''IsADirectory''"
| "error_kind_debug DirectoryNotEmpty = ''DirectoryNotEmpty''"
| "error_kind_debug ReadOnlyFilesystem = ''ReadOnlyFilesystem''"
| "error_kind_debug FilesystemLoop = ''FilesystemLoop''"
| "error_kind_debug StaleNetworkFileHandle = ''StaleNetworkFileHandle''"
| "error_kind_debug InvalidInput = ''InvalidInput''"
| "error_kind_debug InvalidData = ''InvalidData''"
| "error_kind_debug TimedOut = ''TimedOut''"
| "error_kind_debug WriteZero = ''WriteZero''"
| "error_kind_debug StorageFull = ''StorageFull''"
| "error_kind_debug NotSeekable = ''NotSeekable''"
| "error_kind_debug QuotaExceeded = ''QuotaExceeded''"
| "error_kind_debug FileTooLarge = ''FileTooLarge''"
| "error_kind_debug ResourceBusy = ''ResourceBusy''"
| "error_kind_debug ExecutableFileBusy = ''ExecutableFileBusy''"
| "error_kind_debug Deadlock = ''Deadlock''"
| "error_kind_debug CrossesDevices = ''CrossesDevices''"
| "error_kind_debug TooManyLinks = ''TooManyLinks''"
| "error_kind_debug InvalidFilename = ''InvalidFilename''"
| "error_kind_debug ArgumentListTooLong = ''ArgumentListTooLong''"
| "error_kind_debug Interrupted = ''Interrupted''"
| "error_kind_debug Unsupported = ''Unsupported''"
| "error_kind_debug UnexpectedEof = ''UnexpectedEof''"
| "error_kind_debug OutOfMemory = ''OutOfMemory''"
| "error_kind_debug InProgress = ''InProgress''"
| "error_kind_debug Other = ''Other''"
| "error_kind_debug Uncategorized = ''Uncategorized''"

record io_error =
  os_code :: i32
  os_message :: string

record fs_file =
  fd :: i32
  file_path :: string
  readable :: bool
  writable :: bool

text \<open>
  The kind is not stored in an OS error: \<open>Debug\<close> computes it from the
  code with \<open>decode_error_kind\<close>, the standard library's table of Linux
  \<open>errno\<close> values (\<open>EAGAIN\<close> and \<open>EWOULDBLOCK\<close> are both 11; an
  unlisted code is \<open>Uncategorized\<close>).  The message is the C library's
  \<open>strerror\<close> text for the code, given with the error.
\<close>

definition errno_kinds :: "(int \<times> error_kind) list" where
  "errno_kinds =
     [(7, ArgumentListTooLong), (98, AddrInUse), (99, AddrNotAvailable),
      (16, ResourceBusy), (103, ConnectionAborted), (111, ConnectionRefused),
      (104, ConnectionReset), (35, Deadlock), (122, QuotaExceeded), (17, AlreadyExists),
      (27, FileTooLarge), (113, HostUnreachable), (4, Interrupted), (22, InvalidInput),
      (21, IsADirectory), (40, FilesystemLoop), (2, NotFound), (12, OutOfMemory),
      (28, StorageFull), (38, Unsupported), (31, TooManyLinks), (36, InvalidFilename),
      (100, NetworkDown), (101, NetworkUnreachable), (107, NotConnected),
      (20, NotADirectory), (39, DirectoryNotEmpty), (32, BrokenPipe),
      (30, ReadOnlyFilesystem), (29, NotSeekable), (116, StaleNetworkFileHandle),
      (110, TimedOut), (26, ExecutableFileBusy), (18, CrossesDevices), (115, InProgress),
      (13, PermissionDenied), (1, PermissionDenied), (11, WouldBlock)]"

definition decode_error_kind :: "i32 \<Rightarrow> error_kind" where
  "decode_error_kind code =
     (case map_of errno_kinds (sint code) of Some k \<Rightarrow> k | None \<Rightarrow> Uncategorized)"

definition debug_bool :: "bool \<Rightarrow> string" where
  "debug_bool b = (if b then ''true'' else ''false'')"

definition debug_io_error :: "io_error \<Rightarrow> string" where
  "debug_io_error e =
     ''Os { code: '' @ show_signed (os_code e) @ '', kind: '' @ error_kind_debug (decode_error_kind (os_code e)) @
     '', message: '' @ debug_str (os_message e) @ '' }''"

definition debug_file :: "fs_file \<Rightarrow> string" where
  "debug_file f =
     ''File { fd: '' @ show_signed (fd f) @ '', path: '' @ debug_str (file_path f) @
     '', read: '' @ debug_bool (readable f) @ '', write: '' @ debug_bool (writable f) @ '' }''"

definition result1_main :: "(string \<Rightarrow> io_error + fs_file) \<Rightarrow> string list outcome" where
  "result1_main fs =
     (let f = fs ''hello.txt'' in
      case f of
        Inr file \<Rightarrow> Inr [debug_file file]
      | Inl error \<Rightarrow> Inl (PanicMsg (''There was a problem opening the file: '' @ debug_io_error error)))"

section \<open>Modules and \<open>rand\<close> (chapter 7, my-project)\<close>

text \<open>
  \<open>rand::thread_rng().gen_range(1, 101)\<close> is the two-argument
  \<open>gen_range\<close> of \<open>rand\<close> 0.7, which asserts \<open>low < high\<close> and runs
  \<open>UniformInt::sample_single\<close>: with \<open>range = high - low\<close> (\<open>urange\<close>) as a
  \<open>u32\<close> and the rejection zone \<open>(range << range.leading_zeros()) - 1\<close>,
  it draws \<open>u32\<close> values \<open>v\<close>, takes the 64-bit product \<open>v * range\<close>
  split into its high and low words (\<open>wmul32\<close>), and returns
  \<open>low + hi\<close> for the first draw whose low word is within the zone.  The
  draws of \<open>ThreadRng\<close> (ChaCha output) are the parameter \<open>rng\<close>, a
  finite prefix of the stream: \<open>None\<close> when it holds no accepted draw,
  where the program would draw again.
\<close>

definition wmul32 :: "u32 \<Rightarrow> u32 \<Rightarrow> u32 \<times> u32" where
  "wmul32 a b = (let p = uint a * uint b in (word_of_int (p div 2 ^ 32), word_of_int p))"

definition leading_zeros32 :: "u32 \<Rightarrow> nat" where
  "leading_zeros32 w = length (takeWhile (\<lambda>i. \<not> bit w i) (rev [0..<32]))"

definition sample_zone :: "u32 \<Rightarrow> u32" where
  "sample_zone urange = push_bit (leading_zeros32 urange) urange - 1"

fun sample_loop :: "i32 \<Rightarrow> u32 \<Rightarrow> u32 \<Rightarrow> u32 list \<Rightarrow> (i32 \<times> u32 list) option" where
  "sample_loop low urange zone [] = None"
| "sample_loop low urange zone (v # vs) =
     (let (hi, lo) = wmul32 v urange in
      if lo \<le> zone then Some (low + ucast hi, vs) else sample_loop low urange zone vs)"

definition gen_range :: "i32 \<Rightarrow> i32 \<Rightarrow> u32 list \<Rightarrow> (i32 \<times> u32 list) option outcome" where
  "gen_range low high rng =
     (if sint low < sint high then
        (let urange = ucast (high - low) :: u32 in Inr (sample_loop low urange (sample_zone urange) rng))
      else Inl (PanicMsg ''UniformSampler::sample_single: low >= high''))"

text \<open>
  \<open>main\<close>: the lines of the two \<open>clarinet\<close> calls, then the number
  drawn; \<open>None\<close> when \<open>rng\<close> runs out before a draw is accepted.
\<close>

definition my_project_main :: "string list \<Rightarrow> u32 list \<Rightarrow> (string list \<times> unit outcome) option" where
  "my_project_main clarinet rng =
     (case gen_range 1 101 rng of
        Inl p \<Rightarrow> Some (clarinet @ clarinet, Inl p)
      | Inr None \<Rightarrow> None
      | Inr (Some (secret_number, _)) \<Rightarrow>
          Some (clarinet @ clarinet @ [show_signed secret_number], Inr ()))"

section \<open>Lemmas\<close>

lemma wmul32_hi_bound: "uint (fst (wmul32 v 100)) < 100"
proof -
  have "uint v * 100 div 2 ^ 32 < 100" using uint_lt2p [of v] by simp
  moreover have "0 \<le> uint v * 100 div 2 ^ 32" by (simp add: pos_imp_zdiv_nonneg_iff)
  ultimately show ?thesis by (simp add: wmul32_def uint_word_of_int take_bit_int_eq_self)
qed

lemma sample_loop_Some:
  "sample_loop low urange zone vs = Some (n, rest) \<Longrightarrow> \<exists>v \<in> set vs. n = low + ucast (fst (wmul32 v urange))"
  by (induction low urange zone vs rule: sample_loop.induct) (auto simp: Let_def split: prod.splits if_splits)

lemma sample_loop_returns:
  "\<exists>v \<in> set vs. snd (wmul32 v urange) \<le> zone \<Longrightarrow> \<exists>y. sample_loop low urange zone vs = Some y"
  by (induction vs) (auto simp: Let_def case_prod_beta)

lemma sint_one_plus_small: "uint (h :: u32) < 100 \<Longrightarrow> sint (1 + ucast h :: i32) = 1 + uint h"
proof -
  assume h: "uint h < 100"
  have u: "uint (ucast h :: i32) = uint h" using h by (simp add: uint_up_ucast unsigned_ucast_eq take_bit_int_eq_self)
  have t: "take_bit 32 (1 + uint h) = 1 + uint h" using h by (simp add: take_bit_int_eq_self)
  have "sint (1 + ucast h :: i32) = signed_take_bit 31 (1 + uint h)"
    by (simp add: sint_uint uint_word_arith_bintrs u t)
  also have "\<dots> = 1 + uint h" using h by (simp add: signed_take_bit_int_eq_self)
  finally show ?thesis .
qed

section \<open>Properties\<close>

text \<open>
  C23.  For every file system, \<open>main\<close> of \<open>result1.rs\<close> panics exactly
  when \<open>File::open("hello.txt")\<close> fails, and then with the message that
  names the error's code, kind and OS message; otherwise it prints the
  \<open>Debug\<close> of the file and returns.
\<close>

theorem result1_main_outcome:
  "(result1_main fs = Inl p \<longleftrightarrow>
      (\<exists>e. fs ''hello.txt'' = Inl e \<and>
           p = PanicMsg (''There was a problem opening the file: '' @ debug_io_error e))) \<and>
   (result1_main fs = Inr out \<longleftrightarrow> (\<exists>f. fs ''hello.txt'' = Inr f \<and> out = [debug_file f]))"
  by (cases "fs ''hello.txt''") (auto simp: result1_main_def)

theorem result1_main_not_found:
  "result1_main (\<lambda>_. Inl \<lparr>os_code = 2, os_message = ''No such file or directory''\<rparr>) =
   Inl (PanicMsg (''There was a problem opening the file: Os { code: 2, kind: NotFound, message: '' @
                  [CHR 0x22] @ ''No such file or directory'' @ [CHR 0x22] @ '' }''))"
  using result1_main_outcome
    [of "\<lambda>_. Inl \<lparr>os_code = 2, os_message = ''No such file or directory''\<rparr>"]
  by (simp add: debug_io_error_def decode_error_kind_def errno_kinds_def debug_str_def display_defs)

text \<open>
  C28.  Whenever the draws hold one that \<open>sample_single\<close> accepts,
  \<open>main\<close> of \<open>my-project\<close> returns, and the number it prints after the
  two \<open>clarinet\<close> outputs lies between 1 and 100.
\<close>

theorem my_project_secret_range:
  "\<exists>v \<in> set rng. snd (wmul32 v 100) \<le> sample_zone 100 \<Longrightarrow>
   \<exists>n. my_project_main clarinet rng = Some (clarinet @ clarinet @ [show_int n], Inr ()) \<and> 1 \<le> n \<and> n \<le> 100"
proof -
  assume a: "\<exists>v \<in> set rng. snd (wmul32 v 100) \<le> sample_zone 100"
  have r: "(ucast (101 - 1 :: i32) :: u32) = 100" by simp
  obtain n rest where s: "sample_loop 1 100 (sample_zone 100) rng = Some (n, rest)"
    using sample_loop_returns [OF a, of 1] by auto
  then obtain v where n: "n = 1 + ucast (fst (wmul32 v 100))" using sample_loop_Some by blast
  have "sint n = 1 + uint (fst (wmul32 v 100))" using n sint_one_plus_small [OF wmul32_hi_bound] by simp
  moreover have "0 \<le> uint (fst (wmul32 v 100))" by simp
  moreover have "uint (fst (wmul32 v 100)) < 100" by (rule wmul32_hi_bound)
  moreover have "my_project_main clarinet rng = Some (clarinet @ clarinet @ [show_int (sint n)], Inr ())"
    using s r by (simp add: my_project_main_def gen_range_def show_signed_def)
  ultimately show ?thesis by auto
qed

theorem my_project_secret_range_witness:
  "snd (wmul32 7 100) \<le> sample_zone 100 \<and>
   (\<exists>n. my_project_main [] [7] = Some ([] @ [] @ [show_int n], Inr ()) \<and> 1 \<le> n \<and> n \<le> 100)"
proof -
  have a: "snd (wmul32 7 100) \<le> sample_zone 100" by code_simp
  show ?thesis using my_project_secret_range [of "[7]" "[]"] a by simp
qed

end
