(* ===== verification/Spec2Isabelle.thy ===== *)
theory Spec2Isabelle
  imports Post Adder Fibonacci Temperature FirstWord Generics Enums Threads Collections Structs Io_Env
begin

text \<open>
  \<^bold>\<open>A verification library for the Rust exercises of marceloboeira/trpl.\<close>

  The repository is a set of small, independent Rust programs written while
  reading \<^emph>\<open>The Rust Programming Language\<close>.  Its one component with
  persistent state and design content, and the subject of the specification,
  is the blog-post workflow of \<open>src/chapters/chapter-17/example03.rs\<close>: a
  \<open>Post\<close> owns a boxed trait object \<open>State\<close> (\<open>Draft\<close>,
  \<open>PendingReview\<close>, \<open>Published\<close>) and a text buffer, and forwards
  \<open>request_review\<close> and \<open>approve\<close> to the state, which consumes itself and
  returns its successor.  The other programs are independent: integer
  functions and their unit tests, string slicing, enums and matches, generic
  functions, collections and iterators, a two-thread program.  They share
  only the Rust runtime and the standard library, which \<open>Prelude\<close>,
  \<open>Rust_Str\<close> and \<open>Rust_Float\<close> model; the theories import one another
  where one program uses another's types or the library (\<open>Collections\<close>
  relates its \<open>Message\<close> to the one of \<open>Enums\<close>; \<open>Fibonacci\<close> parses
  with \<open>Rust_Str\<close>; \<open>Temperature\<close>, \<open>Generics\<close> and \<open>Collections\<close>
  parse, compute and print floats with \<open>Rust_Float\<close>).

  \<^bold>\<open>The runtime (theories \<open>Prelude\<close>, \<open>Rust_Str\<close>, \<open>Rust_Float\<close>).\<close>
  The primitive integers are words (\<open>i8\<close>, \<open>i32\<close>, \<open>u8\<close>, \<open>u32\<close>,
  \<open>u64\<close>); a panic is the \<open>Inl\<close> of \<open>'a outcome = panic + 'a\<close>, and
  \<open>then_run\<close> sequences statements so that the first panic ends the
  function.  Arithmetic is the debug build's: \<open>checked_add\<close> and
  \<open>checked_sub\<close> panic where a release build would wrap.  \<open>Display\<close> of
  integers is \<open>show_nat\<close>/\<open>show_signed\<close>/\<open>show_unsigned\<close>, \<open>assert_eq!\<close>
  and \<open>assert!\<close> are \<open>assert_eq\<close> and \<open>assert_true\<close>, \<open>str::contains\<close> is
  \<open>str_contains\<close>, and \<open>Debug\<close> of a string, with its escapes, is
  \<open>debug_str\<close>.  A string is its UTF-8 bytes (a HOL \<open>char\<close> is a byte).
  \<open>Rust_Str\<close> holds \<open>str::trim\<close>, which strips the encodings of every
  Unicode white-space scalar (\<open>ws_codes\<close>) from both ends, and
  \<open>str::parse\<close> for signed and unsigned words (\<open>parse_int\<close>,
  \<open>parse_uint\<close>), with the round trip \<open>parse_int (show_signed v) = Some v\<close>.
  \<open>Rust_Float\<close> holds \<open>f64\<close> and \<open>f32\<close> (the record \<open>fformat\<close>:
  precision and exponent range, \<open>f64_fmt\<close>, \<open>f32_fmt\<close>): a value
  (\<open>fval\<close>) is NaN, an infinity, \<open>-0.0\<close> or a rational; an exact
  result is rounded to nearest, ties to even, with subnormals and overflow to
  infinity (\<open>round_float\<close>, executable where the reference formalisation
  of IEEE 754 uses a choice); \<open>fadd\<close>, \<open>fsub\<close>, \<open>fmul\<close>, \<open>fneg\<close>
  and \<open>fsqrt\<close> follow the standard's special cases; \<open>parse_float\<close> is
  \<open>str::parse\<close> (the decimal grammar, \<open>inf\<close>, \<open>infinity\<close>,
  \<open>nan\<close> in any case, a sign) and \<open>display_float\<close> is \<open>Display\<close>:
  the shortest digits that round back to the value (Dragon4's choice of the
  nearer candidate), written without exponent.

  \<^bold>\<open>The programs, by theory.\<close>
  \<^item> \<open>Post\<close> (\<open>chapter-17/example03.rs\<close>).  The trait objects are the
    datatype \<open>state\<close>; the trait methods are \<open>request_review\<close> and
    \<open>approve\<close>, one equation per \<open>impl\<close> block.  The struct is the record
    \<open>post\<close> with the slot \<open>state :: state option\<close> and the buffer
    \<open>content\<close>; its methods are \<open>post_new\<close>, \<open>post_add_text\<close>,
    \<open>post_approve\<close>, \<open>post_content\<close>, \<open>post_request_review\<close>, with
    \<open>Option::take\<close> written out as emptying the slot before refilling it;
    \<open>post_main\<close> is \<open>main\<close>.  A client is a list of \<open>post_op\<close>s run by
    \<open>post_run\<close>; \<open>post_reachable\<close> is the inductive set of posts a client
    can produce.  The workflow of the specification is the abstract machine
    \<open>spec_state_step\<close>/\<open>spec_state_run\<close> with the gated read
    \<open>spec_content\<close>.
  \<^item> \<open>Adder\<close> (\<open>chapter-11/adder/src/lib.rs\<close>): \<open>can_hold\<close>,
    \<open>add_two\<close>, \<open>greeting\<close>, \<open>guess_new\<close>, every test body, and
    \<open>run_test\<close>, the verdict of the test harness for a test's attributes
    (\<open>#[should_panic(expected)]\<close>, \<open>#[ignore]\<close>).
  \<^item> \<open>Fibonacci\<close> (\<open>chapter-3/.../fibonacci.rs\<close>): \<open>fibonacci\<close> on
    \<open>i32\<close> with its overflow panics, a \<open>function\<close> terminating by the measure
    \<open>sint n + 2^31\<close>, against the reference \<open>fib_spec\<close> on \<open>nat\<close>; and
    \<open>fib_main\<close> from the line read.
  \<^item> \<open>Temperature\<close> (\<open>chapter-3/.../temperature-converter.rs\<close>): one
    iteration of the endless loop is \<open>converter_iter\<close>, reading from the
    list of input lines; \<open>converter_run k\<close> is the output of \<open>k\<close>
    iterations.  The value is parsed as an \<open>f64\<close>, converted in double
    arithmetic (\<open>fahrenheit_of\<close>, \<open>celsius_of\<close>, with the literal
    \<open>1.8\<close> rounded) and printed with \<open>Display\<close>
    (\<open>conversion_line\<close>); \<open>to_celsius\<close> is the exact value of the
    Celsius formula on the rationals.  The option line is parsed as an
    \<open>i32\<close>, the type \<open>rustc\<close> infers for \<open>parse\<close> from the patterns
    \<open>Ok(1)\<close> and \<open>Ok(2)\<close>, and \<open>option_of\<close> is the match on it.
  \<^item> \<open>FirstWord\<close> (\<open>chapter-4/exercise1-r.rs\<close>): strings as lists of
    Unicode scalar values with their UTF-8 widths; \<open>&s[..i]\<close> by byte
    offset (\<open>slice_to\<close>, panicking off a char boundary and past the
    end); \<open>first_word\<close> against the intended \<open>first_word_spec\<close>.
  \<^item> \<open>Generics\<close> (\<open>chapter-10\<close>): \<open>largest\<close> over a linear order
    (its \<open>i32\<close> instance compares the signed values \<open>sint\<close>), and
    \<open>Point<T>\<close>, with \<open>distance_from_origin\<close> in \<open>f32\<close> arithmetic.
    \<open>Enums\<close> (\<open>chapter-6\<close>): every enum, match and \<open>main\<close>, the
    message structs of \<open>example5.rs\<close> in bijection with the variants, and
    \<open>sum_optionals\<close> on \<open>i8\<close>.  \<open>Structs\<close> (\<open>chapter-5\<close>,
    \<open>chapter-18\<close>, \<open>chapter-19\<close>): the structs, their methods and mains.
  \<^item> \<open>Collections\<close> (\<open>chapter-8\<close>, \<open>chapter-13\<close>): \<open>HashMap\<close> as an
    association list with distinct keys (\<open>hm_insert\<close>, \<open>hm_get\<close>,
    \<open>hm_entry_or_insert\<close>), the operations \<open>example9.rs\<close> calls;
    \<open>std::slice::Iter\<close> as a slice and a position, with
    \<open>iter_next\<close> and the \<open>for\<close> loop \<open>iter_for\<close>; the own \<open>Message\<close>
    and \<open>call\<close> of \<open>example9.rs\<close> (\<open>message9\<close>, equal in output to
    the one of \<open>example5.rs\<close>); the \<open>SpreadsheetCell\<close> row of
    \<open>example3.rs\<close> with its floats printed by \<open>Display\<close>.
  \<^item> \<open>Threads\<close> (\<open>chapter-16/example02.rs\<close>): the two spawned loops as
    the step relation \<open>thr_step\<close> under any schedule; \<open>thr_reachable\<close>
    are the states the process can end in when \<open>main\<close> returns.
  \<^item> \<open>Io_Env\<close> (\<open>chapter-9/errors/src/result1.rs\<close>,
    \<open>chapter-7/my-project/src/main.rs\<close>): programs whose behaviour depends
    on their environment, with the environment as a parameter: the file
    system's answer to \<open>File::open\<close>, with the standard library's
    \<open>Debug\<close> renderings of \<open>io::Error\<close> (its kind decoded from the OS
    error code by \<open>decode_error_kind\<close>, the table of Linux \<open>errno\<close>
    values) and \<open>File\<close>; and the lines of the
    missing module \<open>sound\<close>, and \<open>gen_range(1, 101)\<close> of \<open>rand\<close> 0.7
    (\<open>gen_range\<close>: its widening-multiply rejection sampling) over the
    generator's raw \<open>u32\<close> draws.

  \<^bold>\<open>What the lemmas show.\<close>
  The workflow (C1--C6): the reachable posts are exactly the drafts, because
  \<open>Draft::request_review\<close> returns \<open>self\<close> (C1); \<open>content()\<close> is the
  \<open>add_text\<close> arguments in call order (C2); the read is not gated, so every
  reachable post with text shows it, against the specification (C3);
  outside \<open>Draft\<close> the code's transitions refine the specified ones (C4);
  \<open>request_review\<close> is the identity (C5) and \<open>approve\<close> idempotent
  (C6).  \<open>main\<close> panics at its first \<open>assert_eq!\<close>
  (\<open>post_main_panics\<close>).  The adder library: \<open>add_two\<close>'s overflow
  bound (C7) and \<open>Guess::new\<close> on both branches (C8, C9); the test report
  (\<open>adder_tests_report\<close>) has \<open>greater_than_100\<close> failing on its
  expected message.  The converter: the double computation of the Celsius
  value is the exact, wrong formula up to a relative error of \<open>2^-51\<close>
  (C10); it spins at the end of input (C16); on option 2 it prints the
  conversion of the value read, which is off from the true Celsius value by
  more than twice that value, \<open>324\<close> for 212 Fahrenheit (C17); other
  options are skipped (C18).  \<open>fibonacci\<close> (C11--C15): the outcome of
  \<open>main\<close> on every input line (C11); it equals the reference for
  \<open>0 \<le> n \<le> 46\<close>, overflows from 47, never returns for negative
  \<open>n\<close>, and \<open>main\<close> prints the right number for a rendered input.
  \<open>first_word\<close> (C19--C21): correct on ASCII words, wrong on multi-byte
  words, and it panics exactly when the character count of the first word
  is not a byte offset between characters.  Then \<open>largest\<close> (C22); the
  outcome of \<open>result1.rs\<close> for every file system (C23);
  \<open>sum_optionals\<close> in full (C24); the thread interleavings (C25, C26);
  and the liveness of the thread program: every schedule ends, with both
  threads done (C27); the number \<open>my-project\<close> prints is between 1
  and 100 whenever the generator yields a draw the sampler accepts (C28).  The library models carry lemmas of their own that
  the claims use: \<open>display_parse_inverse\<close> (\<open>Display\<close> then
  \<open>str::parse\<close> is the identity on floats), \<open>round_float_err\<close> (half an
  ulp), \<open>fadd_valid\<close> and \<open>fmul_valid\<close>, \<open>slice_to_outcome\<close>,
  \<open>iter_for_collect\<close>, \<open>hm_insert_entry_get\<close>.

  \<^bold>\<open>Bounds and fuel.\<close>
  No fuel is used.  Every loop is structural recursion over its input
  (\<open>post_run\<close>, \<open>first_word_from\<close>, \<open>largest_loop\<close>), or a
  \<open>function\<close> with a measure: \<open>fibonacci\<close> descends in \<open>sint n\<close>, which is
  bounded below by \<open>-2^31\<close>, and \<open>iter_for\<close> in \<open>length - pos\<close>.  The
  converter's loop has no exit; \<open>converter_run k\<close> takes the number of
  iterations as an argument, and C16 shows that at the end of input every
  \<open>k\<close> gives the menu \<open>k\<close> times, so no bound makes it stop.  The thread
  model needs no bound: the loop range \<open>1..100\<close> is the guard of
  \<open>thr_step\<close>, and the measure \<open>(100 - next1) + (100 - next2)\<close> shows
  every schedule finite (C27).  The float model needs no bound either:
  \<open>shortest\<close> tries the digit counts \<open>1 .. n\<close>, where \<open>n\<close> is the
  length of the value's exact decimal expansion, at which the truncation is
  the value itself (\<open>shortest_cand_exact\<close>), so the search always succeeds;
  \<open>isqrt_search\<close>, \<open>int_digits\<close> and \<open>strip_zeros\<close> terminate by
  measures.

  \<^bold>\<open>Not modelled.\<close>
  Terminal and file I/O as such: \<open>read_line\<close> reads from a list of lines,
  \<open>File::open\<close> is a parameter, and the failure of \<open>read_line\<close> (its
  \<open>expect\<close>) is not modelled.  The generator behind \<open>rand\<close> (ChaCha
  seeded by the OS) is not modelled: its draws are a parameter of
  \<open>my_project_main\<close>, as are the lines of the module \<open>sound\<close>, absent
  from the repository.  Of floating point, only what the programs use:
  hexadecimal float syntax, the other operations of \<open>f64\<close> and the
  formatting options of \<open>{:.2}\<close> and \<open>{:e}\<close> are absent.  Of
  Unicode, only what the programs observe: \<open>debug_str\<close> keeps the bytes
  of non-ASCII scalars (Rust escapes the non-printable ones by its tables),
  and the panics of a string slice carry the byte index without the rest of
  the message.  The four
  message structs of \<open>example9.rs\<close> repeat those of \<open>example5.rs\<close>
  verbatim and are modelled once; \<open>main7.rs\<close> redeclares the
  \<open>Rectangle\<close> of \<open>main6.rs\<close>, which the model shares.
  The sleeps of the thread program bias the schedule but do not restrict
  it, so the model has none.  Three sources do not
  compile as written: \<open>largest\<close> lacks the bounds \<open>T: PartialOrd + Copy\<close>,
  \<open>chapter-8/example9.rs\<close> calls \<open>entry\<close> on an undeclared \<open>scores\<close>,
  and \<open>my-project\<close> declares a module \<open>sound\<close> with no source.  For
  \<open>largest\<close> the model takes the evident intent (a linear order); the
  \<open>main\<close> of \<open>example9.rs\<close> is not modelled, only its \<open>Message\<close> and
  the map operations it calls; \<open>my_project_main\<close> takes the module's
  output as a parameter.

  The stack overflow of a deep \<open>fibonacci\<close> is not modelled: its depth
  depends on the platform's stack size and the compiler's frame layout,
  which the source does not fix; the model lets the recursion run to
  \<open>i32::MIN\<close>, where it panics, so the outcome (no result) is the same.
\<close>

end
